theory Spec2Isabelle
  imports Main "HOL-Library.Word"
begin

section \<open>The OAT file writer\<close>

text \<open>
  A shallow embedding of \<^verbatim>\<open>oat_writer.cc\<close>: the layout pass run by the constructor
  \<^verbatim>\<open>OatWriter::OatWriter\<close> and the write pass \<^verbatim>\<open>OatWriter::Write\<close>.

  Conventions of the embedding.
  \<^item> \<^verbatim>\<open>size_t\<close> values are natural numbers; every conversion to \<^verbatim>\<open>uint32_t\<close> of an
    offset or of a blob size is written out as \<open>u32\<close> (reduction modulo \<open>2^32\<close>).
    Counts of methods and classes are bounded by the 32-bit size of a dex file and are
    plain natural numbers.
  \<^item> A \<^verbatim>\<open>CHECK\<close> that fails, a \<^verbatim>\<open>LOG(FATAL)\<close> and an out-of-range access end the
    process; they are the \<open>Inl\<close> results of type \<open>fatal\<close>. The embedding is the release
    build: \<^verbatim>\<open>DCHECK\<close>s and \<^verbatim>\<open>kIsDebugBuild\<close> blocks are not executed, and the
    \<^verbatim>\<open>size_*\<close> statistics counters, which only they read, are left out (except
    \<^verbatim>\<open>size_executable_offset_alignment_\<close>, which \<^verbatim>\<open>WriteCode\<close> uses).
  \<^item> A \<^verbatim>\<open>std::vector<uint8_t>\<close> handed over by the compiler is known to the writer by
    its address; the memory \<open>vector_at\<close> gives the bytes stored at an address.
  \<^item> What is written to the output stream, or folded into the checksum, is recorded as a
    sequence of typed chunks (the object written and hence its size), not as flattened
    bytes: the in-memory representation of the structures is not part of these sources.
  \<^item> The call-frame-information bookkeeping of \<^verbatim>\<open>InitCodeMethodProcessor\<close> and the
    body of \<^verbatim>\<open>InitImageMethodProcessor\<close> only touch objects outside the writer (the
    driver's CFI vector, the runtime's method objects) and never the running offset; they
    are left out.
\<close>

subsection \<open>Machine integers, alignment, instruction sets\<close>

type_synonym byte = "8 word"

datatype fatal = CheckFailed | Undefined

definition u32 :: "nat \<Rightarrow> nat" where
  "u32 n = n mod 2 ^ 32"

text \<open>Modelled from the spec: \<^verbatim>\<open>RoundUp\<close> (utils.h) is not among the sources; it rounds
  an offset up to the next multiple of the boundary.\<close>

definition RoundUp :: "nat \<Rightarrow> nat \<Rightarrow> nat" where
  "RoundUp x n = ((x + n - 1) div n) * n"

text \<open>Modelled from the spec: the page size and the per-architecture code alignment
  boundaries (globals.h) are not among the sources.\<close>

definition kPageSize :: nat where "kPageSize = 4096"
definition kArmAlignment :: nat where "kArmAlignment = 8"
definition kArm64Alignment :: nat where "kArm64Alignment = 16"
definition kMipsAlignment :: nat where "kMipsAlignment = 8"
definition kX86Alignment :: nat where "kX86Alignment = 16"

datatype InstructionSet = kNone | kArm | kArm64 | kThumb2 | kX86 | kX86_64 | kMips

text \<open>Modelled from the spec: \<^verbatim>\<open>CompiledCode::AlignCode\<close> and \<^verbatim>\<open>CodeDelta\<close>
  (compiled_method.cc) are not among the sources. Every architecture has a mandatory
  code-alignment boundary, the ones \<^verbatim>\<open>DCheckCodeAlignment\<close> names; \<open>kNone\<close> has none
  and is fatal. The code delta is 1 for Thumb2 and 0 otherwise.\<close>

fun AlignCode :: "nat \<Rightarrow> InstructionSet \<Rightarrow> fatal + nat" where
  "AlignCode offset kArm = Inr (RoundUp offset kArmAlignment)"
| "AlignCode offset kThumb2 = Inr (RoundUp offset kArmAlignment)"
| "AlignCode offset kArm64 = Inr (RoundUp offset kArm64Alignment)"
| "AlignCode offset kMips = Inr (RoundUp offset kMipsAlignment)"
| "AlignCode offset kX86 = Inr (RoundUp offset kX86Alignment)"
| "AlignCode offset kX86_64 = Inr (RoundUp offset kX86Alignment)"
| "AlignCode offset kNone = Inl CheckFailed"

fun CodeDelta :: "InstructionSet \<Rightarrow> nat" where
  "CodeDelta kThumb2 = 1"
| "CodeDelta _ = 0"

subsection \<open>Input: dex files, compiled methods, the compiler driver\<close>

record EncodedMethod =
  GetMemberIndex :: nat
  GetMemberAccessFlags :: nat

text \<open>The class data of a class definition: its directly-dispatched and its
  virtually-dispatched methods, in declaration order (the fields, which the traversal
  steps over, are left out).\<close>

record ClassData =
  direct_methods :: "EncodedMethod list"
  virtual_methods :: "EncodedMethod list"

text \<open>A dex file: \<open>class_defs\<close> lists \<^verbatim>\<open>GetClassData\<close> of every class definition
  (\<open>None\<close> for a class without data), \<open>dex_data\<close> is the file's image in memory, whose
  length is \<^verbatim>\<open>GetHeader().file_size_\<close>; \<open>dex_id\<close> stands for the object's address.\<close>

record DexFile =
  dex_id :: nat
  GetLocation :: string
  GetLocationChecksum :: nat
  dex_data :: "byte list"
  class_defs :: "ClassData option list"

record CompiledMethod =
  GetInstructionSet :: InstructionSet
  GetPortableCode :: "nat option"
  GetQuickCode :: "nat option"
  GetFrameSizeInBytes :: nat
  GetCoreSpillMask :: nat
  GetFpSpillMask :: nat
  GetMappingTable :: nat
  GetVmapTable :: nat
  GetGcMap :: nat

datatype Trampoline =
    InterpreterToInterpreterBridge | InterpreterToCompiledCodeBridge | JniDlsymLookup
  | PortableImtConflictTrampoline | PortableResolutionTrampoline | PortableToInterpreterBridge
  | QuickGenericJniTrampoline | QuickImtConflictTrampoline | QuickResolutionTrampoline
  | QuickToInterpreterBridge

text \<open>The class status is \<^verbatim>\<open>mirror::Class::Status\<close>, an integer enumeration.
  Modelled from the spec: the enumeration (class.h) is not among the sources; the
  rejected tag is \<open>-1\<close> and the not-ready tag is \<open>0\<close>.\<close>

definition kStatusError :: int where "kStatusError = - 1"
definition kStatusNotReady :: int where "kStatusNotReady = 0"

record CompilerDriver =
  IsImage :: bool
  driver_GetInstructionSet :: InstructionSet
  GetCompiledMethod :: "nat \<times> nat \<Rightarrow> CompiledMethod option"
  GetCompiledClass :: "nat \<times> nat \<Rightarrow> int option"
  IsClassRejected :: "nat \<times> nat \<Rightarrow> bool"
  vector_at :: "nat \<Rightarrow> byte list"
  CreateTrampoline :: "Trampoline \<Rightarrow> byte list"

subsection \<open>The structures of the OAT file\<close>

record OatMethodOffsets =
  code_offset :: nat
  frame_size_in_bytes :: nat
  core_spill_mask :: nat
  fp_spill_mask :: nat
  mapping_table_offset :: nat
  vmap_table_offset :: nat
  gc_map_offset :: nat

datatype OatClassType = kOatClassAllCompiled | kOatClassSomeCompiled | kOatClassNoneCompiled

text \<open>Modelled from the spec: the sizes of the structures declared in oat.h and
  oat_writer.h, which are not among the sources: the fixed-size header, the method header
  holding the code length, the per-method offset record of seven 32-bit fields, and the
  two 16-bit tags of a class descriptor.\<close>

definition sizeof_OatHeader :: nat where "sizeof_OatHeader = 80"
definition sizeof_OatMethodHeader :: nat where "sizeof_OatMethodHeader = 4"
definition sizeof_OatMethodOffsets :: nat where "sizeof_OatMethodOffsets = 28"
definition sizeof_status :: nat where "sizeof_status = 2"
definition sizeof_type :: nat where "sizeof_type = 2"
definition sizeof_uint32 :: nat where "sizeof_uint32 = 4"

text \<open>Modelled from the spec: \<^verbatim>\<open>BitVector\<close> (base/bit_vector.h) is not among the
  sources. It is the bitmap marking which method slots were compiled: a fixed number of
  bits, stored in whole 32-bit words, all clear at first.\<close>

type_synonym BitVector = "bool list"

definition BitVector_new :: "nat \<Rightarrow> BitVector" where
  "BitVector_new start_bits = replicate (32 * ((start_bits + 31) div 32)) False"

definition GetSizeOf :: "BitVector \<Rightarrow> nat" where
  "GetSizeOf bv = 4 * (length bv div 32)"

definition SetBit :: "nat \<Rightarrow> BitVector \<Rightarrow> BitVector" where
  "SetBit i bv = bv[i := True]"

definition NumSetBits :: "BitVector \<Rightarrow> nat" where
  "NumSetBits bv = length (filter (\<lambda>b. b) bv)"

record OatClass =
  class_offset :: nat
  compiled_methods :: "CompiledMethod option list"
  oat_method_offsets_offsets_from_oat_class :: "nat list"
  oat_type :: OatClassType
  oat_status :: int
  method_bitmap_size :: nat
  method_bitmap :: "BitVector option"
  method_offsets :: "OatMethodOffsets list"

record OatDexFile =
  dex_offset :: nat
  dex_file_location_size :: nat
  dex_file_location_data :: string
  dex_file_location_checksum :: nat
  dex_file_offset :: nat
  methods_offsets :: "nat list"

text \<open>A chunk is one object handed to \<^verbatim>\<open>WriteFully\<close> or to \<^verbatim>\<open>UpdateChecksum\<close>.\<close>

datatype chunk =
    HeaderChunk
  | Chars string
  | Bytes "byte list"
  | U32 nat
  | U32s "nat list"
  | StatusChunk int
  | TypeChunk OatClassType
  | Bitmap BitVector nat
  | MethodHeader nat
  | MethodOffsets "OatMethodOffsets list"

fun chunk_size :: "chunk \<Rightarrow> nat" where
  "chunk_size HeaderChunk = sizeof_OatHeader"
| "chunk_size (Chars s) = length s"
| "chunk_size (Bytes bs) = length bs"
| "chunk_size (U32 n) = sizeof_uint32"
| "chunk_size (U32s ns) = sizeof_uint32 * length ns"
| "chunk_size (StatusChunk st) = sizeof_status"
| "chunk_size (TypeChunk t) = sizeof_type"
| "chunk_size (Bitmap bv n) = n"
| "chunk_size (MethodHeader n) = sizeof_OatMethodHeader"
| "chunk_size (MethodOffsets os) = sizeof_OatMethodOffsets * length os"

text \<open>Modelled from the spec: \<^verbatim>\<open>OatHeader\<close> (oat.h, oat.cc) is not among the sources. It
  holds the executable-region start offset, one offset per trampoline kind and the running
  content checksum; \<^verbatim>\<open>UpdateChecksum\<close> folds the given bytes into the checksum, which is
  represented here by the sequence of chunks folded so far.\<close>

record OatHeader =
  executable_offset :: nat
  trampoline_offset :: "Trampoline \<Rightarrow> nat"
  checksum_data :: "chunk list"

definition OatHeader_new :: OatHeader where
  "OatHeader_new = \<lparr> executable_offset = 0, trampoline_offset = (\<lambda>t. 0), checksum_data = [] \<rparr>"

definition UpdateChecksum :: "chunk \<Rightarrow> OatHeader \<Rightarrow> OatHeader" where
  "UpdateChecksum c h = h\<lparr> checksum_data := checksum_data h @ [c] \<rparr>"

definition SetExecutableOffset :: "nat \<Rightarrow> OatHeader \<Rightarrow> OatHeader" where
  "SetExecutableOffset off h = h\<lparr> executable_offset := u32 off \<rparr>"

definition SetTrampolineOffset :: "Trampoline \<Rightarrow> nat \<Rightarrow> OatHeader \<Rightarrow> OatHeader" where
  "SetTrampolineOffset t off h = h\<lparr> trampoline_offset := (trampoline_offset h)(t := u32 off) \<rparr>"

record OatWriter =
  compiler_driver :: CompilerDriver
  dex_files :: "DexFile list"
  image_file_location :: string
  oat_header :: OatHeader
  oat_dex_files :: "OatDexFile list"
  oat_classes :: "OatClass list"
  code_offsets :: "nat \<rightharpoonup> nat"
  gc_map_offsets :: "nat \<rightharpoonup> nat"
  mapping_table_offsets :: "nat \<rightharpoonup> nat"
  vmap_table_offsets :: "nat \<rightharpoonup> nat"
  trampolines :: "Trampoline \<rightharpoonup> byte list"
  oatdata_offsets :: "nat list"
  size_executable_offset_alignment :: nat
  oat_size :: nat

subsection \<open>The method-table traversal\<close>

text \<open>A processor is its state \<open>'s\<close> and the three callbacks; a callback returns the
  C++ \<^verbatim>\<open>bool\<close> with the state it leaves, or ends the process.\<close>

record 's DexMethodProcessor_vtable =
  StartClass :: "DexFile \<Rightarrow> nat \<Rightarrow> 's \<Rightarrow> fatal + bool \<times> 's"
  ProcessMethod :: "nat \<Rightarrow> EncodedMethod \<Rightarrow> 's \<Rightarrow> fatal + bool \<times> 's"
  EndClass :: "'s \<Rightarrow> fatal + bool \<times> 's"

text \<open>One \<^verbatim>\<open>while (it.HasNext...Method())\<close> loop: the state carries
  \<^verbatim>\<open>class_def_method_index\<close>.\<close>

fun method_loop ::
  "'s DexMethodProcessor_vtable \<Rightarrow> EncodedMethod list \<Rightarrow> nat \<times> 's \<Rightarrow> fatal + bool \<times> (nat \<times> 's)" where
  "method_loop P [] (i, s) = Inr (True, (i, s))"
| "method_loop P (m # ms) (i, s) =
     (case ProcessMethod P i m s of
        Inl e \<Rightarrow> Inl e
      | Inr (ok, s') \<Rightarrow> if ok then method_loop P ms (Suc i, s') else Inr (False, (i, s')))"

definition class_methods ::
  "'s DexMethodProcessor_vtable \<Rightarrow> ClassData option \<Rightarrow> 's \<Rightarrow> fatal + bool \<times> 's" where
  "class_methods P class_data s =
     (case class_data of
        None \<Rightarrow> Inr (True, s)
      | Some cd \<Rightarrow>
          (case method_loop P (direct_methods cd) (0, s) of
             Inl e \<Rightarrow> Inl e
           | Inr (ok, (i, s1)) \<Rightarrow>
               if \<not> ok then Inr (False, s1)
               else (case method_loop P (virtual_methods cd) (i, s1) of
                       Inl e \<Rightarrow> Inl e
                     | Inr (ok2, (j, s2)) \<Rightarrow> Inr (ok2, s2))))"

fun class_loop ::
  "'s DexMethodProcessor_vtable \<Rightarrow> DexFile \<Rightarrow> ClassData option list \<Rightarrow> nat \<Rightarrow> 's \<Rightarrow> fatal + bool \<times> 's" where
  "class_loop P dex_file [] class_def_index s = Inr (True, s)"
| "class_loop P dex_file (cd # cds) class_def_index s =
     (case StartClass P dex_file class_def_index s of
        Inl e \<Rightarrow> Inl e
      | Inr (ok, s1) \<Rightarrow>
          if \<not> ok then Inr (False, s1)
          else (case class_methods P cd s1 of
                  Inl e \<Rightarrow> Inl e
                | Inr (ok2, s2) \<Rightarrow>
                    if \<not> ok2 then Inr (False, s2)
                    else (case EndClass P s2 of
                            Inl e \<Rightarrow> Inl e
                          | Inr (ok3, s3) \<Rightarrow>
                              if \<not> ok3 then Inr (False, s3)
                              else class_loop P dex_file cds (Suc class_def_index) s3)))"

fun ProcessDexMethods ::
  "'s DexMethodProcessor_vtable \<Rightarrow> DexFile list \<Rightarrow> 's \<Rightarrow> fatal + bool \<times> 's" where
  "ProcessDexMethods P [] s = Inr (True, s)"
| "ProcessDexMethods P (dex_file # rest) s =
     (case class_loop P dex_file (class_defs dex_file) 0 s of
        Inl e \<Rightarrow> Inl e
      | Inr (ok, s1) \<Rightarrow> if ok then ProcessDexMethods P rest s1 else Inr (False, s1))"


subsection \<open>The processors' state\<close>

text \<open>The fields of \<^verbatim>\<open>DexMethodProcessor\<close>, of its subclass \<^verbatim>\<open>OatDexMethodProcessor\<close>
  and of the processors derived from them. The pointer \<^verbatim>\<open>writer_\<close> is the writer's
  state, which the processor reads and updates.\<close>

record DexMethodProcessor =
  writer :: OatWriter
  offset :: nat
  dex_file :: "DexFile option"
  class_def_index :: nat

record OatDexMethodProcessor = DexMethodProcessor +
  oat_class_index :: nat
  method_offsets_index :: nat

record InitOatClassesMethodProcessor = DexMethodProcessor +
  proc_compiled_methods :: "CompiledMethod option list"
  num_non_null_compiled_methods :: nat

definition DexMethodProcessor_StartClass ::
  "DexFile \<Rightarrow> nat \<Rightarrow> 'a DexMethodProcessor_scheme \<Rightarrow> 'a DexMethodProcessor_scheme" where
  "DexMethodProcessor_StartClass d k s = s\<lparr> dex_file := Some d, class_def_index := k \<rparr>"

definition OatDexMethodProcessor_StartClass ::
  "DexFile \<Rightarrow> nat \<Rightarrow> 'a OatDexMethodProcessor_scheme
     \<Rightarrow> fatal + bool \<times> 'a OatDexMethodProcessor_scheme" where
  "OatDexMethodProcessor_StartClass d k s =
     Inr (True, (DexMethodProcessor_StartClass d k s)\<lparr> method_offsets_index := 0 \<rparr>)"

definition OatDexMethodProcessor_EndClass ::
  "'a OatDexMethodProcessor_scheme \<Rightarrow> fatal + bool \<times> 'a OatDexMethodProcessor_scheme" where
  "OatDexMethodProcessor_EndClass s = Inr (True, s\<lparr> oat_class_index := Suc (oat_class_index s) \<rparr>)"

subsection \<open>Class descriptors\<close>

text \<open>Modelled from the spec: the default constructor of \<^verbatim>\<open>OatMethodOffsets\<close> (oat.cc),
  which \<^verbatim>\<open>method_offsets_.resize\<close> runs, is not among the sources; every field is 0.\<close>

definition OatMethodOffsets_default :: OatMethodOffsets where
  "OatMethodOffsets_default =
     \<lparr> code_offset = 0, frame_size_in_bytes = 0, core_spill_mask = 0, fp_spill_mask = 0,
       mapping_table_offset = 0, vmap_table_offset = 0, gc_map_offset = 0 \<rparr>"

text \<open>The loop at the end of the constructor \<^verbatim>\<open>OatClass::OatClass\<close>; the second argument
  is \<^verbatim>\<open>i\<close>, the third \<^verbatim>\<open>oat_method_offsets_offset_from_oat_class\<close>.\<close>

fun OatClass_loop :: "CompiledMethod option list \<Rightarrow> nat \<Rightarrow> nat \<Rightarrow> OatClass \<Rightarrow> OatClass" where
  "OatClass_loop [] i off c = c"
| "OatClass_loop (None # ms) i off c =
     OatClass_loop ms (Suc i) off
       (c\<lparr> oat_method_offsets_offsets_from_oat_class :=
              (oat_method_offsets_offsets_from_oat_class c)[i := 0] \<rparr>)"
| "OatClass_loop (Some m # ms) i off c =
     OatClass_loop ms (Suc i) (off + sizeof_OatMethodOffsets)
       (c\<lparr> oat_method_offsets_offsets_from_oat_class :=
              (oat_method_offsets_offsets_from_oat_class c)[i := off],
            method_bitmap :=
              (if oat_type c = kOatClassSomeCompiled
               then map_option (SetBit i) (method_bitmap c) else method_bitmap c) \<rparr>)"

definition OatClass_new ::
  "nat \<Rightarrow> CompiledMethod option list \<Rightarrow> nat \<Rightarrow> int \<Rightarrow> fatal + OatClass" where
  "OatClass_new off cms num_non_null st =
     (let num_methods = length cms in
      if \<not> num_non_null \<le> num_methods then Inl CheckFailed
      else
        let ty = (if num_non_null = 0 then kOatClassNoneCompiled
                  else if num_non_null = num_methods then kOatClassAllCompiled
                  else kOatClassSomeCompiled);
            bitmap = (if ty = kOatClassSomeCompiled then Some (BitVector_new num_methods) else None);
            bitmap_size = (case bitmap of None \<Rightarrow> 0 | Some bv \<Rightarrow> GetSizeOf bv);
            first = sizeof_type + sizeof_status
                    + (if ty = kOatClassSomeCompiled then sizeof_uint32 + bitmap_size else 0)
        in Inr (OatClass_loop cms 0 first
             \<lparr> class_offset = off,
               compiled_methods = cms,
               oat_method_offsets_offsets_from_oat_class = replicate num_methods 0,
               oat_type = ty,
               oat_status = st,
               method_bitmap_size = bitmap_size,
               method_bitmap = bitmap,
               method_offsets = replicate num_non_null OatMethodOffsets_default \<rparr>))"

definition GetOatMethodOffsetsOffsetFromOatClass :: "OatClass \<Rightarrow> nat \<Rightarrow> fatal + nat" where
  "GetOatMethodOffsetsOffsetFromOatClass c i =
     (if i < length (oat_method_offsets_offsets_from_oat_class c)
      then Inr (oat_method_offsets_offsets_from_oat_class c ! i) else Inl Undefined)"

definition GetOatMethodOffsetsOffsetFromOatHeader :: "OatClass \<Rightarrow> nat \<Rightarrow> fatal + nat" where
  "GetOatMethodOffsetsOffsetFromOatHeader c i =
     (case GetOatMethodOffsetsOffsetFromOatClass c i of
        Inl e \<Rightarrow> Inl e
      | Inr method_offset \<Rightarrow> if method_offset = 0 then Inr 0 else Inr (class_offset c + method_offset))"

definition OatClass_SizeOf :: "OatClass \<Rightarrow> nat" where
  "OatClass_SizeOf c =
     sizeof_status + sizeof_type
     + (if method_bitmap_size c = 0 then 0 else sizeof_uint32)
     + method_bitmap_size c
     + sizeof_OatMethodOffsets * length (method_offsets c)"

subsection \<open>Pass 1: the processor that builds the class descriptors\<close>

definition InitOatClasses_StartClass ::
  "DexFile \<Rightarrow> nat \<Rightarrow> InitOatClassesMethodProcessor
     \<Rightarrow> fatal + bool \<times> InitOatClassesMethodProcessor" where
  "InitOatClasses_StartClass d k s =
     Inr (True, (DexMethodProcessor_StartClass d k s)
                  \<lparr> proc_compiled_methods := [], num_non_null_compiled_methods := 0 \<rparr>)"

definition InitOatClasses_ProcessMethod ::
  "nat \<Rightarrow> EncodedMethod \<Rightarrow> InitOatClassesMethodProcessor
     \<Rightarrow> fatal + bool \<times> InitOatClassesMethodProcessor" where
  "InitOatClasses_ProcessMethod class_def_method_index it s =
     (case dex_file s of
        None \<Rightarrow> Inl Undefined
      | Some d \<Rightarrow>
          let method_idx = GetMemberIndex it;
              compiled_method = GetCompiledMethod (compiler_driver (writer s)) (dex_id d, method_idx)
          in Inr (True, s\<lparr> proc_compiled_methods := proc_compiled_methods s @ [compiled_method],
                           num_non_null_compiled_methods :=
                             (if compiled_method \<noteq> None then Suc (num_non_null_compiled_methods s)
                              else num_non_null_compiled_methods s) \<rparr>))"

definition InitOatClasses_EndClass ::
  "InitOatClassesMethodProcessor \<Rightarrow> fatal + bool \<times> InitOatClassesMethodProcessor" where
  "InitOatClasses_EndClass s =
     (case dex_file s of
        None \<Rightarrow> Inl Undefined
      | Some d \<Rightarrow>
          let class_ref = (dex_id d, class_def_index s);
              driver = compiler_driver (writer s);
              st = (case GetCompiledClass driver class_ref of
                      Some compiled_status \<Rightarrow> compiled_status
                    | None \<Rightarrow> if IsClassRejected driver class_ref then kStatusError
                               else kStatusNotReady)
          in (case OatClass_new (offset s) (proc_compiled_methods s)
                     (num_non_null_compiled_methods s) st of
                Inl e \<Rightarrow> Inl e
              | Inr oat_class \<Rightarrow>
                  Inr (True, s\<lparr> writer := (writer s)\<lparr> oat_classes := oat_classes (writer s) @ [oat_class] \<rparr>,
                                   offset := offset s + OatClass_SizeOf oat_class \<rparr>)))"

definition InitOatClassesMethodProcessor_vtable ::
  "InitOatClassesMethodProcessor DexMethodProcessor_vtable" where
  "InitOatClassesMethodProcessor_vtable =
     \<lparr> StartClass = InitOatClasses_StartClass,
       ProcessMethod = InitOatClasses_ProcessMethod,
       EndClass = InitOatClasses_EndClass \<rparr>"


subsection \<open>Pass 1: code offsets\<close>

definition OatDexMethodProcessor_new :: "OatWriter \<Rightarrow> nat \<Rightarrow> OatDexMethodProcessor" where
  "OatDexMethodProcessor_new w off =
     \<lparr> writer = w, offset = off, dex_file = None, class_def_index = 0,
       oat_class_index = 0, method_offsets_index = 0 \<rparr>"

text \<open>\<^verbatim>\<open>OFFSETOF_MEMBER(OatMethodOffsets, code_offset_)\<close>: the first member.\<close>

definition offsetof_code_offset :: nat where "offsetof_code_offset = 0"

text \<open>The part of \<^verbatim>\<open>InitCodeMethodProcessor::ProcessMethod\<close> that decides
  \<^verbatim>\<open>quick_code_offset\<close>: the result is that offset with the processor's new state.
  \<^verbatim>\<open>AddOatdataOffsetToCompliledCodeOffset\<close> appends to a list kept by the compiled
  method; the writer's field \<open>oatdata_offsets\<close> collects these calls.\<close>

definition InitCode_quick_code_offset ::
  "OatClass \<Rightarrow> nat \<Rightarrow> CompiledMethod \<Rightarrow> OatDexMethodProcessor
     \<Rightarrow> fatal + nat \<times> OatDexMethodProcessor" where
  "InitCode_quick_code_offset oat_class class_def_method_index compiled_method s =
     (let w = writer s in
      case GetPortableCode compiled_method of
        Some portable_code \<Rightarrow>
          if GetQuickCode compiled_method \<noteq> None then Inl CheckFailed
          else (case GetOatMethodOffsetsOffsetFromOatHeader oat_class class_def_method_index of
                  Inl e \<Rightarrow> Inl e
                | Inr oat_method_offsets_offset \<Rightarrow>
                    Inr (0, s\<lparr> writer := w\<lparr> oatdata_offsets := oatdata_offsets w @
                                     [oat_method_offsets_offset + offsetof_code_offset] \<rparr> \<rparr>))
      | None \<Rightarrow>
          (case GetQuickCode compiled_method of
             None \<Rightarrow> Inl CheckFailed
           | Some quick_code \<Rightarrow>
               (case AlignCode (offset s) (GetInstructionSet compiled_method) of
                  Inl e \<Rightarrow> Inl e
                | Inr aligned \<Rightarrow>
                    let code = vector_at (compiler_driver w) quick_code;
                        code_size = u32 (length code)
                    in if code_size = 0 then Inl CheckFailed
                       else
                         let thumb_offset = CodeDelta (GetInstructionSet compiled_method);
                             quick_code_offset = u32 (aligned + sizeof_OatMethodHeader + thumb_offset)
                         in (case code_offsets w quick_code of
                               Some found \<Rightarrow> Inr (found, s\<lparr> offset := aligned \<rparr>)
                             | None \<Rightarrow>
                                 Inr (quick_code_offset,
                                      s\<lparr> writer := w\<lparr> code_offsets := (code_offsets w)(quick_code \<mapsto> quick_code_offset),
                                                       oat_header := UpdateChecksum (Bytes (take code_size code))
                                                                       (UpdateChecksum (MethodHeader code_size) (oat_header w)) \<rparr>,
                                         offset := aligned + sizeof_OatMethodHeader + code_size \<rparr>)))))"

definition InitCode_ProcessMethod ::
  "nat \<Rightarrow> EncodedMethod \<Rightarrow> OatDexMethodProcessor \<Rightarrow> fatal + bool \<times> OatDexMethodProcessor" where
  "InitCode_ProcessMethod class_def_method_index it s =
     (if \<not> oat_class_index s < length (oat_classes (writer s)) then Inl Undefined
      else
        let oat_class = oat_classes (writer s) ! oat_class_index s in
        if \<not> class_def_method_index < length (compiled_methods oat_class) then Inl Undefined
        else
          case compiled_methods oat_class ! class_def_method_index of
            None \<Rightarrow> Inr (True, s)
          | Some compiled_method \<Rightarrow>
              (case InitCode_quick_code_offset oat_class class_def_method_index compiled_method s of
                 Inl e \<Rightarrow> Inl e
               | Inr (quick_code_offset, s1) \<Rightarrow>
                   if \<not> method_offsets_index s1 < length (method_offsets oat_class) then Inl Undefined
                   else
                     let offsets =
                           \<lparr> code_offset = quick_code_offset,
                             frame_size_in_bytes = u32 (GetFrameSizeInBytes compiled_method),
                             core_spill_mask = u32 (GetCoreSpillMask compiled_method),
                             fp_spill_mask = u32 (GetFpSpillMask compiled_method),
                             mapping_table_offset = 0,
                             vmap_table_offset = 0,
                             gc_map_offset = 0 \<rparr>;
                         oat_class1 = oat_class\<lparr> method_offsets :=
                                        (method_offsets oat_class)[method_offsets_index s1 := offsets] \<rparr>
                     in Inr (True,
                          s1\<lparr> writer := (writer s1)\<lparr> oat_classes :=
                                           (oat_classes (writer s1))[oat_class_index s1 := oat_class1] \<rparr>,
                              method_offsets_index := Suc (method_offsets_index s1) \<rparr>)))"

definition InitCodeMethodProcessor_vtable :: "OatDexMethodProcessor DexMethodProcessor_vtable" where
  "InitCodeMethodProcessor_vtable =
     \<lparr> StartClass = OatDexMethodProcessor_StartClass,
       ProcessMethod = InitCode_ProcessMethod,
       EndClass = OatDexMethodProcessor_EndClass \<rparr>"

subsection \<open>Pass 1: side-table offsets\<close>

text \<open>A map binder selects one side-table kind: the compiled method's blob, the field of
  the per-method offset record, and the writer's deduplication map of that kind.
  \<open>PutDedupeMap\<close> is \<^verbatim>\<open>Put\<close> through the pointer that \<^verbatim>\<open>GetDedupeMap\<close> returns.\<close>

record MapBinder =
  GetMap :: "CompiledMethod \<Rightarrow> nat"
  GetOffset :: "OatClass \<Rightarrow> nat \<Rightarrow> nat"
  SetOffset :: "OatClass \<Rightarrow> nat \<Rightarrow> nat \<Rightarrow> OatClass"
  GetDedupeMap :: "OatWriter \<Rightarrow> nat \<rightharpoonup> nat"
  PutDedupeMap :: "nat \<Rightarrow> nat \<Rightarrow> OatWriter \<Rightarrow> OatWriter"
  MapName :: string

definition GcMapBinder :: MapBinder where
  "GcMapBinder =
     \<lparr> GetMap = GetGcMap,
       GetOffset = (\<lambda>oat_class i. gc_map_offset (method_offsets oat_class ! i)),
       SetOffset = (\<lambda>oat_class i off. oat_class\<lparr> method_offsets :=
                      (method_offsets oat_class)[i := (method_offsets oat_class ! i)\<lparr> gc_map_offset := u32 off \<rparr>] \<rparr>),
       GetDedupeMap = gc_map_offsets,
       PutDedupeMap = (\<lambda>k v w. w\<lparr> gc_map_offsets := (gc_map_offsets w)(k \<mapsto> v) \<rparr>),
       MapName = ''GC map'' \<rparr>"

definition MappingTableBinder :: MapBinder where
  "MappingTableBinder =
     \<lparr> GetMap = GetMappingTable,
       GetOffset = (\<lambda>oat_class i. mapping_table_offset (method_offsets oat_class ! i)),
       SetOffset = (\<lambda>oat_class i off. oat_class\<lparr> method_offsets :=
                      (method_offsets oat_class)[i := (method_offsets oat_class ! i)\<lparr> mapping_table_offset := u32 off \<rparr>] \<rparr>),
       GetDedupeMap = mapping_table_offsets,
       PutDedupeMap = (\<lambda>k v w. w\<lparr> mapping_table_offsets := (mapping_table_offsets w)(k \<mapsto> v) \<rparr>),
       MapName = ''mapping table'' \<rparr>"

definition VmapTableBinder :: MapBinder where
  "VmapTableBinder =
     \<lparr> GetMap = GetVmapTable,
       GetOffset = (\<lambda>oat_class i. vmap_table_offset (method_offsets oat_class ! i)),
       SetOffset = (\<lambda>oat_class i off. oat_class\<lparr> method_offsets :=
                      (method_offsets oat_class)[i := (method_offsets oat_class ! i)\<lparr> vmap_table_offset := u32 off \<rparr>] \<rparr>),
       GetDedupeMap = vmap_table_offsets,
       PutDedupeMap = (\<lambda>k v w. w\<lparr> vmap_table_offsets := (vmap_table_offsets w)(k \<mapsto> v) \<rparr>),
       MapName = ''vmap table'' \<rparr>"

definition InitMap_ProcessMethod ::
  "MapBinder \<Rightarrow> nat \<Rightarrow> EncodedMethod \<Rightarrow> OatDexMethodProcessor
     \<Rightarrow> fatal + bool \<times> OatDexMethodProcessor" where
  "InitMap_ProcessMethod B class_def_method_index it s =
     (if \<not> oat_class_index s < length (oat_classes (writer s)) then Inl Undefined
      else
        let oat_class = oat_classes (writer s) ! oat_class_index s in
        if \<not> class_def_method_index < length (compiled_methods oat_class) then Inl Undefined
        else
          case compiled_methods oat_class ! class_def_method_index of
            None \<Rightarrow> Inr (True, s)
          | Some compiled_method \<Rightarrow>
              let map = GetMap B compiled_method;
                  map_bytes = vector_at (compiler_driver (writer s)) map;
                  map_size = u32 (length map_bytes)
              in if map_size \<noteq> 0 then
                   if \<not> method_offsets_index s < length (method_offsets oat_class) then Inl Undefined
                   else
                     (case GetDedupeMap B (writer s) map of
                        Some found \<Rightarrow>
                          Inr (True,
                            s\<lparr> writer := (writer s)\<lparr> oat_classes := (oat_classes (writer s))
                                   [oat_class_index s := SetOffset B oat_class (method_offsets_index s) found] \<rparr>,
                               method_offsets_index := Suc (method_offsets_index s) \<rparr>)
                      | None \<Rightarrow>
                          let w1 = (writer s)\<lparr> oat_classes := (oat_classes (writer s))
                                     [oat_class_index s := SetOffset B oat_class (method_offsets_index s) (offset s)] \<rparr>;
                              w2 = PutDedupeMap B map (u32 (offset s)) w1;
                              w3 = w2\<lparr> oat_header := UpdateChecksum (Bytes (take map_size map_bytes)) (oat_header w2) \<rparr>
                          in Inr (True,
                               s\<lparr> writer := w3, offset := offset s + map_size,
                                  method_offsets_index := Suc (method_offsets_index s) \<rparr>))
                 else Inr (True, s\<lparr> method_offsets_index := Suc (method_offsets_index s) \<rparr>))"

definition InitMapMethodProcessor_vtable ::
  "MapBinder \<Rightarrow> OatDexMethodProcessor DexMethodProcessor_vtable" where
  "InitMapMethodProcessor_vtable B =
     \<lparr> StartClass = OatDexMethodProcessor_StartClass,
       ProcessMethod = InitMap_ProcessMethod B,
       EndClass = OatDexMethodProcessor_EndClass \<rparr>"

subsection \<open>Pass 1: the six layout steps of the constructor\<close>

definition OatDexFile_new :: "nat \<Rightarrow> DexFile \<Rightarrow> OatDexFile" where
  "OatDexFile_new off d =
     \<lparr> dex_offset = off,
       dex_file_location_size = u32 (length (GetLocation d)),
       dex_file_location_data = GetLocation d,
       dex_file_location_checksum = GetLocationChecksum d,
       dex_file_offset = 0,
       methods_offsets = replicate (length (class_defs d)) 0 \<rparr>"

definition OatDexFile_SizeOf :: "OatDexFile \<Rightarrow> nat" where
  "OatDexFile_SizeOf odf =
     sizeof_uint32 + dex_file_location_size odf + sizeof_uint32 + sizeof_uint32
     + sizeof_uint32 * length (methods_offsets odf)"

definition OatDexFile_UpdateChecksum :: "OatDexFile \<Rightarrow> OatHeader \<Rightarrow> OatHeader" where
  "OatDexFile_UpdateChecksum odf h =
     UpdateChecksum (U32s (methods_offsets odf))
       (UpdateChecksum (U32 (dex_file_offset odf))
         (UpdateChecksum (U32 (dex_file_location_checksum odf))
           (UpdateChecksum (Chars (take (dex_file_location_size odf) (dex_file_location_data odf)))
             (UpdateChecksum (U32 (dex_file_location_size odf)) h))))"

definition InitOatHeader :: "OatWriter \<Rightarrow> nat \<times> OatWriter" where
  "InitOatHeader w =
     (sizeof_OatHeader + length (image_file_location w), w\<lparr> oat_header := OatHeader_new \<rparr>)"

fun InitOatDexFiles_loop :: "DexFile list \<Rightarrow> nat \<times> OatWriter \<Rightarrow> nat \<times> OatWriter" where
  "InitOatDexFiles_loop [] (off, w) = (off, w)"
| "InitOatDexFiles_loop (d # ds) (off, w) =
     (let oat_dex_file = OatDexFile_new off d
      in InitOatDexFiles_loop ds
           (off + OatDexFile_SizeOf oat_dex_file,
            w\<lparr> oat_dex_files := oat_dex_files w @ [oat_dex_file] \<rparr>))"

definition InitOatDexFiles :: "nat \<Rightarrow> OatWriter \<Rightarrow> nat \<times> OatWriter" where
  "InitOatDexFiles off w = InitOatDexFiles_loop (dex_files w) (off, w)"

text \<open>The loop of \<^verbatim>\<open>InitDexFiles\<close>; the second argument is \<^verbatim>\<open>i\<close>.\<close>

fun InitDexFiles_loop :: "DexFile list \<Rightarrow> nat \<Rightarrow> nat \<times> OatWriter \<Rightarrow> fatal + nat \<times> OatWriter" where
  "InitDexFiles_loop [] i (off, w) = Inr (off, w)"
| "InitDexFiles_loop (d # ds) i (off, w) =
     (let off1 = RoundUp off 4 in
      if \<not> i < length (oat_dex_files w) then Inl Undefined
      else InitDexFiles_loop ds (Suc i)
             (off1 + length (dex_data d),
              w\<lparr> oat_dex_files := (oat_dex_files w)
                    [i := (oat_dex_files w ! i)\<lparr> dex_file_offset := u32 off1 \<rparr>] \<rparr>))"

definition InitDexFiles :: "nat \<Rightarrow> OatWriter \<Rightarrow> fatal + nat \<times> OatWriter" where
  "InitDexFiles off w = InitDexFiles_loop (dex_files w) 0 (off, w)"

text \<open>The loop of \<^verbatim>\<open>InitOatClasses\<close> that copies the class descriptors' offsets into the
  module descriptors and folds each module descriptor into the checksum; the second
  argument is what \<^verbatim>\<open>oat_class_it\<close> still has to visit.\<close>

fun InitOatClasses_update ::
  "OatDexFile list \<Rightarrow> OatClass list \<Rightarrow> OatHeader
     \<Rightarrow> fatal + OatDexFile list \<times> OatClass list \<times> OatHeader" where
  "InitOatClasses_update [] cs h = Inr ([], cs, h)"
| "InitOatClasses_update (odf # rest) cs h =
     (let n = length (methods_offsets odf) in
      if length cs < n then Inl Undefined
      else
        let odf1 = odf\<lparr> methods_offsets := map (\<lambda>c. u32 (class_offset c)) (take n cs) \<rparr>;
            h1 = OatDexFile_UpdateChecksum odf1 h
        in (case InitOatClasses_update rest (drop n cs) h1 of
              Inl e \<Rightarrow> Inl e
            | Inr (rest1, cs1, h2) \<Rightarrow> Inr (odf1 # rest1, cs1, h2)))"

definition InitOatClasses :: "nat \<Rightarrow> OatWriter \<Rightarrow> fatal + nat \<times> OatWriter" where
  "InitOatClasses off w =
     (case ProcessDexMethods InitOatClassesMethodProcessor_vtable (dex_files w)
             \<lparr> writer = w, offset = off, dex_file = None, class_def_index = 0,
               proc_compiled_methods = [], num_non_null_compiled_methods = 0 \<rparr> of
        Inl e \<Rightarrow> Inl e
      | Inr (success, processor) \<Rightarrow>
          if \<not> success then Inl CheckFailed
          else
            let w1 = writer processor in
            (case InitOatClasses_update (oat_dex_files w1) (oat_classes w1) (oat_header w1) of
               Inl e \<Rightarrow> Inl e
             | Inr (odfs, remaining, h) \<Rightarrow>
                 if remaining \<noteq> [] then Inl CheckFailed
                 else Inr (offset processor, w1\<lparr> oat_dex_files := odfs, oat_header := h \<rparr>)))"

text \<open>The trampolines in the order of the \<^verbatim>\<open>DO_TRAMPOLINE\<close> lines.\<close>

definition all_trampolines :: "Trampoline list" where
  "all_trampolines =
     [InterpreterToInterpreterBridge, InterpreterToCompiledCodeBridge, JniDlsymLookup,
      PortableImtConflictTrampoline, PortableResolutionTrampoline, PortableToInterpreterBridge,
      QuickGenericJniTrampoline, QuickImtConflictTrampoline, QuickResolutionTrampoline,
      QuickToInterpreterBridge]"

text \<open>One expansion of \<^verbatim>\<open>DO_TRAMPOLINE\<close> in \<^verbatim>\<open>InitOatCode\<close>, and their sequence.\<close>

fun InitOatCode_trampolines ::
  "Trampoline list \<Rightarrow> InstructionSet \<Rightarrow> nat \<times> OatWriter \<Rightarrow> fatal + nat \<times> OatWriter" where
  "InitOatCode_trampolines [] isa (off, w) = Inr (off, w)"
| "InitOatCode_trampolines (t # ts) isa (off, w) =
     (case AlignCode off isa of
        Inl e \<Rightarrow> Inl e
      | Inr off1 \<Rightarrow>
          let field = CreateTrampoline (compiler_driver w) t
          in InitOatCode_trampolines ts isa
               (off1 + length field,
                w\<lparr> oat_header := SetTrampolineOffset t off1 (oat_header w),
                   trampolines := (trampolines w)(t \<mapsto> field) \<rparr>))"

fun clear_trampoline_offsets :: "Trampoline list \<Rightarrow> OatHeader \<Rightarrow> OatHeader" where
  "clear_trampoline_offsets [] h = h"
| "clear_trampoline_offsets (t # ts) h = clear_trampoline_offsets ts (SetTrampolineOffset t 0 h)"

definition InitOatCode :: "nat \<Rightarrow> OatWriter \<Rightarrow> fatal + nat \<times> OatWriter" where
  "InitOatCode old_offset w =
     (let off = RoundUp old_offset kPageSize;
          w1 = w\<lparr> oat_header := SetExecutableOffset off (oat_header w),
                  size_executable_offset_alignment := off - old_offset \<rparr>
      in if IsImage (compiler_driver w1)
         then InitOatCode_trampolines all_trampolines (driver_GetInstructionSet (compiler_driver w1)) (off, w1)
         else Inr (off, w1\<lparr> oat_header := clear_trampoline_offsets all_trampolines (oat_header w1) \<rparr>))"

text \<open>One expansion of \<^verbatim>\<open>PROCESS\<close> in \<^verbatim>\<open>InitOatCodeDexFiles\<close>: in the release build
  \<^verbatim>\<open>DCHECK(success)\<close> is empty and the processor's offset is taken whatever it returned.\<close>

definition InitOatCodeDexFiles_PROCESS ::
  "OatDexMethodProcessor DexMethodProcessor_vtable \<Rightarrow> nat \<times> OatWriter \<Rightarrow> fatal + nat \<times> OatWriter" where
  "InitOatCodeDexFiles_PROCESS P ow =
     (case ProcessDexMethods P (dex_files (snd ow)) (OatDexMethodProcessor_new (snd ow) (fst ow)) of
        Inl e \<Rightarrow> Inl e
      | Inr (success, processor) \<Rightarrow> Inr (offset processor, writer processor))"

definition InitOatCodeDexFiles :: "nat \<Rightarrow> OatWriter \<Rightarrow> fatal + nat \<times> OatWriter" where
  "InitOatCodeDexFiles off w =
     (case InitOatCodeDexFiles_PROCESS InitCodeMethodProcessor_vtable (off, w) of
        Inl e \<Rightarrow> Inl e
      | Inr ow1 \<Rightarrow>
     (case InitOatCodeDexFiles_PROCESS (InitMapMethodProcessor_vtable GcMapBinder) ow1 of
        Inl e \<Rightarrow> Inl e
      | Inr ow2 \<Rightarrow>
     (case InitOatCodeDexFiles_PROCESS (InitMapMethodProcessor_vtable MappingTableBinder) ow2 of
        Inl e \<Rightarrow> Inl e
      | Inr ow3 \<Rightarrow>
          InitOatCodeDexFiles_PROCESS (InitMapMethodProcessor_vtable VmapTableBinder) ow3)))"

text \<open>The constructor \<^verbatim>\<open>OatWriter::OatWriter\<close>.\<close>

definition OatWriter_new :: "DexFile list \<Rightarrow> string \<Rightarrow> CompilerDriver \<Rightarrow> fatal + OatWriter" where
  "OatWriter_new dfs location compiler =
     (let w0 = \<lparr> compiler_driver = compiler, dex_files = dfs, image_file_location = location,
                 oat_header = OatHeader_new, oat_dex_files = [], oat_classes = [],
                 code_offsets = Map.empty, gc_map_offsets = Map.empty,
                 mapping_table_offsets = Map.empty, vmap_table_offsets = Map.empty,
                 trampolines = Map.empty, oatdata_offsets = [],
                 size_executable_offset_alignment = 0, oat_size = 0 \<rparr>;
          (off1, w1) = InitOatHeader w0;
          (off2, w2) = InitOatDexFiles off1 w1
      in case InitDexFiles off2 w2 of
           Inl e \<Rightarrow> Inl e
         | Inr (off3, w3) \<Rightarrow>
        (case InitOatClasses off3 w3 of
           Inl e \<Rightarrow> Inl e
         | Inr (off4, w4) \<Rightarrow>
        (case InitOatCode off4 w4 of
           Inl e \<Rightarrow> Inl e
         | Inr (off5, w5) \<Rightarrow>
        (case InitOatCodeDexFiles off5 w5 of
           Inl e \<Rightarrow> Inl e
         | Inr (off6, w6) \<Rightarrow>
             if length (dex_files w6) \<noteq> length (oat_dex_files w6) then Inl CheckFailed
             else if (location = []) \<noteq> IsImage compiler then Inl CheckFailed
             else Inr (w6\<lparr> oat_size := off6 \<rparr>)))))"


subsection \<open>The output stream\<close>

text \<open>Modelled from the spec: \<^verbatim>\<open>OutputStream\<close> (output_stream.h) is not among the sources.
  It is an abstract sink with \<^verbatim>\<open>WriteFully\<close> and \<^verbatim>\<open>Seek\<close> that tracks its own position.
  The model keeps the position, the writes made so far (each with the position it went to)
  and a capacity: a write that would pass the capacity fails and leaves the stream as it
  was. A seek moves the position and returns it.\<close>

record OutputStream =
  position :: nat
  written :: "(nat \<times> chunk) list"
  capacity :: nat

datatype Whence = kSeekSet | kSeekCurrent

definition WriteFully :: "chunk \<Rightarrow> OutputStream \<Rightarrow> bool \<times> OutputStream" where
  "WriteFully c out =
     (if position out + chunk_size c \<le> capacity out
      then (True, out\<lparr> written := written out @ [(position out, c)],
                       position := position out + chunk_size c \<rparr>)
      else (False, out))"

fun Seek :: "nat \<Rightarrow> Whence \<Rightarrow> OutputStream \<Rightarrow> nat \<times> OutputStream" where
  "Seek off kSeekSet out = (off, out\<lparr> position := off \<rparr>)"
| "Seek off kSeekCurrent out = (position out + off, out\<lparr> position := position out + off \<rparr>)"

text \<open>A further \<^verbatim>\<open>WriteFully\<close> after a sequence that has not failed.\<close>

definition then_write :: "bool \<times> OutputStream \<Rightarrow> chunk \<Rightarrow> bool \<times> OutputStream" where
  "then_write r c = (if fst r then WriteFully c (snd r) else r)"

subsection \<open>Pass 2: the tables\<close>

definition OatDexFile_Write :: "OatDexFile \<Rightarrow> OutputStream \<Rightarrow> bool \<times> OutputStream" where
  "OatDexFile_Write odf out =
     then_write
       (then_write
         (then_write
           (then_write
             (WriteFully (U32 (dex_file_location_size odf)) out)
             (Chars (take (dex_file_location_size odf) (dex_file_location_data odf))))
           (U32 (dex_file_location_checksum odf)))
         (U32 (dex_file_offset odf)))
       (U32s (methods_offsets odf))"

definition OatClass_Write :: "OatClass \<Rightarrow> OutputStream \<Rightarrow> fatal + bool \<times> OutputStream" where
  "OatClass_Write c out =
     (let r1 = then_write (WriteFully (StatusChunk (oat_status c)) out) (TypeChunk (oat_type c)) in
      if \<not> fst r1 then Inr r1
      else if method_bitmap_size c \<noteq> 0 then
        if oat_type c \<noteq> kOatClassSomeCompiled then Inl CheckFailed
        else (case method_bitmap c of
                None \<Rightarrow> Inl Undefined
              | Some bv \<Rightarrow>
                  Inr (then_write
                        (then_write (then_write r1 (U32 (method_bitmap_size c)))
                                    (Bitmap bv (method_bitmap_size c)))
                        (MethodOffsets (method_offsets c))))
      else Inr (then_write r1 (MethodOffsets (method_offsets c))))"

fun WriteTables_oat_dex_files :: "OatDexFile list \<Rightarrow> OutputStream \<Rightarrow> bool \<times> OutputStream" where
  "WriteTables_oat_dex_files [] out = (True, out)"
| "WriteTables_oat_dex_files (odf # rest) out =
     (case OatDexFile_Write odf out of
        (ok, out1) \<Rightarrow> if ok then WriteTables_oat_dex_files rest out1 else (False, out1))"

text \<open>The second loop of \<^verbatim>\<open>WriteTables\<close>; the third argument is \<^verbatim>\<open>i\<close>.\<close>

fun WriteTables_dex_files ::
  "OatWriter \<Rightarrow> OatDexFile list \<Rightarrow> nat \<Rightarrow> nat \<Rightarrow> OutputStream \<Rightarrow> fatal + bool \<times> OutputStream" where
  "WriteTables_dex_files w [] i file_off out = Inr (True, out)"
| "WriteTables_dex_files w (odf # rest) i file_off out =
     (let expected_offset = u32 (file_off + dex_file_offset odf) in
      case Seek expected_offset kSeekSet out of
        (actual_offset, out1) \<Rightarrow>
          if u32 actual_offset \<noteq> expected_offset then Inr (False, out1)
          else if \<not> i < length (dex_files w) then Inl Undefined
          else (case WriteFully (Bytes (dex_data (dex_files w ! i))) out1 of
                  (ok, out2) \<Rightarrow>
                    if ok then WriteTables_dex_files w rest (Suc i) file_off out2
                    else Inr (False, out2)))"

fun WriteTables_oat_classes :: "OatClass list \<Rightarrow> OutputStream \<Rightarrow> fatal + bool \<times> OutputStream" where
  "WriteTables_oat_classes [] out = Inr (True, out)"
| "WriteTables_oat_classes (c # rest) out =
     (case OatClass_Write c out of
        Inl e \<Rightarrow> Inl e
      | Inr (ok, out1) \<Rightarrow> if ok then WriteTables_oat_classes rest out1 else Inr (False, out1))"

definition WriteTables :: "OatWriter \<Rightarrow> OutputStream \<Rightarrow> nat \<Rightarrow> fatal + bool \<times> OutputStream" where
  "WriteTables w out file_off =
     (case WriteTables_oat_dex_files (oat_dex_files w) out of
        (ok1, out1) \<Rightarrow>
          if \<not> ok1 then Inr (False, out1)
          else (case WriteTables_dex_files w (oat_dex_files w) 0 file_off out1 of
                  Inl e \<Rightarrow> Inl e
                | Inr (ok2, out2) \<Rightarrow>
                    if \<not> ok2 then Inr (False, out2)
                    else WriteTables_oat_classes (oat_classes w) out2))"

subsection \<open>Pass 2: the executable region\<close>

text \<open>One expansion of \<^verbatim>\<open>DO_TRAMPOLINE\<close> in \<^verbatim>\<open>WriteCode\<close>, and their sequence; a
  failed write returns the relative offset 0. The padding is computed in 32 bits from the
  truncated aligned offset, which gives the difference reduced modulo \<open>2^32\<close>.\<close>

fun WriteCode_trampolines ::
  "OatWriter \<Rightarrow> Trampoline list \<Rightarrow> InstructionSet \<Rightarrow> nat \<times> OutputStream
     \<Rightarrow> fatal + nat \<times> OutputStream" where
  "WriteCode_trampolines w [] isa (relative_offset, out) = Inr (relative_offset, out)"
| "WriteCode_trampolines w (t # ts) isa (relative_offset, out) =
     (case AlignCode relative_offset isa of
        Inl e \<Rightarrow> Inl e
      | Inr aligned_offset \<Rightarrow>
          let alignment_padding = u32 (aligned_offset - relative_offset) in
          case Seek alignment_padding kSeekCurrent out of
            (pos, out1) \<Rightarrow>
              (case trampolines w t of
                 None \<Rightarrow> Inl Undefined
               | Some field \<Rightarrow>
                   (case WriteFully (Bytes field) out1 of
                      (ok, out2) \<Rightarrow>
                        if \<not> ok then Inr (0, out2)
                        else WriteCode_trampolines w ts isa
                               (relative_offset + alignment_padding + length field, out2))))"

definition WriteCode :: "OatWriter \<Rightarrow> OutputStream \<Rightarrow> nat \<Rightarrow> fatal + nat \<times> OutputStream" where
  "WriteCode w out file_off =
     (let relative_offset = executable_offset (oat_header w) in
      case Seek (size_executable_offset_alignment w) kSeekCurrent out of
        (new_offset, out1) \<Rightarrow>
          let expected_file_offset = file_off + relative_offset in
          if u32 new_offset \<noteq> expected_file_offset then Inr (0, out1)
          else if IsImage (compiler_driver w)
          then WriteCode_trampolines w all_trampolines
                 (driver_GetInstructionSet (compiler_driver w)) (relative_offset, out1)
          else Inr (relative_offset, out1))"

subsection \<open>Pass 2: code and side tables\<close>

record WriteMethodProcessor = OatDexMethodProcessor +
  out :: OutputStream
  file_offset :: nat

definition WriteMethodProcessor_new ::
  "OatWriter \<Rightarrow> OutputStream \<Rightarrow> nat \<Rightarrow> nat \<Rightarrow> WriteMethodProcessor" where
  "WriteMethodProcessor_new w os file_off relative_offset =
     \<lparr> writer = w, offset = relative_offset, dex_file = None, class_def_index = 0,
       oat_class_index = 0, method_offsets_index = 0, out = os, file_offset = file_off \<rparr>"

definition kPadding :: "byte list" where
  "kPadding = replicate 16 0"

text \<open>The alignment padding of \<^verbatim>\<open>WriteCodeMethodProcessor::ProcessMethod\<close>.\<close>

definition WriteCode_padding ::
  "nat \<Rightarrow> WriteMethodProcessor \<Rightarrow> fatal + bool \<times> WriteMethodProcessor" where
  "WriteCode_padding aligned_code_delta s =
     (if aligned_code_delta \<noteq> 0 then
        if length kPadding < aligned_code_delta then Inl Undefined
        else (case WriteFully (Bytes (take aligned_code_delta kPadding)) (out s) of
                (ok, out1) \<Rightarrow>
                  if \<not> ok then Inr (False, s\<lparr> out := out1 \<rparr>)
                  else Inr (True, s\<lparr> out := out1, offset := offset s + aligned_code_delta \<rparr>))
      else Inr (True, s))"

text \<open>The method header and the code, written when the recorded code offset is not below
  the cursor.\<close>

definition WriteCode_header_and_code ::
  "OatMethodOffsets \<Rightarrow> nat \<Rightarrow> byte list \<Rightarrow> WriteMethodProcessor \<Rightarrow> bool \<times> WriteMethodProcessor" where
  "WriteCode_header_and_code method_offsets_rec code_size code s =
     (if code_offset method_offsets_rec \<ge> offset s then
        (case WriteFully (MethodHeader code_size) (out s) of
           (ok, out1) \<Rightarrow>
             if \<not> ok then (False, s\<lparr> out := out1 \<rparr>)
             else
               let s1 = s\<lparr> out := out1, offset := offset s + sizeof_OatMethodHeader \<rparr> in
               (case WriteFully (Bytes (take code_size code)) (out s1) of
                  (ok2, out2) \<Rightarrow>
                    if \<not> ok2 then (False, s1\<lparr> out := out2 \<rparr>)
                    else (True, s1\<lparr> out := out2, offset := offset s1 + code_size \<rparr>)))
      else (True, s))"

definition WriteCode_ProcessMethod ::
  "nat \<Rightarrow> EncodedMethod \<Rightarrow> WriteMethodProcessor \<Rightarrow> fatal + bool \<times> WriteMethodProcessor" where
  "WriteCode_ProcessMethod class_def_method_index it s =
     (if \<not> oat_class_index s < length (oat_classes (writer s)) then Inl Undefined
      else
        let oat_class = oat_classes (writer s) ! oat_class_index s in
        if \<not> class_def_method_index < length (compiled_methods oat_class) then Inl Undefined
        else
          case compiled_methods oat_class ! class_def_method_index of
            None \<Rightarrow> Inr (True, s)
          | Some compiled_method \<Rightarrow>
              (case GetQuickCode compiled_method of
                 None \<Rightarrow> Inr (True, s\<lparr> method_offsets_index := Suc (method_offsets_index s) \<rparr>)
               | Some quick_code \<Rightarrow>
                   if GetPortableCode compiled_method \<noteq> None then Inl CheckFailed
                   else
                     (case AlignCode (offset s) (GetInstructionSet compiled_method) of
                        Inl e \<Rightarrow> Inl e
                      | Inr aligned_offset \<Rightarrow>
                          (case WriteCode_padding (u32 (aligned_offset - offset s)) s of
                             Inl e \<Rightarrow> Inl e
                           | Inr (ok, s1) \<Rightarrow>
                               if \<not> ok then Inr (False, s1)
                               else
                                 let code = vector_at (compiler_driver (writer s)) quick_code;
                                     code_size = u32 (length code)
                                 in if code_size = 0 then Inl CheckFailed
                                    else if \<not> method_offsets_index s1 < length (method_offsets oat_class)
                                    then Inl Undefined
                                    else
                                      (case WriteCode_header_and_code
                                              (method_offsets oat_class ! method_offsets_index s1)
                                              code_size code s1 of
                                         (ok2, s2) \<Rightarrow>
                                           if \<not> ok2 then Inr (False, s2)
                                           else Inr (True, s2\<lparr> method_offsets_index :=
                                                                 Suc (method_offsets_index s2) \<rparr>))))))"

definition WriteCodeMethodProcessor_vtable :: "WriteMethodProcessor DexMethodProcessor_vtable" where
  "WriteCodeMethodProcessor_vtable =
     \<lparr> StartClass = OatDexMethodProcessor_StartClass,
       ProcessMethod = WriteCode_ProcessMethod,
       EndClass = OatDexMethodProcessor_EndClass \<rparr>"

definition WriteMap_ProcessMethod ::
  "MapBinder \<Rightarrow> nat \<Rightarrow> EncodedMethod \<Rightarrow> WriteMethodProcessor
     \<Rightarrow> fatal + bool \<times> WriteMethodProcessor" where
  "WriteMap_ProcessMethod B class_def_method_index it s =
     (if \<not> oat_class_index s < length (oat_classes (writer s)) then Inl Undefined
      else
        let oat_class = oat_classes (writer s) ! oat_class_index s in
        if \<not> class_def_method_index < length (compiled_methods oat_class) then Inl Undefined
        else
          case compiled_methods oat_class ! class_def_method_index of
            None \<Rightarrow> Inr (True, s)
          | Some compiled_method \<Rightarrow>
              if \<not> method_offsets_index s < length (method_offsets oat_class) then Inl Undefined
              else
                let map_offset = GetOffset B oat_class (method_offsets_index s);
                    s1 = s\<lparr> method_offsets_index := Suc (method_offsets_index s) \<rparr>;
                    map_bytes = vector_at (compiler_driver (writer s)) (GetMap B compiled_method);
                    map_size = length map_bytes
                in if map_size \<noteq> 0 \<and> map_offset = offset s1 then
                     (case WriteFully (Bytes map_bytes) (out s1) of
                        (ok, out1) \<Rightarrow>
                          if \<not> ok then Inr (False, s1\<lparr> out := out1 \<rparr>)
                          else Inr (True, s1\<lparr> out := out1, offset := offset s1 + map_size \<rparr>))
                   else Inr (True, s1))"

definition WriteMapMethodProcessor_vtable ::
  "MapBinder \<Rightarrow> WriteMethodProcessor DexMethodProcessor_vtable" where
  "WriteMapMethodProcessor_vtable B =
     \<lparr> StartClass = OatDexMethodProcessor_StartClass,
       ProcessMethod = WriteMap_ProcessMethod B,
       EndClass = OatDexMethodProcessor_EndClass \<rparr>"

text \<open>One expansion of \<^verbatim>\<open>PROCESS\<close> in \<^verbatim>\<open>WriteCodeDexFiles\<close>: a traversal that fails
  returns the relative offset 0.\<close>

definition WriteCodeDexFiles_PROCESS ::
  "WriteMethodProcessor DexMethodProcessor_vtable \<Rightarrow> OatWriter \<Rightarrow> nat
     \<Rightarrow> nat \<times> OutputStream \<Rightarrow> fatal + nat \<times> OutputStream" where
  "WriteCodeDexFiles_PROCESS P w file_off ro =
     (case ProcessDexMethods P (dex_files w)
             (WriteMethodProcessor_new w (snd ro) file_off (fst ro)) of
        Inl e \<Rightarrow> Inl e
      | Inr (ok, processor) \<Rightarrow>
          if \<not> ok then Inr (0, out processor) else Inr (offset processor, out processor))"

definition WriteCodeDexFiles ::
  "OatWriter \<Rightarrow> OutputStream \<Rightarrow> nat \<Rightarrow> nat \<Rightarrow> fatal + nat \<times> OutputStream" where
  "WriteCodeDexFiles w os file_off relative_offset =
     (case WriteCodeDexFiles_PROCESS WriteCodeMethodProcessor_vtable w file_off (relative_offset, os) of
        Inl e \<Rightarrow> Inl e
      | Inr (r1, os1) \<Rightarrow> if r1 = 0 then Inr (0, os1) else
     (case WriteCodeDexFiles_PROCESS (WriteMapMethodProcessor_vtable GcMapBinder) w file_off (r1, os1) of
        Inl e \<Rightarrow> Inl e
      | Inr (r2, os2) \<Rightarrow> if r2 = 0 then Inr (0, os2) else
     (case WriteCodeDexFiles_PROCESS (WriteMapMethodProcessor_vtable MappingTableBinder) w file_off (r2, os2) of
        Inl e \<Rightarrow> Inl e
      | Inr (r3, os3) \<Rightarrow> if r3 = 0 then Inr (0, os3) else
          WriteCodeDexFiles_PROCESS (WriteMapMethodProcessor_vtable VmapTableBinder) w file_off (r3, os3))))"

subsection \<open>Pass 2: the entry point\<close>

text \<open>\<^verbatim>\<open>OatWriter::Write\<close> up to its two final \<^verbatim>\<open>CHECK_EQ\<close>s: the result is the C++
  \<^verbatim>\<open>bool\<close> so far, the last \<^verbatim>\<open>relative_offset\<close> and the stream.\<close>

definition Write_steps :: "OatWriter \<Rightarrow> OutputStream \<Rightarrow> fatal + bool \<times> nat \<times> OutputStream" where
  "Write_steps w os =
     (case Seek 0 kSeekCurrent os of
        (file_off, os0) \<Rightarrow>
     (case WriteFully HeaderChunk os0 of
        (ok1, os1) \<Rightarrow> if \<not> ok1 then Inr (False, 0, os1) else
     (case WriteFully (Chars (image_file_location w)) os1 of
        (ok2, os2) \<Rightarrow> if \<not> ok2 then Inr (False, 0, os2) else
     (case WriteTables w os2 file_off of
        Inl e \<Rightarrow> Inl e
      | Inr (ok3, os3) \<Rightarrow> if \<not> ok3 then Inr (False, 0, os3) else
     (case WriteCode w os3 file_off of
        Inl e \<Rightarrow> Inl e
      | Inr (relative_offset, os4) \<Rightarrow> if relative_offset = 0 then Inr (False, 0, os4) else
     (case WriteCodeDexFiles w os4 file_off relative_offset of
        Inl e \<Rightarrow> Inl e
      | Inr (relative_offset2, os5) \<Rightarrow>
          if relative_offset2 = 0 then Inr (False, 0, os5)
          else Inr (True, relative_offset2, os5)))))))"

definition Write :: "OatWriter \<Rightarrow> OutputStream \<Rightarrow> fatal + bool \<times> OutputStream" where
  "Write w os =
     (case Write_steps w os of
        Inl e \<Rightarrow> Inl e
      | Inr (ok, relative_offset, os1) \<Rightarrow>
          if \<not> ok then Inr (False, os1)
          else if position os + oat_size w \<noteq> u32 (position os1) then Inl CheckFailed
          else if oat_size w \<noteq> relative_offset then Inl CheckFailed
          else Inr (True, os1))"

section \<open>Notions used in the statements\<close>

subsection \<open>The traversal as a sequence of callbacks\<close>

text \<open>The callbacks the traversal owes, in order, for a list of dex files: for every dex
  file in order and every class definition in order, \<^verbatim>\<open>StartClass\<close>, then
  \<^verbatim>\<open>ProcessMethod\<close> for every directly-dispatched and then every virtually-dispatched
  method entry with its ordinal in the class, then \<^verbatim>\<open>EndClass\<close>. Every entry of a
  method list is there, whatever its method index.\<close>

datatype event = EvStartClass DexFile nat | EvProcessMethod nat EncodedMethod | EvEndClass

fun callback :: "'s DexMethodProcessor_vtable \<Rightarrow> event \<Rightarrow> 's \<Rightarrow> fatal + bool \<times> 's" where
  "callback P (EvStartClass d k) s = StartClass P d k s"
| "callback P (EvProcessMethod i m) s = ProcessMethod P i m s"
| "callback P EvEndClass s = EndClass P s"

text \<open>Running the callbacks of a sequence of events one after the other, up to the first
  that does not return \<^verbatim>\<open>true\<close>.\<close>

fun run :: "'s DexMethodProcessor_vtable \<Rightarrow> event list \<Rightarrow> 's \<Rightarrow> fatal + bool \<times> 's" where
  "run P [] s = Inr (True, s)"
| "run P (e # es) s =
     (case callback P e s of
        Inl x \<Rightarrow> Inl x
      | Inr (ok, s') \<Rightarrow> if ok then run P es s' else Inr (False, s'))"

definition class_data_methods :: "ClassData option \<Rightarrow> EncodedMethod list" where
  "class_data_methods cd = (case cd of None \<Rightarrow> [] | Some c \<Rightarrow> direct_methods c @ virtual_methods c)"

definition method_events :: "nat \<Rightarrow> EncodedMethod list \<Rightarrow> event list" where
  "method_events i ms = map (\<lambda>(j, m). EvProcessMethod j m) (enumerate i ms)"

definition class_events :: "DexFile \<Rightarrow> nat \<Rightarrow> ClassData option \<Rightarrow> event list" where
  "class_events d k cd = EvStartClass d k # method_events 0 (class_data_methods cd) @ [EvEndClass]"

definition classes_events :: "DexFile \<Rightarrow> nat \<Rightarrow> ClassData option list \<Rightarrow> event list" where
  "classes_events d k cds = concat (map (\<lambda>(j, cd). class_events d j cd) (enumerate k cds))"

definition traversal_events :: "DexFile list \<Rightarrow> event list" where
  "traversal_events dfs = concat (map (\<lambda>d. classes_events d 0 (class_defs d)) dfs)"

text \<open>A processor that only records the callbacks it receives.\<close>

definition recorder :: "event list DexMethodProcessor_vtable" where
  "recorder =
     \<lparr> StartClass = (\<lambda>d k log. Inr (True, log @ [EvStartClass d k])),
       ProcessMethod = (\<lambda>i m log. Inr (True, log @ [EvProcessMethod i m])),
       EndClass = (\<lambda>log. Inr (True, log @ [EvEndClass])) \<rparr>"

subsection \<open>The class descriptor of a class\<close>

text \<open>The compiled methods of a class as the driver has them, one per method entry; how
  many of them exist; the class status the driver reports; and the compiled-state tag as a
  function of the two counts.\<close>

definition class_compiled_methods ::
  "CompilerDriver \<Rightarrow> DexFile \<Rightarrow> ClassData option \<Rightarrow> CompiledMethod option list" where
  "class_compiled_methods drv d cd =
     map (\<lambda>m. GetCompiledMethod drv (dex_id d, GetMemberIndex m)) (class_data_methods cd)"

definition num_compiled :: "CompiledMethod option list \<Rightarrow> nat" where
  "num_compiled cms = length (filter (\<lambda>m. m \<noteq> None) cms)"

definition class_status :: "CompilerDriver \<Rightarrow> DexFile \<Rightarrow> nat \<Rightarrow> int" where
  "class_status drv d k =
     (case GetCompiledClass drv (dex_id d, k) of
        Some st \<Rightarrow> st
      | None \<Rightarrow> if IsClassRejected drv (dex_id d, k) then kStatusError else kStatusNotReady)"

definition OatClass_tag :: "nat \<Rightarrow> nat \<Rightarrow> OatClassType" where
  "OatClass_tag num_methods num_non_null =
     (if num_non_null = 0 then kOatClassNoneCompiled
      else if num_non_null = num_methods then kOatClassAllCompiled
      else kOatClassSomeCompiled)"

text \<open>The class descriptor that \<^verbatim>\<open>InitOatClassesMethodProcessor::EndClass\<close> builds for
  a class laid out at a given offset.\<close>

definition new_class :: "CompilerDriver \<Rightarrow> nat \<Rightarrow> DexFile \<Rightarrow> nat \<Rightarrow> ClassData option \<Rightarrow> OatClass" where
  "new_class drv off d k cd =
     (case OatClass_new off (class_compiled_methods drv d cd)
             (num_compiled (class_compiled_methods drv d cd)) (class_status drv d k) of
        Inr c \<Rightarrow> c)"

section \<open>Notions used in the proofs\<close>

subsection \<open>The processors of the per-method offset records, method by method\<close>

text \<open>The processors derived from \<^verbatim>\<open>OatDexMethodProcessor\<close> walk the class descriptors in
  step with the traversal. Seen method by method, each of them is a step function on what
  the processor keeps besides its indices: a step receives the compiled method, its
  per-method offset record and that state, and returns the record and the state it
  leaves. \<open>steps\<close> runs a step function over the compiled methods of all classes,
  \<open>simulates\<close> says that a \<^verbatim>\<open>ProcessMethod\<close> callback acts as a step function, and
  the four step functions below are the ones of the code, side-table, write-code and
  write-side-table processors.\<close>

type_synonym 'a method_step =
  "(fatal + nat) \<Rightarrow> CompiledMethod \<Rightarrow> OatMethodOffsets \<Rightarrow> 'a \<Rightarrow> fatal + bool \<times> (OatMethodOffsets \<times> 'a)"

fun steps ::
  "'a method_step \<Rightarrow> ((fatal + nat) \<times> CompiledMethod) list \<Rightarrow> OatMethodOffsets list \<Rightarrow> 'a
     \<Rightarrow> fatal + bool \<times> (OatMethodOffsets list \<times> 'a)" where
  "steps A [] rs a = Inr (True, ([], a))"
| "steps A ((fx, cm) # ms) [] a = Inl Undefined"
| "steps A ((fx, cm) # ms) (r # rs) a =
     (case A fx cm r a of
        Inl e \<Rightarrow> Inl e
      | Inr (ok, (r', a')) \<Rightarrow>
          if \<not> ok then Inr (False, ([], a'))
          else (case steps A ms rs a' of
                  Inl e \<Rightarrow> Inl e
                | Inr (ok2, (rs', a'')) \<Rightarrow> Inr (ok2, (r' # rs', a''))))"

fun flat_from :: "OatClass \<Rightarrow> nat \<Rightarrow> CompiledMethod option list \<Rightarrow> ((fatal + nat) \<times> CompiledMethod) list" where
  "flat_from oc i [] = []"
| "flat_from oc i (None # cms) = flat_from oc (Suc i) cms"
| "flat_from oc i (Some cm # cms) =
     (GetOatMethodOffsetsOffsetFromOatHeader oc i, cm) # flat_from oc (Suc i) cms"

definition class_flat :: "OatClass \<Rightarrow> ((fatal + nat) \<times> CompiledMethod) list" where
  "class_flat oc = flat_from oc 0 (compiled_methods oc)"

fun set_records :: "OatClass list \<Rightarrow> OatMethodOffsets list \<Rightarrow> OatClass list" where
  "set_records [] rs = []"
| "set_records (oc # ocs) rs =
     oc\<lparr> method_offsets := take (length (method_offsets oc)) rs \<rparr>
       # set_records ocs (drop (length (method_offsets oc)) rs)"

definition simulates ::
  "(nat \<Rightarrow> EncodedMethod \<Rightarrow> 'z OatDexMethodProcessor_scheme \<Rightarrow> fatal + bool \<times> 'z OatDexMethodProcessor_scheme)
     \<Rightarrow> 'a method_step \<Rightarrow> ('z OatDexMethodProcessor_scheme \<Rightarrow> 'a) \<Rightarrow> bool" where
  "simulates PM A \<alpha> \<longleftrightarrow>
     (\<forall>s i it. oat_class_index s < length (oat_classes (writer s)) \<longrightarrow>
        i < length (compiled_methods (oat_classes (writer s) ! oat_class_index s)) \<longrightarrow>
        (case compiled_methods (oat_classes (writer s) ! oat_class_index s) ! i of
           None \<Rightarrow> PM i it s = Inr (True, s)
         | Some cm \<Rightarrow>
             method_offsets_index s < length (method_offsets (oat_classes (writer s) ! oat_class_index s)) \<longrightarrow>
             (case A (GetOatMethodOffsetsOffsetFromOatHeader (oat_classes (writer s) ! oat_class_index s) i) cm
                     (method_offsets (oat_classes (writer s) ! oat_class_index s) ! method_offsets_index s) (\<alpha> s) of
                Inl e \<Rightarrow> PM i it s = Inl e
              | Inr (ok, (r', a')) \<Rightarrow>
                  (\<exists>s'. PM i it s = Inr (ok, s') \<and> \<alpha> s' = a' \<and>
                     (ok \<longrightarrow>
                        oat_classes (writer s') = (oat_classes (writer s))
                          [oat_class_index s := (oat_classes (writer s) ! oat_class_index s)
                             \<lparr> method_offsets := (method_offsets (oat_classes (writer s) ! oat_class_index s))
                                  [method_offsets_index s := r'] \<rparr>]
                        \<and> oat_class_index s' = oat_class_index s
                        \<and> method_offsets_index s' = Suc (method_offsets_index s))))))"

definition index_free :: "('z OatDexMethodProcessor_scheme \<Rightarrow> 'a) \<Rightarrow> bool" where
  "index_free \<alpha> \<longleftrightarrow>
     (\<forall>s d k n. \<alpha> (s\<lparr> dex_file := d, class_def_index := k \<rparr>) = \<alpha> s
        \<and> \<alpha> (s\<lparr> method_offsets_index := n \<rparr>) = \<alpha> s
        \<and> \<alpha> (s\<lparr> oat_class_index := n \<rparr>) = \<alpha> s)"

definition class_fits :: "DexFile \<times> nat \<times> ClassData option \<Rightarrow> OatClass \<Rightarrow> bool" where
  "class_fits c oc \<longleftrightarrow>
     length (class_data_methods (snd (snd c))) = length (compiled_methods oc)
     \<and> length (method_offsets oc) = num_compiled (compiled_methods oc)"

definition all_classes :: "DexFile list \<Rightarrow> (DexFile \<times> nat \<times> ClassData option) list" where
  "all_classes dfs = concat (map (\<lambda>d. map (\<lambda>(k, cd). (d, k, cd)) (enumerate 0 (class_defs d))) dfs)"

definition classes_run :: "(DexFile \<times> nat \<times> ClassData option) list \<Rightarrow> event list" where
  "classes_run cl = concat (map (\<lambda>(d, k, cd). class_events d k cd) cl)"

definition shape_ok :: "DexFile list \<Rightarrow> OatClass list \<Rightarrow> bool" where
  "shape_ok dfs ocs \<longleftrightarrow> list_all2 class_fits (all_classes dfs) ocs"

definition flat_methods :: "OatClass list \<Rightarrow> ((fatal + nat) \<times> CompiledMethod) list" where
  "flat_methods ocs = concat (map class_flat ocs)"

definition flat_records :: "OatClass list \<Rightarrow> OatMethodOffsets list" where
  "flat_records ocs = concat (map method_offsets ocs)"

datatype map_kind = GcMap | MappingTable | VmapTable

fun binder_of :: "map_kind \<Rightarrow> MapBinder" where
  "binder_of GcMap = GcMapBinder"
| "binder_of MappingTable = MappingTableBinder"
| "binder_of VmapTable = VmapTableBinder"

fun blob_of :: "map_kind \<Rightarrow> CompiledMethod \<Rightarrow> nat" where
  "blob_of GcMap cm = GetGcMap cm"
| "blob_of MappingTable cm = GetMappingTable cm"
| "blob_of VmapTable cm = GetVmapTable cm"

fun get_field :: "map_kind \<Rightarrow> OatMethodOffsets \<Rightarrow> nat" where
  "get_field GcMap r = gc_map_offset r"
| "get_field MappingTable r = mapping_table_offset r"
| "get_field VmapTable r = vmap_table_offset r"

fun put_field :: "map_kind \<Rightarrow> nat \<Rightarrow> OatMethodOffsets \<Rightarrow> OatMethodOffsets" where
  "put_field GcMap v r = r\<lparr> gc_map_offset := v \<rparr>"
| "put_field MappingTable v r = r\<lparr> mapping_table_offset := v \<rparr>"
| "put_field VmapTable v r = r\<lparr> vmap_table_offset := v \<rparr>"

fun dedupe_of :: "map_kind \<Rightarrow> OatWriter \<Rightarrow> nat \<rightharpoonup> nat" where
  "dedupe_of GcMap w = gc_map_offsets w"
| "dedupe_of MappingTable w = mapping_table_offsets w"
| "dedupe_of VmapTable w = vmap_table_offsets w"

fun put_dedupe :: "map_kind \<Rightarrow> (nat \<rightharpoonup> nat) \<Rightarrow> OatWriter \<Rightarrow> OatWriter" where
  "put_dedupe GcMap m w = w\<lparr> gc_map_offsets := m \<rparr>"
| "put_dedupe MappingTable m w = w\<lparr> mapping_table_offsets := m \<rparr>"
| "put_dedupe VmapTable m w = w\<lparr> vmap_table_offsets := m \<rparr>"

definition abs_init :: "OatDexMethodProcessor \<Rightarrow> nat \<times> OatWriter" where
  "abs_init s = (offset s, (writer s)\<lparr> oat_classes := [] \<rparr>)"


definition init_code_offset ::
  "(fatal + nat) \<Rightarrow> CompiledMethod \<Rightarrow> nat \<times> OatWriter \<Rightarrow> fatal + nat \<times> (nat \<times> OatWriter)" where
  "init_code_offset fx cm a =
     (let off = fst a; w = snd a in
      case GetPortableCode cm of
        Some portable_code \<Rightarrow>
          if GetQuickCode cm \<noteq> None then Inl CheckFailed
          else (case fx of
                  Inl e \<Rightarrow> Inl e
                | Inr fxo \<Rightarrow> Inr (0, (off, w\<lparr> oatdata_offsets := oatdata_offsets w @ [fxo + offsetof_code_offset] \<rparr>)))
      | None \<Rightarrow>
          (case GetQuickCode cm of
             None \<Rightarrow> Inl CheckFailed
           | Some quick_code \<Rightarrow>
               (case AlignCode off (GetInstructionSet cm) of
                  Inl e \<Rightarrow> Inl e
                | Inr aligned \<Rightarrow>
                    let code = vector_at (compiler_driver w) quick_code;
                        code_size = u32 (length code)
                    in if code_size = 0 then Inl CheckFailed
                       else
                         let quick_code_offset = u32 (aligned + sizeof_OatMethodHeader + CodeDelta (GetInstructionSet cm))
                         in (case code_offsets w quick_code of
                               Some found \<Rightarrow> Inr (found, (aligned, w))
                             | None \<Rightarrow>
                                 Inr (quick_code_offset,
                                      (aligned + sizeof_OatMethodHeader + code_size,
                                       w\<lparr> code_offsets := (code_offsets w)(quick_code \<mapsto> quick_code_offset),
                                          oat_header := UpdateChecksum (Bytes (take code_size code))
                                                          (UpdateChecksum (MethodHeader code_size) (oat_header w)) \<rparr>))))))"

definition init_code_step :: "(nat \<times> OatWriter) method_step" where
  "init_code_step fx cm r a =
     (case init_code_offset fx cm a of
        Inl e \<Rightarrow> Inl e
      | Inr (quick_code_offset, a') \<Rightarrow>
          Inr (True,
               (\<lparr> code_offset = quick_code_offset,
                  frame_size_in_bytes = u32 (GetFrameSizeInBytes cm),
                  core_spill_mask = u32 (GetCoreSpillMask cm),
                  fp_spill_mask = u32 (GetFpSpillMask cm),
                  mapping_table_offset = 0, vmap_table_offset = 0, gc_map_offset = 0 \<rparr>, a')))"

definition init_map_step :: "map_kind \<Rightarrow> (nat \<times> OatWriter) method_step" where
  "init_map_step K fx cm r a =
     (let off = fst a; w = snd a;
          map = blob_of K cm;
          map_bytes = vector_at (compiler_driver w) map;
          map_size = u32 (length map_bytes)
      in if map_size \<noteq> 0 then
           (case dedupe_of K w map of
              Some found \<Rightarrow> Inr (True, (put_field K (u32 found) r, (off, w)))
            | None \<Rightarrow>
                let w2 = put_dedupe K ((dedupe_of K w)(map \<mapsto> u32 off)) w in
                Inr (True, (put_field K (u32 off) r,
                            (off + map_size,
                             w2\<lparr> oat_header := UpdateChecksum (Bytes (take map_size map_bytes)) (oat_header w2) \<rparr>))))
         else Inr (True, (r, a)))"





section \<open>The layout passes as pure functions\<close>

fun map_pass ::
  "map_kind \<Rightarrow> CompilerDriver \<Rightarrow> CompiledMethod list \<Rightarrow> OatMethodOffsets list \<Rightarrow> (nat \<rightharpoonup> nat) \<Rightarrow> nat
     \<Rightarrow> OatMethodOffsets list \<times> (nat \<rightharpoonup> nat) \<times> nat \<times> chunk list" where
  "map_pass K drv [] rs D off = ([], D, off, [])"
| "map_pass K drv (cm # cms) [] D off = ([], D, off, [])"
| "map_pass K drv (cm # cms) (r # rs) D off =
     (let map_bytes = vector_at drv (blob_of K cm); map_size = u32 (length map_bytes) in
      if map_size \<noteq> 0 then
        (case D (blob_of K cm) of
           Some found \<Rightarrow>
             (case map_pass K drv cms rs D off of
                (rs', D', off', cs) \<Rightarrow> (put_field K (u32 found) r # rs', D', off', cs))
         | None \<Rightarrow>
             (case map_pass K drv cms rs (D(blob_of K cm \<mapsto> u32 off)) (off + map_size) of
                (rs', D', off', cs) \<Rightarrow>
                  (put_field K (u32 off) r # rs', D', off', Bytes (take map_size map_bytes) # cs)))
      else (case map_pass K drv cms rs D off of
              (rs', D', off', cs) \<Rightarrow> (r # rs', D', off', cs)))"

definition add_checksum :: "chunk list \<Rightarrow> OatWriter \<Rightarrow> OatWriter" where
  "add_checksum cs w = w\<lparr> oat_header := (oat_header w)\<lparr> checksum_data := checksum_data (oat_header w) @ cs \<rparr> \<rparr>"


definition chunks_size :: "chunk list \<Rightarrow> nat" where
  "chunks_size cs = sum_list (map chunk_size cs)"

definition new_record :: "CompiledMethod \<Rightarrow> nat \<Rightarrow> OatMethodOffsets" where
  "new_record cm quick_code_offset =
     \<lparr> code_offset = quick_code_offset,
       frame_size_in_bytes = u32 (GetFrameSizeInBytes cm),
       core_spill_mask = u32 (GetCoreSpillMask cm),
       fp_spill_mask = u32 (GetFpSpillMask cm),
       mapping_table_offset = 0, vmap_table_offset = 0, gc_map_offset = 0 \<rparr>"

definition padding_chunks :: "nat \<Rightarrow> chunk list" where
  "padding_chunks d = (if d = 0 then [] else [Bytes (take d kPadding)])"

text \<open>One method of the code layout: the code offset recorded, the deduplication map and
  the offset left, the chunks folded into the checksum, the chunks the write pass owes
  (the same after the alignment padding) and the offsets passed to
  \<^verbatim>\<open>AddOatdataOffsetToCompliledCodeOffset\<close>.\<close>

definition code_offset_step ::
  "CompilerDriver \<Rightarrow> (fatal + nat) \<Rightarrow> CompiledMethod \<Rightarrow> (nat \<rightharpoonup> nat) \<Rightarrow> nat
     \<Rightarrow> fatal + nat \<times> (nat \<rightharpoonup> nat) \<times> nat \<times> chunk list \<times> chunk list \<times> nat list" where
  "code_offset_step drv fx cm C off =
     (case GetPortableCode cm of
        Some portable_code \<Rightarrow>
          if GetQuickCode cm \<noteq> None then Inl CheckFailed
          else (case fx of
                  Inl e \<Rightarrow> Inl e
                | Inr fxo \<Rightarrow> Inr (0, C, off, [], [], [fxo + offsetof_code_offset]))
      | None \<Rightarrow>
          (case GetQuickCode cm of
             None \<Rightarrow> Inl CheckFailed
           | Some quick_code \<Rightarrow>
               (case AlignCode off (GetInstructionSet cm) of
                  Inl e \<Rightarrow> Inl e
                | Inr aligned \<Rightarrow>
                    let code = vector_at drv quick_code; code_size = u32 (length code) in
                    if code_size = 0 then Inl CheckFailed
                    else
                      (case C quick_code of
                         Some found \<Rightarrow>
                           Inr (found, C, aligned, [], padding_chunks (aligned - off), [])
                       | None \<Rightarrow>
                           let quick_code_offset =
                                 u32 (aligned + sizeof_OatMethodHeader + CodeDelta (GetInstructionSet cm))
                           in Inr (quick_code_offset, C(quick_code \<mapsto> quick_code_offset),
                                   aligned + sizeof_OatMethodHeader + code_size,
                                   [MethodHeader code_size, Bytes (take code_size code)],
                                   padding_chunks (aligned - off)
                                     @ [MethodHeader code_size, Bytes (take code_size code)],
                                   [])))))"

fun code_pass ::
  "CompilerDriver \<Rightarrow> ((fatal + nat) \<times> CompiledMethod) list \<Rightarrow> OatMethodOffsets list \<Rightarrow> (nat \<rightharpoonup> nat) \<Rightarrow> nat
     \<Rightarrow> fatal + OatMethodOffsets list \<times> (nat \<rightharpoonup> nat) \<times> nat \<times> chunk list \<times> chunk list \<times> nat list" where
  "code_pass drv [] rs C off = Inr ([], C, off, [], [], [])"
| "code_pass drv ((fx, cm) # ms) [] C off = Inl Undefined"
| "code_pass drv ((fx, cm) # ms) (r # rs) C off =
     (case code_offset_step drv fx cm C off of
        Inl e \<Rightarrow> Inl e
      | Inr (qco, C1, off1, cs1, ws1, fxs1) \<Rightarrow>
          (case code_pass drv ms rs C1 off1 of
             Inl e \<Rightarrow> Inl e
           | Inr (rs', C', off', cs, ws, fxs) \<Rightarrow>
               Inr (new_record cm qco # rs', C', off', cs1 @ cs, ws1 @ ws, fxs1 @ fxs)))"

definition code_writer :: "(nat \<rightharpoonup> nat) \<Rightarrow> chunk list \<Rightarrow> nat list \<Rightarrow> OatWriter \<Rightarrow> OatWriter" where
  "code_writer C cs fxs w =
     add_checksum cs (w\<lparr> code_offsets := C, oatdata_offsets := oatdata_offsets w @ fxs \<rparr>)"

text \<open>The four traversals of \<^verbatim>\<open>WriteCodeDexFiles\<close>, in the order of its \<^verbatim>\<open>PROCESS\<close> lines,
  and their sequence: a traversal starts where the one before stopped, unless that
  returned 0.\<close>

definition write_processors :: "WriteMethodProcessor DexMethodProcessor_vtable list" where
  "write_processors =
     [WriteCodeMethodProcessor_vtable, WriteMapMethodProcessor_vtable GcMapBinder,
      WriteMapMethodProcessor_vtable MappingTableBinder, WriteMapMethodProcessor_vtable VmapTableBinder]"

fun process_all ::
  "WriteMethodProcessor DexMethodProcessor_vtable list \<Rightarrow> OatWriter \<Rightarrow> nat
     \<Rightarrow> nat \<times> OutputStream \<Rightarrow> fatal + nat \<times> OutputStream" where
  "process_all [] w file_off ro = Inr ro"
| "process_all (P # Ps) w file_off ro =
     (case WriteCodeDexFiles_PROCESS P w file_off ro of
        Inl e \<Rightarrow> Inl e
      | Inr (r1, os1) \<Rightarrow> if r1 = 0 then Inr (0, os1) else process_all Ps w file_off (r1, os1))"

section \<open>The layout as a function of the input\<close>

text \<open>The class descriptors of a list of classes laid out from an offset on, the module
  descriptors of a list of dex files, and the offsets of the dex files' bytes: what the
  loops of the constructor compute.\<close>

fun new_classes :: "CompilerDriver \<Rightarrow> nat \<Rightarrow> (DexFile \<times> nat \<times> ClassData option) list \<Rightarrow> OatClass list" where
  "new_classes drv off [] = []"
| "new_classes drv off ((d, k, cd) # cl) =
     new_class drv off d k cd
       # new_classes drv (off + OatClass_SizeOf (new_class drv off d k cd)) cl"

fun new_oat_dex_files :: "nat \<Rightarrow> DexFile list \<Rightarrow> OatDexFile list" where
  "new_oat_dex_files off [] = []"
| "new_oat_dex_files off (d # ds) =
     OatDexFile_new off d # new_oat_dex_files (off + OatDexFile_SizeOf (OatDexFile_new off d)) ds"

fun dex_file_offsets :: "DexFile list \<Rightarrow> nat \<Rightarrow> nat list" where
  "dex_file_offsets [] off = []"
| "dex_file_offsets (d # ds) off =
     RoundUp off 4 # dex_file_offsets ds (RoundUp off 4 + length (dex_data d))"

fun dex_files_end :: "DexFile list \<Rightarrow> nat \<Rightarrow> nat" where
  "dex_files_end [] off = off"
| "dex_files_end (d # ds) off = dex_files_end ds (RoundUp off 4 + length (dex_data d))"

fun set_methods_offsets :: "OatDexFile list \<Rightarrow> OatClass list \<Rightarrow> OatDexFile list" where
  "set_methods_offsets [] cs = []"
| "set_methods_offsets (odf # rest) cs =
     odf\<lparr> methods_offsets := map (\<lambda>c. u32 (class_offset c)) (take (length (methods_offsets odf)) cs) \<rparr>
       # set_methods_offsets rest (drop (length (methods_offsets odf)) cs)"

definition odf_chunks :: "OatDexFile \<Rightarrow> chunk list" where
  "odf_chunks odf =
     [U32 (dex_file_location_size odf),
      Chars (take (dex_file_location_size odf) (dex_file_location_data odf)),
      U32 (dex_file_location_checksum odf), U32 (dex_file_offset odf),
      U32s (methods_offsets odf)]"

definition sizes :: "('a \<Rightarrow> nat) \<Rightarrow> 'a list \<Rightarrow> nat" where
  "sizes f xs = sum_list (map f xs)"

fun trampolines_end :: "Trampoline list \<Rightarrow> InstructionSet \<Rightarrow> CompilerDriver \<Rightarrow> nat \<Rightarrow> fatal + nat" where
  "trampolines_end [] isa drv off = Inr off"
| "trampolines_end (t # ts) isa drv off =
     (case AlignCode off isa of
        Inl e \<Rightarrow> Inl e
      | Inr off1 \<Rightarrow> trampolines_end ts isa drv (off1 + length (CreateTrampoline drv t)))"

definition header_end :: "string \<Rightarrow> nat" where
  "header_end loc = sizeof_OatHeader + length loc"

definition oat_dex_files_end :: "DexFile list \<Rightarrow> string \<Rightarrow> nat" where
  "oat_dex_files_end dfs loc =
     header_end loc + sizes OatDexFile_SizeOf (new_oat_dex_files (header_end loc) dfs)"

definition dex_end :: "DexFile list \<Rightarrow> string \<Rightarrow> nat" where
  "dex_end dfs loc = dex_files_end dfs (oat_dex_files_end dfs loc)"

definition layout_classes :: "DexFile list \<Rightarrow> string \<Rightarrow> CompilerDriver \<Rightarrow> OatClass list" where
  "layout_classes dfs loc drv = new_classes drv (dex_end dfs loc) (all_classes dfs)"

definition classes_end :: "DexFile list \<Rightarrow> string \<Rightarrow> CompilerDriver \<Rightarrow> nat" where
  "classes_end dfs loc drv = dex_end dfs loc + sizes OatClass_SizeOf (layout_classes dfs loc drv)"

definition layout_oat_dex_files :: "DexFile list \<Rightarrow> string \<Rightarrow> CompilerDriver \<Rightarrow> OatDexFile list" where
  "layout_oat_dex_files dfs loc drv =
     set_methods_offsets
       (map2 (\<lambda>odf o1. odf\<lparr> dex_file_offset := u32 o1 \<rparr>)
          (new_oat_dex_files (header_end loc) dfs)
          (dex_file_offsets dfs (oat_dex_files_end dfs loc)))
       (layout_classes dfs loc drv)"

definition code_start :: "DexFile list \<Rightarrow> string \<Rightarrow> CompilerDriver \<Rightarrow> fatal + nat" where
  "code_start dfs loc drv =
     (if IsImage drv
      then trampolines_end all_trampolines (driver_GetInstructionSet drv) drv
             (RoundUp (classes_end dfs loc drv) kPageSize)
      else Inr (RoundUp (classes_end dfs loc drv) kPageSize))"

text \<open>The four passes over the compiled methods, one after the other, from the offset
  where the code starts: the records and the offset each pass leaves, the chunks it folds
  into the checksum, and for the code also the chunks the write pass owes and the
  deduplication maps.\<close>

record method_layout =
  code_records :: "OatMethodOffsets list"
  code_map :: "nat \<rightharpoonup> nat"
  code_end :: nat
  code_chunks :: "chunk list"
  code_writes :: "chunk list"
  code_fixups :: "nat list"
  map_records :: "map_kind \<Rightarrow> OatMethodOffsets list"
  map_dedupe :: "map_kind \<Rightarrow> nat \<rightharpoonup> nat"
  map_end :: "map_kind \<Rightarrow> nat"
  map_chunks :: "map_kind \<Rightarrow> chunk list"

definition layout_methods ::
  "CompilerDriver \<Rightarrow> OatClass list \<Rightarrow> (nat \<rightharpoonup> nat) \<Rightarrow> (map_kind \<Rightarrow> nat \<rightharpoonup> nat) \<Rightarrow> nat
     \<Rightarrow> fatal + method_layout" where
  "layout_methods drv ocs C D off =
     (case code_pass drv (flat_methods ocs) (flat_records ocs) C off of
        Inl e \<Rightarrow> Inl e
      | Inr (rs1, C1, o1, cs1, ws1, fx1) \<Rightarrow>
     (case map_pass GcMap drv (map snd (flat_methods ocs)) rs1 (D GcMap) o1 of
        (rs2, D2, o2, cs2) \<Rightarrow>
     (case map_pass MappingTable drv (map snd (flat_methods ocs)) rs2 (D MappingTable) o2 of
        (rs3, D3, o3, cs3) \<Rightarrow>
     (case map_pass VmapTable drv (map snd (flat_methods ocs)) rs3 (D VmapTable) o3 of
        (rs4, D4, o4, cs4) \<Rightarrow>
          Inr \<lparr> code_records = rs1, code_map = C1, code_end = o1, code_chunks = cs1,
                code_writes = ws1, code_fixups = fx1,
                map_records = (\<lambda>K. case K of GcMap \<Rightarrow> rs2 | MappingTable \<Rightarrow> rs3 | VmapTable \<Rightarrow> rs4),
                map_dedupe = (\<lambda>K. case K of GcMap \<Rightarrow> D2 | MappingTable \<Rightarrow> D3 | VmapTable \<Rightarrow> D4),
                map_end = (\<lambda>K. case K of GcMap \<Rightarrow> o2 | MappingTable \<Rightarrow> o3 | VmapTable \<Rightarrow> o4),
                map_chunks = (\<lambda>K. case K of GcMap \<Rightarrow> cs2 | MappingTable \<Rightarrow> cs3 | VmapTable \<Rightarrow> cs4) \<rparr>))))"

definition laid_out ::
  "DexFile list \<Rightarrow> string \<Rightarrow> CompilerDriver \<Rightarrow> method_layout \<Rightarrow> OatWriter \<Rightarrow> bool" where
  "laid_out dfs loc drv L w \<longleftrightarrow>
     compiler_driver w = drv \<and> dex_files w = dfs \<and> image_file_location w = loc
     \<and> oat_dex_files w = layout_oat_dex_files dfs loc drv
     \<and> oat_classes w = set_records (layout_classes dfs loc drv) (map_records L VmapTable)
     \<and> executable_offset (oat_header w) = u32 (RoundUp (classes_end dfs loc drv) kPageSize)
     \<and> size_executable_offset_alignment w
          = RoundUp (classes_end dfs loc drv) kPageSize - classes_end dfs loc drv
     \<and> checksum_data (oat_header w)
          = concat (map odf_chunks (layout_oat_dex_files dfs loc drv)) @ code_chunks L
            @ map_chunks L GcMap @ map_chunks L MappingTable @ map_chunks L VmapTable
     \<and> oat_size w = map_end L VmapTable
     \<and> code_offsets w = code_map L \<and> (\<forall>K. dedupe_of K w = map_dedupe L K)
     \<and> oatdata_offsets w = code_fixups L
     \<and> (IsImage drv \<longrightarrow> (\<forall>t \<in> set all_trampolines. trampolines w t = Some (CreateTrampoline drv t)))"

section \<open>The output as a sequence of chunks\<close>








section \<open>Alignment\<close>

text \<open>The alignment \<^verbatim>\<open>AlignCode\<close> rounds up to for an instruction set (it is fatal for
  \<^verbatim>\<open>kNone\<close>), and the code offset of a method whose header starts at an offset aligned
  for its instruction set.\<close>

fun code_alignment :: "InstructionSet \<Rightarrow> nat" where
  "code_alignment kArm = kArmAlignment"
| "code_alignment kThumb2 = kArmAlignment"
| "code_alignment kArm64 = kArm64Alignment"
| "code_alignment kMips = kMipsAlignment"
| "code_alignment kX86 = kX86Alignment"
| "code_alignment kX86_64 = kX86Alignment"
| "code_alignment kNone = 1"



section \<open>Concrete inputs\<close>

text \<open>A compiled method with four bytes of x86 code and a two-byte GC map, a driver that
  has it for method index 1 only, and a dex file with one class of two methods: index 1,
  directly dispatched, and index 2, virtually dispatched, which has no compiled code.\<close>

definition ex_method :: CompiledMethod where
  "ex_method =
     \<lparr> GetInstructionSet = kX86, GetPortableCode = None, GetQuickCode = Some 100,
       GetFrameSizeInBytes = 32, GetCoreSpillMask = 1, GetFpSpillMask = 0,
       GetMappingTable = 200, GetVmapTable = 300, GetGcMap = 400 \<rparr>"

definition ex_memory :: "nat \<Rightarrow> byte list" where
  "ex_memory a = (if a = 100 then [1, 2, 3, 4] else if a = 400 then [9, 9] else [])"

definition ex_driver :: CompilerDriver where
  "ex_driver =
     \<lparr> IsImage = False, driver_GetInstructionSet = kX86,
       GetCompiledMethod = (\<lambda>(d, m). if m = 1 then Some ex_method else None),
       GetCompiledClass = (\<lambda>r. None), IsClassRejected = (\<lambda>r. False),
       vector_at = ex_memory, CreateTrampoline = (\<lambda>t. []) \<rparr>"

definition ex_class :: ClassData where
  "ex_class =
     \<lparr> direct_methods = [\<lparr> GetMemberIndex = 1, GetMemberAccessFlags = 0 \<rparr>],
       virtual_methods = [\<lparr> GetMemberIndex = 2, GetMemberAccessFlags = 0 \<rparr>] \<rparr>"

definition ex_dex :: DexFile where
  "ex_dex =
     \<lparr> dex_id = 0, GetLocation = ''a.dex'', GetLocationChecksum = 77,
       dex_data = [1, 2, 3, 4, 5], class_defs = [Some ex_class] \<rparr>"

text \<open>A class whose list of directly-dispatched methods names method index 7 twice.\<close>

definition dup_method :: EncodedMethod where
  "dup_method = \<lparr> GetMemberIndex = 7, GetMemberAccessFlags = 0 \<rparr>"

definition dup_dex :: DexFile where
  "dup_dex =
     \<lparr> dex_id = 0, GetLocation = ''d.dex'', GetLocationChecksum = 0, dex_data = [],
       class_defs = [Some \<lparr> direct_methods = [dup_method, dup_method], virtual_methods = [] \<rparr>] \<rparr>"

text \<open>The state of the processor that builds the class descriptors, before any class.\<close>

definition ex_writer0 :: OatWriter where
  "ex_writer0 =
     \<lparr> compiler_driver = ex_driver, dex_files = [ex_dex], image_file_location = ''boot.art'',
       oat_header = OatHeader_new, oat_dex_files = [], oat_classes = [],
       code_offsets = Map.empty, gc_map_offsets = Map.empty,
       mapping_table_offsets = Map.empty, vmap_table_offsets = Map.empty,
       trampolines = Map.empty, oatdata_offsets = [],
       size_executable_offset_alignment = 0, oat_size = 0 \<rparr>"

definition ex_init_classes :: InitOatClassesMethodProcessor where
  "ex_init_classes =
     \<lparr> writer = ex_writer0, offset = 120, dex_file = None, class_def_index = 0,
       proc_compiled_methods = [], num_non_null_compiled_methods = 0 \<rparr>"

text \<open>A compiled method that carries portable code and no quick code, as the only method
  of a class, and the two code processors about to visit it.\<close>

definition portable_method :: CompiledMethod where
  "portable_method =
     \<lparr> GetInstructionSet = kX86, GetPortableCode = Some 500, GetQuickCode = None,
       GetFrameSizeInBytes = 16, GetCoreSpillMask = 0, GetFpSpillMask = 0,
       GetMappingTable = 200, GetVmapTable = 300, GetGcMap = 400 \<rparr>"

definition portable_class :: OatClass where
  "portable_class =
     \<lparr> class_offset = 120, compiled_methods = [Some portable_method],
       oat_method_offsets_offsets_from_oat_class = [4],
       oat_type = kOatClassAllCompiled, oat_status = 0, method_bitmap_size = 0,
       method_bitmap = None, method_offsets = [OatMethodOffsets_default] \<rparr>"

definition portable_init :: OatDexMethodProcessor where
  "portable_init =
     OatDexMethodProcessor_new (ex_writer0\<lparr> oat_classes := [portable_class] \<rparr>) 4096"

definition portable_write :: WriteMethodProcessor where
  "portable_write =
     WriteMethodProcessor_new (ex_writer0\<lparr> oat_classes := [portable_class] \<rparr>)
       \<lparr> position = 4096, written = [], capacity = 8192 \<rparr> 0 4096"

text \<open>What the constructor lays out for the example dex file with the location
  \<open>boot.art\<close>: the bitmap of the class, the offset record of its compiled method, the
  class descriptor with given offset records, the module descriptor, and what the write
  pass has written when it reaches the code.\<close>

definition ex_bitmap :: BitVector where
  "ex_bitmap = SetBit 0 (BitVector_new 2)"

definition ex_record :: OatMethodOffsets where
  "ex_record =
     \<lparr> code_offset = 4100, frame_size_in_bytes = 32, core_spill_mask = 1, fp_spill_mask = 0,
       mapping_table_offset = 0, vmap_table_offset = 0, gc_map_offset = 4104 \<rparr>"

definition ex_oat_class :: "OatMethodOffsets list \<Rightarrow> OatClass" where
  "ex_oat_class rs =
     \<lparr> class_offset = 117, compiled_methods = [Some ex_method, None],
       oat_method_offsets_offsets_from_oat_class = [12, 0],
       oat_type = kOatClassSomeCompiled, oat_status = 0, method_bitmap_size = 4,
       method_bitmap = Some ex_bitmap, method_offsets = rs \<rparr>"

definition ex_oat_dex_file :: OatDexFile where
  "ex_oat_dex_file =
     \<lparr> dex_offset = 88, dex_file_location_size = 5, dex_file_location_data = ''a.dex'',
       dex_file_location_checksum = 77, dex_file_offset = 112, methods_offsets = [117] \<rparr>"

definition ex_tables :: "(nat \<times> chunk) list" where
  "ex_tables =
     [(0, HeaderChunk), (80, Chars ''boot.art''), (88, U32 5), (92, Chars ''a.dex''),
      (97, U32 77), (101, U32 112), (105, U32s [117]), (112, Bytes [1, 2, 3, 4, 5]),
      (117, StatusChunk 0), (119, TypeChunk kOatClassSomeCompiled), (121, U32 4),
      (125, Bitmap ex_bitmap 4), (129, MethodOffsets [ex_record])]"

text \<open>A processor that counts the callbacks it receives and fails at the one numbered
  \<open>k\<close>, whichever callback it is.\<close>

definition counting :: "nat \<Rightarrow> nat DexMethodProcessor_vtable" where
  "counting k =
     \<lparr> StartClass = (\<lambda>d c n. Inr (n \<noteq> k, Suc n)),
       ProcessMethod = (\<lambda>i m n. Inr (n \<noteq> k, Suc n)),
       EndClass = (\<lambda>n. Inr (n \<noteq> k, Suc n)) \<rparr>"

text \<open>A stream that ends two bytes into the first method header of the example.\<close>

definition ff_stream :: OutputStream where
  "ff_stream = \<lparr> position = 0, written = [], capacity = 4098 \<rparr>"



section \<open>The traversal and the sequence of callbacks\<close>

lemma run_append:
  "run P (es1 @ es2) s =
     (case run P es1 s of Inl x \<Rightarrow> Inl x
      | Inr (ok, s') \<Rightarrow> if ok then run P es2 s' else Inr (False, s'))"
  by (induction es1 arbitrary: s) (auto split: sum.splits)

lemma method_loop_run:
  "(case method_loop P ms (i, s) of Inl x \<Rightarrow> Inl x | Inr (ok, (j, s')) \<Rightarrow> Inr (ok, s'))
     = run P (method_events i ms) s"
  by (induction ms arbitrary: i s) (auto simp: method_events_def split: sum.splits)

lemma method_loop_index:
  "method_loop P ms (i, s) = Inr (True, (j, s')) \<Longrightarrow> j = i + length ms"
proof (induction ms arbitrary: i s)
  case Nil
  then show ?case by simp
next
  case (Cons m ms)
  from Cons.prems obtain s1 where "ProcessMethod P i m s = Inr (True, s1)"
    and "method_loop P ms (Suc i, s1) = Inr (True, (j, s'))"
    by (auto split: sum.splits if_splits)
  with Cons.IH[of "Suc i" s1] show ?case by simp
qed

lemma method_events_append:
  "method_events i (xs @ ys) = method_events i xs @ method_events (i + length xs) ys"
  by (simp add: method_events_def enumerate_append_eq)

lemma class_methods_run:
  "class_methods P cd s = run P (method_events 0 (class_data_methods cd)) s"
proof (cases cd)
  case None
  then show ?thesis by (simp add: class_methods_def class_data_methods_def method_events_def)
next
  case (Some c)
  have d: "run P (method_events 0 (direct_methods c)) s =
      (case method_loop P (direct_methods c) (0, s) of Inl x \<Rightarrow> Inl x | Inr (ok, (j, s')) \<Rightarrow> Inr (ok, s'))"
    by (simp add: method_loop_run)
  show ?thesis
  proof (cases "method_loop P (direct_methods c) (0, s)")
    case (Inl x)
    then show ?thesis using Some d
      by (simp add: class_methods_def class_data_methods_def method_events_append run_append)
  next
    case (Inr r)
    obtain ok j s1 where r: "r = (ok, (j, s1))" by (cases r) auto
    show ?thesis
    proof (cases ok)
      case False
      then show ?thesis using Some d Inr r
        by (simp add: class_methods_def class_data_methods_def method_events_append run_append)
    next
      case True
      then have j: "j = length (direct_methods c)"
        using Inr r method_loop_index[of P "direct_methods c" 0 s j s1] by simp
      have v: "run P (method_events j (virtual_methods c)) s1 =
        (case method_loop P (virtual_methods c) (j, s1) of Inl x \<Rightarrow> Inl x | Inr (ok, (j, s')) \<Rightarrow> Inr (ok, s'))"
        by (simp add: method_loop_run)
      show ?thesis using Some d Inr r True j v
        by (auto simp: class_methods_def class_data_methods_def method_events_append run_append
            split: sum.splits)
    qed
  qed
qed

lemma classes_events_Cons:
  "classes_events d k (cd # cds) = class_events d k cd @ classes_events d (Suc k) cds"
  by (simp add: classes_events_def)

lemma class_loop_run:
  "class_loop P d cds k s = run P (classes_events d k cds) s"
proof (induction cds arbitrary: k s)
  case Nil
  then show ?case by (simp add: classes_events_def)
next
  case (Cons cd cds)
  show ?case
    by (auto simp: classes_events_Cons class_events_def run_append class_methods_run Cons.IH
        split: sum.splits)
qed

lemma ProcessDexMethods_run:
  "ProcessDexMethods P dfs s = run P (traversal_events dfs) s"
proof (induction dfs arbitrary: s)
  case Nil
  then show ?case by (simp add: traversal_events_def)
next
  case (Cons d dfs)
  have "traversal_events (d # dfs) = classes_events d 0 (class_defs d) @ traversal_events dfs"
    by (simp add: traversal_events_def)
  then show ?case
    by (auto simp: run_append class_loop_run Cons.IH split: sum.splits)
qed

section \<open>Class descriptors\<close>

lemma OatClass_loop_fields [simp]:
  "class_offset (OatClass_loop ms i off c) = class_offset c"
  "compiled_methods (OatClass_loop ms i off c) = compiled_methods c"
  "oat_type (OatClass_loop ms i off c) = oat_type c"
  "oat_status (OatClass_loop ms i off c) = oat_status c"
  "method_bitmap_size (OatClass_loop ms i off c) = method_bitmap_size c"
  "method_offsets (OatClass_loop ms i off c) = method_offsets c"
  by (induction ms i off c rule: OatClass_loop.induct) simp_all

lemma OatClass_loop_no_bitmap:
  "method_bitmap c = None \<Longrightarrow> method_bitmap (OatClass_loop ms i off c) = None"
  by (induction ms i off c rule: OatClass_loop.induct) simp_all

lemma OatClass_loop_bitmap:
  "oat_type c = kOatClassSomeCompiled \<Longrightarrow>
   method_bitmap c = Some (xs @ replicate (length ms) False @ zs) \<Longrightarrow> i = length xs \<Longrightarrow>
   method_bitmap (OatClass_loop ms i off c) = Some (xs @ map (\<lambda>m. m \<noteq> None) ms @ zs)"
proof (induction ms i off c arbitrary: xs rule: OatClass_loop.induct)
  case (1 i off c)
  then show ?case by simp
next
  case (2 ms i off c)
  from "2.prems" "2.IH"[of "xs @ [False]"] show ?case by simp
next
  case (3 m ms i off c)
  from "3.prems" "3.IH"[of "xs @ [True]"] show ?case by (simp add: SetBit_def)
qed

lemma BitVector_new_split:
  "BitVector_new n = replicate n False @ replicate (32 * ((n + 31) div 32) - n) False"
proof -
  have "n \<le> 32 * ((n + 31) div 32)" by presburger
  then show ?thesis
    by (simp add: BitVector_new_def replicate_add[symmetric])
qed

lemma NumSetBits_simps [simp]:
  "NumSetBits (xs @ ys) = NumSetBits xs + NumSetBits ys"
  "NumSetBits (replicate n False) = 0"
  "NumSetBits (map P cms) = length (filter P cms)"
  by (simp_all add: NumSetBits_def filter_map comp_def)

lemma OatClass_new_ok:
  assumes "nn = length (filter (\<lambda>m. m \<noteq> None) cms)"
  shows "\<exists>c. OatClass_new off cms nn st = Inr c
      \<and> class_offset c = off \<and> compiled_methods c = cms \<and> oat_status c = st
      \<and> oat_type c = OatClass_tag (length cms) nn
      \<and> length (method_offsets c) = nn
      \<and> (oat_type c \<noteq> kOatClassSomeCompiled \<longrightarrow> method_bitmap c = None \<and> method_bitmap_size c = 0)
      \<and> (oat_type c = kOatClassSomeCompiled \<longrightarrow>
           (\<exists>bv. method_bitmap c = Some bv \<and> method_bitmap_size c = GetSizeOf bv
                \<and> method_bitmap_size c \<noteq> 0
                \<and> NumSetBits bv = length (method_offsets c)
                \<and> take (length cms) bv = map (\<lambda>m. m \<noteq> None) cms))"
proof -
  have le: "nn \<le> length cms" using assms by simp
  show ?thesis
  proof (cases "OatClass_tag (length cms) nn = kOatClassSomeCompiled")
    case False
    then show ?thesis using le
      by (auto simp: OatClass_new_def Let_def OatClass_tag_def OatClass_loop_no_bitmap)
  next
    case True
    then have nn: "nn \<noteq> 0" "nn \<noteq> length cms"
      by (auto simp: OatClass_tag_def split: if_splits)
    then have pos: "0 < length cms" using le by auto
    let ?n = "length cms"
    let ?zs = "replicate (32 * ((?n + 31) div 32) - ?n) False"
    let ?c0 = "\<lparr> class_offset = off, compiled_methods = cms,
               oat_method_offsets_offsets_from_oat_class = replicate ?n 0,
               oat_type = kOatClassSomeCompiled, oat_status = st,
               method_bitmap_size = GetSizeOf (BitVector_new ?n),
               method_bitmap = Some (BitVector_new ?n),
               method_offsets = replicate nn OatMethodOffsets_default \<rparr>"
    have bm: "method_bitmap (OatClass_loop cms 0 (sizeof_type + sizeof_status + (sizeof_uint32 + GetSizeOf (BitVector_new ?n))) ?c0)
        = Some ([] @ map (\<lambda>m. m \<noteq> None) cms @ ?zs)"
      by (rule OatClass_loop_bitmap) (simp_all add: BitVector_new_split[symmetric, simplified])
    have sz: "GetSizeOf (BitVector_new ?n) = GetSizeOf (map (\<lambda>m. m \<noteq> None) cms @ ?zs)"
      by (simp add: GetSizeOf_def BitVector_new_def)
    have "0 < (?n + 31) div 32" using pos by presburger
    then have sz0: "GetSizeOf (BitVector_new ?n) \<noteq> 0"
      by (simp add: GetSizeOf_def BitVector_new_def)
    show ?thesis using nn le bm sz sz0 assms
      by (simp add: OatClass_new_def Let_def OatClass_tag_def)
  qed
qed

lemma InitOatClasses_methods:
  "dex_file s = Some d \<Longrightarrow>
   run InitOatClassesMethodProcessor_vtable (method_events i ms) s =
     Inr (True, s\<lparr> proc_compiled_methods := proc_compiled_methods s @
                      map (\<lambda>m. GetCompiledMethod (compiler_driver (writer s)) (dex_id d, GetMemberIndex m)) ms,
                    num_non_null_compiled_methods := num_non_null_compiled_methods s +
                      num_compiled (map (\<lambda>m. GetCompiledMethod (compiler_driver (writer s)) (dex_id d, GetMemberIndex m)) ms) \<rparr>)"
proof (induction ms arbitrary: i s)
  case Nil
  then show ?case by (simp add: method_events_def num_compiled_def)
next
  case (Cons m ms)
  have ev: "method_events i (m # ms) = EvProcessMethod i m # method_events (Suc i) ms"
    by (simp add: method_events_def)
  show ?case using Cons.prems
    by (simp add: ev InitOatClassesMethodProcessor_vtable_def InitOatClasses_ProcessMethod_def Let_def
        Cons.IH[unfolded InitOatClassesMethodProcessor_vtable_def] num_compiled_def)
qed

lemma new_class_eq:
  "OatClass_new off (class_compiled_methods drv d cd)
       (num_compiled (class_compiled_methods drv d cd)) (class_status drv d k)
     = Inr (new_class drv off d k cd)"
  using OatClass_new_ok[of "num_compiled (class_compiled_methods drv d cd)" "class_compiled_methods drv d cd" off "class_status drv d k"]
  by (auto simp: new_class_def num_compiled_def)

lemma InitOatClasses_class:
  "run InitOatClassesMethodProcessor_vtable (class_events d k cd) s =
     Inr (True, s\<lparr> dex_file := Some d, class_def_index := k,
                    proc_compiled_methods := class_compiled_methods (compiler_driver (writer s)) d cd,
                    num_non_null_compiled_methods := num_compiled (class_compiled_methods (compiler_driver (writer s)) d cd),
                    writer := (writer s)\<lparr> oat_classes := oat_classes (writer s) @
                                [new_class (compiler_driver (writer s)) (offset s) d k cd] \<rparr>,
                    offset := offset s + OatClass_SizeOf (new_class (compiler_driver (writer s)) (offset s) d k cd) \<rparr>)"
proof -
  let ?P = InitOatClassesMethodProcessor_vtable
  let ?s1 = "(DexMethodProcessor_StartClass d k s)\<lparr> proc_compiled_methods := [], num_non_null_compiled_methods := 0 \<rparr>"
  have a: "callback ?P (EvStartClass d k) s = Inr (True, ?s1)"
    by (simp add: InitOatClassesMethodProcessor_vtable_def InitOatClasses_StartClass_def)
  have d1: "dex_file ?s1 = Some d" by (simp add: DexMethodProcessor_StartClass_def)
  note b = InitOatClasses_methods[OF d1, of 0 "class_data_methods cd"]
  show ?thesis
    apply (simp add: class_events_def run_append a b del: callback.simps)
    apply (simp add: InitOatClassesMethodProcessor_vtable_def InitOatClasses_EndClass_def
        DexMethodProcessor_StartClass_def Let_def class_compiled_methods_def[symmetric]
        class_status_def[symmetric] new_class_eq)
    done
qed

section \<open>The processors as step functions\<close>

lemma GetOatMethodOffsetsOffsetFromOatHeader_method_offsets [simp]:
  "GetOatMethodOffsetsOffsetFromOatHeader (oc\<lparr> method_offsets := x \<rparr>) i
     = GetOatMethodOffsetsOffsetFromOatHeader oc i"
  by (simp add: GetOatMethodOffsetsOffsetFromOatHeader_def GetOatMethodOffsetsOffsetFromOatClass_def)

lemma flat_from_method_offsets [simp]:
  "flat_from (oc\<lparr> method_offsets := x \<rparr>) i cms = flat_from oc i cms"
  by (induction oc i cms rule: flat_from.induct) simp_all

lemma length_flat_from [simp]: "length (flat_from oc i cms) = num_compiled cms"
  by (induction oc i cms rule: flat_from.induct) (simp_all add: num_compiled_def)

lemma method_events_Cons:
  "method_events i (m # ms) = EvProcessMethod i m # method_events (Suc i) ms"
  by (simp add: method_events_def)

lemma sim_methods:
  assumes sim: "simulates (ProcessMethod P) A \<alpha>"
  shows "oat_class_index s < length (oat_classes (writer s)) \<Longrightarrow>
         oc = oat_classes (writer s) ! oat_class_index s \<Longrightarrow>
         compiled_methods oc = pre @ cms \<Longrightarrow> length pre = i \<Longrightarrow> length ms = length cms \<Longrightarrow>
         method_offsets oc = rpre @ rs \<Longrightarrow> length rpre = method_offsets_index s \<Longrightarrow>
         num_compiled cms \<le> length rs \<Longrightarrow>
         (case steps A (flat_from oc i cms) rs (\<alpha> s) of
            Inl e \<Rightarrow> run P (method_events i ms) s = Inl e
          | Inr (ok, (rs', a')) \<Rightarrow>
              (\<exists>s'. run P (method_events i ms) s = Inr (ok, s') \<and> \<alpha> s' = a' \<and>
                 (ok \<longrightarrow> oat_classes (writer s') = (oat_classes (writer s))
                            [oat_class_index s := oc\<lparr> method_offsets := rpre @ rs' @ drop (length rs') rs \<rparr>]
                       \<and> oat_class_index s' = oat_class_index s
                       \<and> method_offsets_index s' = method_offsets_index s + length rs'
                       \<and> length rs' = num_compiled cms)))"
proof (induction cms arbitrary: ms i pre rs rpre s oc)
  case Nil
  have "oc\<lparr> method_offsets := rpre @ rs \<rparr> = oc"
    using Nil.prems(6) by (cases oc) simp
  then show ?case using Nil.prems(1,2,5)
    by (simp add: method_events_def num_compiled_def)
next
  case (Cons c cms)
  then obtain m ms' where ms: "ms = m # ms'" and lms: "length ms' = length cms"
    by (cases ms) auto
  let ?k = "oat_class_index s"
  let ?ocs = "oat_classes (writer s)"
  have i: "i < length (compiled_methods oc)" and ci: "compiled_methods oc ! i = c"
    using Cons.prems by (auto simp: nth_append)
  note S = sim[unfolded simulates_def, rule_format, OF Cons.prems(1), of i m, folded Cons.prems(2), OF i]
  show ?case
  proof (cases c)
    case None
    have pm: "ProcessMethod P i m s = Inr (True, s)" using S ci None by simp
    have cm': "compiled_methods oc = (pre @ [None]) @ cms" using Cons.prems None by simp
    have nc: "num_compiled cms \<le> length rs" using Cons.prems None by (simp add: num_compiled_def)
    from Cons.IH[OF Cons.prems(1,2) cm' _ lms Cons.prems(6,7) nc, of "Suc i"] Cons.prems(4)
    show ?thesis using None pm
      by (cases "steps A (flat_from oc (Suc i) cms) rs (\<alpha> s)")
         (auto simp: ms method_events_Cons num_compiled_def)
  next
    case (Some cm)
    from Cons.prems Some obtain r rs2 where rs: "rs = r # rs2" and nc: "num_compiled cms \<le> length rs2"
      by (cases rs) (auto simp: num_compiled_def)
    have j: "method_offsets_index s < length (method_offsets oc)"
      and rj: "method_offsets oc ! method_offsets_index s = r"
      using Cons.prems rs by (auto simp: nth_append)
    note S2 = S[unfolded ci Some, simplified, rule_format, OF j, unfolded rj]
    show ?thesis
    proof (cases "A (GetOatMethodOffsetsOffsetFromOatHeader oc i) cm r (\<alpha> s)")
      case (Inl e)
      then show ?thesis using S2 Some by (simp add: ms rs method_events_Cons)
    next
      case (Inr res)
      obtain ok r' a' where res: "res = (ok, (r', a'))" by (cases res) auto
      from S2 Inr res obtain s1 where pm: "ProcessMethod P i m s = Inr (ok, s1)" and a1: "\<alpha> s1 = a'"
        and ok1: "ok \<longrightarrow> oat_classes (writer s1) = ?ocs[?k := oc\<lparr> method_offsets := (method_offsets oc)[method_offsets_index s := r'] \<rparr>]
                        \<and> oat_class_index s1 = ?k \<and> method_offsets_index s1 = Suc (method_offsets_index s)"
        by auto
      show ?thesis
      proof (cases ok)
        case False
        then show ?thesis using pm a1 Inr res Some by (simp add: ms rs method_events_Cons)
      next
        case True
        let ?oc1 = "oc\<lparr> method_offsets := (method_offsets oc)[method_offsets_index s := r'] \<rparr>"
        have k1: "oat_class_index s1 < length (oat_classes (writer s1))"
          using ok1 True Cons.prems(1) by simp
        have oc1: "?oc1 = oat_classes (writer s1) ! oat_class_index s1"
          using ok1 True Cons.prems(1) by simp
        have cm1: "compiled_methods ?oc1 = (pre @ [Some cm]) @ cms" using Cons.prems Some by simp
        have mo1: "method_offsets ?oc1 = (rpre @ [r']) @ rs2"
          using Cons.prems rs by (simp add: list_update_append)
        have l1: "length (rpre @ [r']) = method_offsets_index s1" using ok1 True Cons.prems by simp
        note IH = Cons.IH[OF k1 oc1 cm1 _ lms mo1 l1 nc, of "Suc i", simplified a1]
        have upd: "\<And>x. (oat_classes (writer s1))[oat_class_index s1 := oc\<lparr> method_offsets := x \<rparr>]
                 = ?ocs[?k := oc\<lparr> method_offsets := x \<rparr>]"
          using ok1 True by simp
        show ?thesis
        proof (cases "steps A (flat_from oc (Suc i) cms) rs2 a'")
          case (Inl e)
          then show ?thesis using IH Cons.prems(4) pm Inr res True Some
            by (simp add: ms rs method_events_Cons)
        next
          case (Inr res2)
          obtain ok2 rs'' a'' where res2: "res2 = (ok2, (rs'', a''))" by (cases res2) auto
          from IH Cons.prems(4) Inr res2 obtain s2 where
            r2: "run P (method_events (Suc i) ms') s1 = Inr (ok2, s2)" and a2: "\<alpha> s2 = a''"
            and ok2: "ok2 \<longrightarrow> oat_classes (writer s2) = ?ocs[?k := oc\<lparr> method_offsets := (rpre @ [r']) @ rs'' @ drop (length rs'') rs2 \<rparr>]
                       \<and> oat_class_index s2 = oat_class_index s1
                       \<and> method_offsets_index s2 = method_offsets_index s1 + length rs''
                       \<and> length rs'' = num_compiled cms"
            by (auto simp: upd)
          show ?thesis
            using pm True \<open>A (GetOatMethodOffsetsOffsetFromOatHeader oc i) cm r (\<alpha> s) = Inr res\<close> res Inr res2 r2 a2 ok2 ok1 Some
            by (auto simp: ms rs method_events_Cons num_compiled_def)
        qed
      qed
    qed
  qed
qed

lemma traversal_events_all_classes: "traversal_events dfs = classes_run (all_classes dfs)"
  by (induction dfs)
     (simp_all add: traversal_events_def all_classes_def classes_run_def classes_events_def
        comp_def case_prod_unfold)

lemma steps_append:
  "length rs1 = length ms1 \<Longrightarrow>
   steps A (ms1 @ ms2) (rs1 @ rs2) a =
     (case steps A ms1 rs1 a of
        Inl e \<Rightarrow> Inl e
      | Inr (ok, (rs1', a')) \<Rightarrow>
          if \<not> ok then Inr (False, (rs1', a'))
          else (case steps A ms2 rs2 a' of
                  Inl e \<Rightarrow> Inl e
                | Inr (ok2, (rs2', a'')) \<Rightarrow> Inr (ok2, (rs1' @ rs2', a''))))"
proof (induction ms1 arbitrary: rs1 a)
  case Nil
  then show ?case by (auto split: sum.splits)
next
  case (Cons m ms1)
  obtain fx cm where m: "m = (fx, cm)" by (cases m)
  from Cons.prems obtain r rs1' where rs1: "rs1 = r # rs1'" and l: "length rs1' = length ms1"
    by (cases rs1) auto
  show ?case
    by (auto simp: m rs1 Cons.IH[OF l] split: sum.splits)
qed

lemma sim_class:
  assumes sim: "simulates (ProcessMethod P) A \<alpha>" and idx: "index_free \<alpha>"
    and st: "StartClass P = OatDexMethodProcessor_StartClass"
    and en: "EndClass P = OatDexMethodProcessor_EndClass"
    and k: "oat_class_index s < length (oat_classes (writer s))"
    and oc: "oc = oat_classes (writer s) ! oat_class_index s"
    and fits: "class_fits (d, kk, cd) oc"
  shows "case steps A (class_flat oc) (method_offsets oc) (\<alpha> s) of
           Inl e \<Rightarrow> run P (class_events d kk cd) s = Inl e
         | Inr (ok, (rs', a')) \<Rightarrow>
             (\<exists>s'. run P (class_events d kk cd) s = Inr (ok, s') \<and> \<alpha> s' = a' \<and>
                (ok \<longrightarrow> oat_classes (writer s') = (oat_classes (writer s))[oat_class_index s := oc\<lparr> method_offsets := rs' \<rparr>]
                      \<and> oat_class_index s' = Suc (oat_class_index s)
                      \<and> length rs' = length (method_offsets oc)))"
proof -
  let ?s1 = "(DexMethodProcessor_StartClass d kk s)\<lparr> method_offsets_index := 0 \<rparr>"
  have a1: "\<alpha> ?s1 = \<alpha> s"
    using idx by (simp add: index_free_def DexMethodProcessor_StartClass_def)
  have w1: "writer ?s1 = writer s" "oat_class_index ?s1 = oat_class_index s" "method_offsets_index ?s1 = 0"
    by (simp_all add: DexMethodProcessor_StartClass_def)
  have start: "callback P (EvStartClass d kk) s = Inr (True, ?s1)"
    by (simp add: st OatDexMethodProcessor_StartClass_def)
  have k1: "oat_class_index ?s1 < length (oat_classes (writer ?s1))" using k w1 by simp
  have oc1: "oc = oat_classes (writer ?s1) ! oat_class_index ?s1" using oc w1 by simp
  have len: "length (class_data_methods cd) = length (compiled_methods oc)"
    and nc: "num_compiled (compiled_methods oc) \<le> length (method_offsets oc)"
    and nceq: "length (method_offsets oc) = num_compiled (compiled_methods oc)"
    using fits by (simp_all add: class_fits_def)
  note M = sim_methods[OF sim k1 oc1, of "[]" "compiled_methods oc" 0 "class_data_methods cd" "[]" "method_offsets oc",
      simplified w1 a1, simplified, OF len nc, folded class_flat_def]
  have endc: "\<And>s2. callback P EvEndClass s2 = Inr (True, s2\<lparr> oat_class_index := Suc (oat_class_index s2) \<rparr>)"
    by (simp add: en OatDexMethodProcessor_EndClass_def)
  have aend: "\<And>s2 n. \<alpha> (s2\<lparr> oat_class_index := n \<rparr>) = \<alpha> s2"
    using idx by (simp add: index_free_def)
  show ?thesis
  proof (cases "steps A (class_flat oc) (method_offsets oc) (\<alpha> s)")
    case (Inl e)
    then show ?thesis using M start
      by (simp add: class_events_def run_append del: callback.simps)
  next
    case (Inr res)
    obtain ok rs' a' where res: "res = (ok, (rs', a'))" by (cases res) auto
    from M Inr res obtain s2 where r2: "run P (method_events 0 (class_data_methods cd)) ?s1 = Inr (ok, s2)"
      and a2: "\<alpha> s2 = a'"
      and ok2: "ok \<longrightarrow> oat_classes (writer s2) = (oat_classes (writer s))[oat_class_index s := oc\<lparr> method_offsets := rs' @ drop (length rs') (method_offsets oc) \<rparr>]
                 \<and> oat_class_index s2 = oat_class_index s \<and> method_offsets_index s2 = length rs'
                 \<and> length rs' = num_compiled (compiled_methods oc)"
      by auto
    show ?thesis
      using Inr res start r2 a2 ok2 nceq
      by (auto simp: class_events_def run_append endc aend simp del: callback.simps)
  qed
qed

lemma sim_classes:
  assumes sim: "simulates (ProcessMethod P) A \<alpha>" and idx: "index_free \<alpha>"
    and st: "StartClass P = OatDexMethodProcessor_StartClass"
    and en: "EndClass P = OatDexMethodProcessor_EndClass"
  shows "list_all2 class_fits cl todo \<Longrightarrow>
         oat_classes (writer s) = dn @ todo \<Longrightarrow> oat_class_index s = length dn \<Longrightarrow>
         (case steps A (concat (map class_flat todo)) (concat (map method_offsets todo)) (\<alpha> s) of
            Inl e \<Rightarrow> run P (classes_run cl) s = Inl e
          | Inr (ok, (rs', a')) \<Rightarrow>
              (\<exists>s'. run P (classes_run cl) s = Inr (ok, s') \<and> \<alpha> s' = a' \<and>
                 (ok \<longrightarrow> oat_classes (writer s') = dn @ set_records todo rs'
                       \<and> oat_class_index s' = length dn + length todo
                       \<and> length rs' = length (concat (map method_offsets todo)))))"
proof (induction cl todo arbitrary: dn s rule: list_all2_induct)
  case Nil
  then show ?case by (simp add: classes_run_def)
next
  case (Cons c cl oc todo)
  obtain d kk cd where c: "c = (d, kk, cd)" by (cases c) auto
  have k: "oat_class_index s < length (oat_classes (writer s))" using Cons.prems by simp
  have oc: "oc = oat_classes (writer s) ! oat_class_index s" using Cons.prems by simp
  note C = sim_class[OF sim idx st en k oc Cons.hyps(1)[unfolded c]]
  have lf: "length (method_offsets oc) = length (class_flat oc)"
    using Cons.hyps(1) by (simp add: class_fits_def class_flat_def)
  have ev: "classes_run (c # cl) = class_events d kk cd @ classes_run cl"
    by (simp add: classes_run_def c)
  show ?case
  proof (cases "steps A (class_flat oc) (method_offsets oc) (\<alpha> s)")
    case (Inl e)
    then show ?thesis using C by (simp add: ev run_append steps_append[OF lf])
  next
    case (Inr res)
    obtain ok rs1 a1 where res: "res = (ok, (rs1, a1))" by (cases res) auto
    from C Inr res obtain s1 where r1: "run P (class_events d kk cd) s = Inr (ok, s1)" and a1: "\<alpha> s1 = a1"
      and ok1: "ok \<longrightarrow> oat_classes (writer s1) = (oat_classes (writer s))[oat_class_index s := oc\<lparr> method_offsets := rs1 \<rparr>]
                 \<and> oat_class_index s1 = Suc (oat_class_index s) \<and> length rs1 = length (method_offsets oc)"
      by auto
    show ?thesis
    proof (cases ok)
      case False
      then show ?thesis using Inr res r1 a1 by (simp add: ev run_append steps_append[OF lf])
    next
      case True
      have w1: "oat_classes (writer s1) = (dn @ [oc\<lparr> method_offsets := rs1 \<rparr>]) @ todo"
        using ok1 True Cons.prems by (simp add: list_update_append)
      have i1: "oat_class_index s1 = length (dn @ [oc\<lparr> method_offsets := rs1 \<rparr>])"
        using ok1 True Cons.prems by simp
      note IH = Cons.IH[OF w1 i1, simplified a1]
      show ?thesis
      proof (cases "steps A (concat (map class_flat todo)) (concat (map method_offsets todo)) a1")
        case (Inl e)
        then show ?thesis using IH Inr res True r1
          by (simp add: ev run_append steps_append[OF lf])
      next
        case (Inr res2)
        obtain ok2 rs2 a2 where res2: "res2 = (ok2, (rs2, a2))" by (cases res2) auto
        show ?thesis
          using IH Inr res2 \<open>steps A (class_flat oc) (method_offsets oc) (\<alpha> s) = Inr res\<close> res True r1 ok1
          by (auto simp: ev run_append steps_append[OF lf])
      qed
    qed
  qed
qed

lemma sim_traversal:
  assumes sim: "simulates (ProcessMethod P) A \<alpha>" and idx: "index_free \<alpha>"
    and st: "StartClass P = OatDexMethodProcessor_StartClass"
    and en: "EndClass P = OatDexMethodProcessor_EndClass"
    and shape: "shape_ok dfs (oat_classes (writer s))" and k0: "oat_class_index s = 0"
  shows "case steps A (flat_methods (oat_classes (writer s))) (flat_records (oat_classes (writer s))) (\<alpha> s) of
            Inl e \<Rightarrow> ProcessDexMethods P dfs s = Inl e
          | Inr (ok, (rs', a')) \<Rightarrow>
              (\<exists>s'. ProcessDexMethods P dfs s = Inr (ok, s') \<and> \<alpha> s' = a' \<and>
                 (ok \<longrightarrow> oat_classes (writer s') = set_records (oat_classes (writer s)) rs'
                       \<and> length rs' = length (flat_records (oat_classes (writer s)))))"
  using sim_classes[OF sim idx st en shape[unfolded shape_ok_def], of s "[]"] k0
  by (auto simp: ProcessDexMethods_run traversal_events_all_classes flat_methods_def flat_records_def
      split: sum.splits)

lemma index_free_init: "index_free abs_init"
  by (simp add: index_free_def abs_init_def)


lemma binder_laws:
  "GetMap (binder_of K) = blob_of K"
  "GetOffset (binder_of K) oc j = get_field K (method_offsets oc ! j)"
  "SetOffset (binder_of K) oc j v = oc\<lparr> method_offsets := (method_offsets oc)[j := put_field K (u32 v) (method_offsets oc ! j)] \<rparr>"
  "GetDedupeMap (binder_of K) = dedupe_of K"
  "PutDedupeMap (binder_of K) k v w = put_dedupe K ((dedupe_of K w)(k \<mapsto> v)) w"
  by (cases K; simp add: GcMapBinder_def MappingTableBinder_def VmapTableBinder_def fun_eq_iff)+

lemma put_dedupe_fields [simp]:
  "oat_classes (put_dedupe K m w) = oat_classes w"
  "oat_header (put_dedupe K m w) = oat_header w"
  "compiler_driver (put_dedupe K m w) = compiler_driver w"
  "code_offsets (put_dedupe K m w) = code_offsets w"
  "dex_files (put_dedupe K m w) = dex_files w"
  "oat_dex_files (put_dedupe K m w) = oat_dex_files w"
  "(put_dedupe K m w)\<lparr> oat_classes := x \<rparr> = put_dedupe K m (w\<lparr> oat_classes := x \<rparr>)"
  "dedupe_of K (w\<lparr> oat_classes := x \<rparr>) = dedupe_of K w"
  "dedupe_of K (put_dedupe K m w) = m"
  by (cases K; simp)+

lemma simulates_init_code: "simulates InitCode_ProcessMethod init_code_step abs_init"
  unfolding simulates_def
  by (auto simp: InitCode_ProcessMethod_def InitCode_quick_code_offset_def init_code_step_def
      init_code_offset_def abs_init_def Let_def split: option.splits sum.splits)

lemma simulates_init_map: "simulates (InitMap_ProcessMethod (binder_of K)) (init_map_step K) abs_init"
  unfolding simulates_def
  apply (auto simp: InitMap_ProcessMethod_def init_map_step_def abs_init_def Let_def binder_laws
      split: option.splits)
  apply (cases K; simp)
  done







section \<open>The passes over the methods compute the pure layout\<close>

lemma add_checksum_simps [simp]:
  "add_checksum [] w = w"
  "add_checksum cs (add_checksum cs' w) = add_checksum (cs' @ cs) w"
  "compiler_driver (add_checksum cs w) = compiler_driver w"
  "oat_classes (add_checksum cs w) = oat_classes w"
  "dedupe_of K (add_checksum cs w) = dedupe_of K w"
  "code_offsets (add_checksum cs w) = code_offsets w"
  "put_dedupe K D (add_checksum cs w) = add_checksum cs (put_dedupe K D w)"
  by (cases K; simp add: add_checksum_def)+

lemma put_dedupe_simps [simp]:
  "put_dedupe K (dedupe_of K w) w = w"
  "put_dedupe K D (put_dedupe K D' w) = put_dedupe K D w"
  by (cases K; simp)+

lemma UpdateChecksum_add: "w\<lparr> oat_header := UpdateChecksum c (oat_header w) \<rparr> = add_checksum [c] w"
  by (simp add: add_checksum_def UpdateChecksum_def)

lemma init_map_step_apply:
  "init_map_step K fx cm r (off, w) =
     (let map_bytes = vector_at (compiler_driver w) (blob_of K cm); map_size = u32 (length map_bytes) in
      if map_size \<noteq> 0 then
        (case dedupe_of K w (blob_of K cm) of
           Some found \<Rightarrow> Inr (True, (put_field K (u32 found) r, (off, w)))
         | None \<Rightarrow>
             Inr (True, (put_field K (u32 off) r,
                         (off + map_size,
                          add_checksum [Bytes (take map_size map_bytes)]
                            (put_dedupe K ((dedupe_of K w)(blob_of K cm \<mapsto> u32 off)) w)))))
      else Inr (True, (r, (off, w))))"
  by (simp add: init_map_step_def Let_def UpdateChecksum_add split: option.split)

lemma steps_init_map:
  "length ms \<le> length rs \<Longrightarrow>
   steps (init_map_step K) ms rs (off, w) =
     (case map_pass K (compiler_driver w) (map snd ms) rs (dedupe_of K w) off of
        (rs', D', off', cs) \<Rightarrow> Inr (True, (rs', (off', add_checksum cs (put_dedupe K D' w)))))"
proof (induction ms arbitrary: rs off w)
  case Nil
  then show ?case by simp
next
  case (Cons m ms)
  obtain fx cm where m: "m = (fx, cm)" by (cases m)
  from Cons.prems obtain r rs2 where rs: "rs = r # rs2" and l: "length ms \<le> length rs2"
    by (cases rs) auto
  note IH = Cons.IH[OF l]
  show ?case
    by (simp add: m rs init_map_step_apply Let_def IH fun_upd_def split: option.split prod.split)
qed

lemma u32_id: "n < 2 ^ 32 \<Longrightarrow> u32 n = n"
  by (simp add: u32_def)

lemma u32_le: "u32 n \<le> n"
  by (simp add: u32_def)

lemma map_pass_Cons_cases:
  assumes "map_pass K drv (cm # cms) (r # rs) D off = (rs', D', off', cs)"
  obtains (empty) rs1 where "u32 (length (vector_at drv (blob_of K cm))) = 0"
      "map_pass K drv cms rs D off = (rs1, D', off', cs)" "rs' = r # rs1"
  | (found) v rs1 where "u32 (length (vector_at drv (blob_of K cm))) \<noteq> 0" "D (blob_of K cm) = Some v"
      "map_pass K drv cms rs D off = (rs1, D', off', cs)" "rs' = put_field K (u32 v) r # rs1"
  | (new) rs1 cs1 where "u32 (length (vector_at drv (blob_of K cm))) \<noteq> 0" "D (blob_of K cm) = None"
      "map_pass K drv cms rs (D(blob_of K cm \<mapsto> u32 off)) (off + u32 (length (vector_at drv (blob_of K cm))))
         = (rs1, D', off', cs1)"
      "rs' = put_field K (u32 off) r # rs1"
      "cs = Bytes (take (u32 (length (vector_at drv (blob_of K cm)))) (vector_at drv (blob_of K cm))) # cs1"
  using assms by (auto simp: Let_def split: if_splits option.splits prod.splits)

lemma min_u32 [simp]: "min n (u32 n) = u32 n" "min (u32 n) n = u32 n"
  using u32_le[of n] by simp_all

lemma map_pass_length:
  "length cms \<le> length rs \<Longrightarrow> map_pass K drv cms rs D off = (rs', D', off', cs) \<Longrightarrow>
   length rs' = length cms \<and> off \<le> off' \<and> off' = off + chunks_size cs"
proof (induction cms arbitrary: rs D off rs' D' off' cs)
  case Nil
  then show ?case by (simp add: chunks_size_def)
next
  case (Cons cm cms)
  from Cons.prems obtain r rs2 where rs: "rs = r # rs2" and l: "length cms \<le> length rs2"
    by (cases rs) auto
  from Cons.prems(2)[unfolded rs] show ?case
  proof (cases rule: map_pass_Cons_cases)
    case (empty rs1)
    with Cons.IH[OF l empty(2)] show ?thesis by simp
  next
    case (found v rs1)
    with Cons.IH[OF l found(3)] show ?thesis by simp
  next
    case (new rs1 cs1)
    with Cons.IH[OF l new(3)] show ?thesis by (simp add: chunks_size_def)
  qed
qed



lemma get_put_field [simp]: "get_field K (put_field K v r) = v"
  by (cases K; simp)

lemma WriteFully_cases:
  "WriteFully c os = (ok, os1) \<Longrightarrow>
   (\<not> ok \<and> os1 = os) \<or>
   (ok \<and> os1 = os\<lparr> written := written os @ [(position os, c)], position := position os + chunk_size c \<rparr>)"
  by (auto simp: WriteFully_def split: if_splits)


lemma code_writer_simps [simp]:
  "code_writer (code_offsets w) [] [] w = w"
  "code_writer C cs fxs (code_writer C1 cs1 fxs1 w) = code_writer C (cs1 @ cs) (fxs1 @ fxs) w"
  "compiler_driver (code_writer C cs fxs w) = compiler_driver w"
  "code_offsets (code_writer C cs fxs w) = C"
  by (simp_all add: code_writer_def add_checksum_def)

lemma init_code_step_apply:
  "init_code_step fx cm r (off, w) =
     (case code_offset_step (compiler_driver w) fx cm (code_offsets w) off of
        Inl e \<Rightarrow> Inl e
      | Inr (qco, C1, off1, cs1, ws1, fxs1) \<Rightarrow>
          Inr (True, (new_record cm qco, (off1, code_writer C1 cs1 fxs1 w))))"
  by (simp add: init_code_step_def init_code_offset_def code_offset_step_def new_record_def
      code_writer_def add_checksum_def UpdateChecksum_def Let_def
      split: option.split sum.split)

lemma steps_init_code:
  "steps init_code_step ms rs (off, w) =
     (case code_pass (compiler_driver w) ms rs (code_offsets w) off of
        Inl e \<Rightarrow> Inl e
      | Inr (rs', C', off', cs, ws, fxs) \<Rightarrow> Inr (True, (rs', (off', code_writer C' cs fxs w))))"
proof (induction ms arbitrary: rs off w)
  case Nil
  then show ?case by simp
next
  case (Cons m ms)
  obtain fx cm where m: "m = (fx, cm)" by (cases m)
  show ?case
  proof (cases rs)
    case Nil
    then show ?thesis by (simp add: m)
  next
    case (Cons r rs2)
    show ?thesis
      by (simp add: m Cons init_code_step_apply Cons.IH split: sum.split prod.split)
  qed
qed

lemma RoundUp_8: "RoundUp x 8 = ((x + 7) div 8) * 8"
  unfolding RoundUp_def by simp
lemma RoundUp_16: "RoundUp x 16 = ((x + 15) div 16) * 16"
  unfolding RoundUp_def by simp
lemma RoundUp_page: "RoundUp x kPageSize = ((x + 4095) div 4096) * 4096"
  unfolding RoundUp_def kPageSize_def by simp

lemma AlignCode_cases:
  assumes "AlignCode off isa = Inr a"
  obtains "a = RoundUp off 8" | "a = RoundUp off 16"
  using assms
  by (cases isa) (auto simp: kArmAlignment_def kArm64Alignment_def kMipsAlignment_def kX86Alignment_def)

lemma RoundUp_8_le: "off \<le> RoundUp off 8" unfolding RoundUp_8 by presburger
lemma RoundUp_16_le: "off \<le> RoundUp off 16" unfolding RoundUp_16 by presburger
lemma RoundUp_8_lt: "RoundUp off 8 < off + 16" unfolding RoundUp_8 by presburger
lemma RoundUp_16_lt: "RoundUp off 16 < off + 16" unfolding RoundUp_16 by presburger
lemma RoundUp_8_mod: "RoundUp off 8 mod 8 = 0" unfolding RoundUp_8 by simp
lemma RoundUp_16_mod: "RoundUp off 16 mod 8 = 0" unfolding RoundUp_16 by presburger
lemma RoundUp_8_16: "RoundUp off 8 \<le> RoundUp off 16" unfolding RoundUp_8 RoundUp_16 by presburger

lemma AlignCode_facts:
  assumes "AlignCode off isa = Inr a"
  shows "off \<le> a" "a < off + 16" "a mod 8 = 0" "RoundUp off 8 \<le> a"
  using assms
  by (auto elim!: AlignCode_cases simp: RoundUp_8_le RoundUp_16_le RoundUp_8_lt RoundUp_16_lt
      RoundUp_8_mod RoundUp_16_mod RoundUp_8_16)

lemma RoundUp_8_aligned: "a mod 8 = 0 \<Longrightarrow> RoundUp a 8 = a"
proof -
  assume "a mod 8 = 0"
  then obtain k where "a = 8 * k" by auto
  then show ?thesis unfolding RoundUp_8 by simp
qed




lemma code_offset_step_cases:
  assumes "code_offset_step drv fx cm C off = Inr (qco, C1, off1, cs1, ws1, fxs1)"
  obtains (portable) pc fxo where "GetPortableCode cm = Some pc" "GetQuickCode cm = None" "fx = Inr fxo"
      "qco = 0" "C1 = C" "off1 = off" "cs1 = []" "ws1 = []" "fxs1 = [fxo + offsetof_code_offset]"
  | (found) qc aligned v where "GetPortableCode cm = None" "GetQuickCode cm = Some qc"
      "AlignCode off (GetInstructionSet cm) = Inr aligned" "u32 (length (vector_at drv qc)) \<noteq> 0"
      "C qc = Some v" "qco = v" "C1 = C" "off1 = aligned" "cs1 = []"
      "ws1 = padding_chunks (aligned - off)" "fxs1 = []"
  | (new) qc aligned where "GetPortableCode cm = None" "GetQuickCode cm = Some qc"
      "AlignCode off (GetInstructionSet cm) = Inr aligned" "u32 (length (vector_at drv qc)) \<noteq> 0"
      "C qc = None"
      "qco = u32 (aligned + sizeof_OatMethodHeader + CodeDelta (GetInstructionSet cm))"
      "C1 = C(qc \<mapsto> qco)"
      "off1 = aligned + sizeof_OatMethodHeader + u32 (length (vector_at drv qc))"
      "cs1 = [MethodHeader (u32 (length (vector_at drv qc))),
              Bytes (take (u32 (length (vector_at drv qc))) (vector_at drv qc))]"
      "ws1 = padding_chunks (aligned - off) @ cs1" "fxs1 = []"
proof (cases "GetPortableCode cm")
  case (Some pc)
  with assms show ?thesis
    by (intro portable[of pc "projr fx"]; cases fx; cases "GetQuickCode cm")
       (simp_all add: code_offset_step_def)
next
  case None
  note pn = this
  show ?thesis
  proof (cases "GetQuickCode cm")
    case None
    with assms pn show ?thesis by (simp add: code_offset_step_def)
  next
    case (Some qc)
    note q = this
    show ?thesis
    proof (cases "AlignCode off (GetInstructionSet cm)")
      case (Inl e)
      with assms pn q show ?thesis by (simp add: code_offset_step_def)
    next
      case (Inr aligned)
      note al = this
      show ?thesis
      proof (cases "u32 (length (vector_at drv qc)) = 0")
        case True
        with assms pn q al show ?thesis by (simp add: code_offset_step_def)
      next
        case False
        note nz = this
        show ?thesis
        proof (cases "C qc")
          case None
          with assms pn q al nz show ?thesis
            by (intro new[of qc aligned]) (auto simp: code_offset_step_def Let_def)
        next
          case (Some v)
          with assms pn q al nz show ?thesis
            by (intro found[of qc aligned v]) (auto simp: code_offset_step_def Let_def)
        qed
      qed
    qed
  qed
qed

lemma code_pass_Cons_cases:
  assumes "code_pass drv ((fx, cm) # ms) (r # rs) C off = Inr (rs', C', off', cs, ws, fxs)"
  obtains qco C1 off1 cs1 ws1 fxs1 rs1 cs2 ws2 fxs2 where
    "code_offset_step drv fx cm C off = Inr (qco, C1, off1, cs1, ws1, fxs1)"
    "code_pass drv ms rs C1 off1 = Inr (rs1, C', off', cs2, ws2, fxs2)"
    "rs' = new_record cm qco # rs1" "cs = cs1 @ cs2" "ws = ws1 @ ws2" "fxs = fxs1 @ fxs2"
  using assms by (auto split: sum.splits)

lemma code_offset_step_mono:
  "code_offset_step drv fx cm C off = Inr (qco, C1, off1, cs1, ws1, fxs1) \<Longrightarrow> off \<le> off1"
  by (erule code_offset_step_cases) (auto dest: AlignCode_facts(1))

lemma code_pass_mono:
  "code_pass drv ms rs C off = Inr (rs', C', off', cs, ws, fxs) \<Longrightarrow> off \<le> off' \<and> length rs' = length ms"
proof (induction ms arbitrary: rs C off rs' cs ws fxs)
  case Nil
  then show ?case by simp
next
  case (Cons m ms)
  obtain fx cm where m: "m = (fx, cm)" by (cases m)
  from Cons.prems obtain r rs2 where rs: "rs = r # rs2"
    by (cases rs) (auto simp: m)
  from Cons.prems[unfolded m rs] show ?case
  proof (cases rule: code_pass_Cons_cases)
    case (1 qco C1 off1 cs1 ws1 fxs1 rs1 cs2 ws2 fxs2)
    from Cons.IH[OF 1(2)] code_offset_step_mono[OF 1(1)] 1(3) show ?thesis by simp
  qed
qed






section \<open>The stages of the two passes\<close>

subsection \<open>No dex files\<close>

lemma clear_trampoline_offsets_fields [simp]:
  "executable_offset (clear_trampoline_offsets ts h) = executable_offset h"
  "checksum_data (clear_trampoline_offsets ts h) = checksum_data h"
  by (induction ts arbitrary: h) (simp_all add: SetTrampolineOffset_def)

lemma RoundUp_page_ge: "x \<le> RoundUp x kPageSize"
proof -
  have "x \<le> (x + 4095) div 4096 * 4096"
    using div_mult_mod_eq[of "x + 4095" 4096] mod_less_divisor[of 4096 "x + 4095"] by linarith
  then show ?thesis by (simp add: RoundUp_page)
qed

lemma WriteTables_empty:
  "oat_dex_files w = [] \<Longrightarrow> oat_classes w = [] \<Longrightarrow> WriteTables w os fo = Inr (True, os)"
  by (simp add: WriteTables_def)

lemma WriteCodeDexFiles_empty:
  "dex_files w = [] \<Longrightarrow> r \<noteq> 0 \<Longrightarrow> WriteCodeDexFiles w os fo r = Inr (r, os)"
  by (simp add: WriteCodeDexFiles_def WriteCodeDexFiles_PROCESS_def ProcessDexMethods_run
      traversal_events_def WriteMethodProcessor_new_def)

lemma OatWriter_new_empty:
  assumes img: "\<not> IsImage drv" and loc: "loc \<noteq> []"
  shows "\<exists>w. OatWriter_new [] loc drv = Inr w
           \<and> compiler_driver w = drv \<and> dex_files w = [] \<and> image_file_location w = loc
           \<and> oat_dex_files w = [] \<and> oat_classes w = []
           \<and> checksum_data (oat_header w) = []
           \<and> executable_offset (oat_header w) = u32 (RoundUp (sizeof_OatHeader + length loc) kPageSize)
           \<and> size_executable_offset_alignment w
                = RoundUp (sizeof_OatHeader + length loc) kPageSize - (sizeof_OatHeader + length loc)
           \<and> oat_size w = RoundUp (sizeof_OatHeader + length loc) kPageSize"
  using img loc
  by (simp add: OatWriter_new_def InitOatHeader_def InitOatDexFiles_def InitDexFiles_def
      InitOatClasses_def ProcessDexMethods_run traversal_events_def InitOatCode_def
      InitOatCodeDexFiles_def InitOatCodeDexFiles_PROCESS_def OatDexMethodProcessor_new_def
      Let_def SetExecutableOffset_def OatHeader_new_def)

subsection \<open>The sequence of write traversals\<close>

lemma WriteCodeDexFiles_process_all:
  "WriteCodeDexFiles w os file_off r = process_all write_processors w file_off (r, os)"
  by (simp add: WriteCodeDexFiles_def write_processors_def split: sum.split prod.split)

lemma process_all_append:
  "process_all (Ps @ Qs) w fo ro =
     (case process_all Ps w fo ro of
        Inl e \<Rightarrow> Inl e
      | Inr (r1, os1) \<Rightarrow> if r1 = 0 \<and> Ps \<noteq> [] then Inr (0, os1) else process_all Qs w fo (r1, os1))"
  by (induction Ps arbitrary: ro) (auto split: sum.split prod.split)

lemma run_stops:
  assumes "run P pre s = Inr (True, s1)" and "callback P e s1 = Inr (False, s2)"
  shows "run P (pre @ e # post) s = Inr (False, s2)"
  using assms by (simp add: run_append del: callback.simps)

section \<open>The constructor computes the layout\<close>

lemma class_flat_method_offsets [simp]: "class_flat (oc\<lparr> method_offsets := x \<rparr>) = class_flat oc"
  by (simp add: class_flat_def)

lemma flat_methods_set_records [simp]: "flat_methods (set_records ocs rs) = flat_methods ocs"
  by (induction ocs arbitrary: rs) (simp_all add: flat_methods_def)

lemma flat_records_set_records:
  "length rs = length (flat_records ocs) \<Longrightarrow> flat_records (set_records ocs rs) = rs"
proof (induction ocs arbitrary: rs)
  case Nil
  then show ?case by (simp add: flat_records_def)
next
  case (Cons oc ocs)
  have "length (drop (length (method_offsets oc)) rs) = length (flat_records ocs)"
    using Cons.prems by (simp add: flat_records_def)
  from Cons.IH[OF this] show ?case
    by (simp add: flat_records_def)
qed

lemma set_records_twice:
  "length rs = length (flat_records ocs) \<Longrightarrow> set_records (set_records ocs rs) rs' = set_records ocs rs'"
proof (induction ocs arbitrary: rs rs')
  case Nil
  then show ?case by simp
next
  case (Cons oc ocs)
  have l: "length (drop (length (method_offsets oc)) rs) = length (flat_records ocs)"
    using Cons.prems by (simp add: flat_records_def)
  have m: "min (length rs) (length (method_offsets oc)) = length (method_offsets oc)"
    using Cons.prems by (simp add: flat_records_def)
  show ?case using Cons.IH[OF l] by (simp add: m)
qed

lemma class_fits_set:
  "class_fits c oc \<Longrightarrow> length x = length (method_offsets oc) \<Longrightarrow> class_fits c (oc\<lparr> method_offsets := x \<rparr>)"
  by (simp add: class_fits_def)

lemma list_all2_set_records:
  "list_all2 class_fits cl ocs \<Longrightarrow> length rs = length (flat_records ocs) \<Longrightarrow>
   list_all2 class_fits cl (set_records ocs rs)"
proof (induction cl ocs arbitrary: rs rule: list_all2_induct)
  case Nil
  then show ?case by simp
next
  case (Cons c cl oc ocs)
  have l: "length (drop (length (method_offsets oc)) rs) = length (flat_records ocs)"
    using Cons.prems by (simp add: flat_records_def)
  have m: "min (length rs) (length (method_offsets oc)) = length (method_offsets oc)"
    using Cons.prems by (simp add: flat_records_def)
  show ?case using Cons.IH[OF l] Cons.hyps(1) m by (simp add: class_fits_def)
qed

lemma shape_ok_set_records:
  "shape_ok dfs ocs \<Longrightarrow> length rs = length (flat_records ocs) \<Longrightarrow> shape_ok dfs (set_records ocs rs)"
  unfolding shape_ok_def by (rule list_all2_set_records)

lemma list_all2_flat_length:
  "list_all2 class_fits cl ocs \<Longrightarrow> length (flat_methods ocs) = length (flat_records ocs)"
  by (induction cl ocs rule: list_all2_induct)
     (simp_all add: flat_methods_def flat_records_def class_fits_def class_flat_def)

lemma shape_ok_flat_length:
  "shape_ok dfs ocs \<Longrightarrow> length (flat_methods ocs) = length (flat_records ocs)"
  unfolding shape_ok_def by (rule list_all2_flat_length)

lemma writer_rebuild:
  "w\<lparr> oat_classes := [] \<rparr> = a \<Longrightarrow> oat_classes w = b \<Longrightarrow> w = a\<lparr> oat_classes := b \<rparr>"
  by auto

lemma code_writer_oat_classes [simp]:
  "(code_writer C cs fxs (w\<lparr> oat_classes := x \<rparr>))\<lparr> oat_classes := y \<rparr>
     = (code_writer C cs fxs w)\<lparr> oat_classes := y \<rparr>"
  "code_offsets (w\<lparr> oat_classes := x \<rparr>) = code_offsets w"
  by (simp_all add: code_writer_def add_checksum_def)

lemma add_checksum_oat_classes [simp]:
  "(add_checksum cs (w\<lparr> oat_classes := x \<rparr>))\<lparr> oat_classes := y \<rparr>
     = (add_checksum cs w)\<lparr> oat_classes := y \<rparr>"
  by (simp add: add_checksum_def)

lemma put_dedupe_oat_classes:
  "(add_checksum cs (put_dedupe K D (w\<lparr> oat_classes := x \<rparr>)))\<lparr> oat_classes := y \<rparr>
     = (add_checksum cs (put_dedupe K D w))\<lparr> oat_classes := y \<rparr>"
  by (cases K) (simp_all add: add_checksum_def)

lemma InitCode_PROCESS:
  assumes shape: "shape_ok (dex_files w) (oat_classes w)"
  shows "InitOatCodeDexFiles_PROCESS InitCodeMethodProcessor_vtable (off, w) =
     (case code_pass (compiler_driver w) (flat_methods (oat_classes w)) (flat_records (oat_classes w))
             (code_offsets w) off of
        Inl e \<Rightarrow> Inl e
      | Inr (rs', C', off', cs, ws, fxs) \<Rightarrow>
          Inr (off', (code_writer C' cs fxs w)\<lparr> oat_classes := set_records (oat_classes w) rs' \<rparr>))"
proof -
  let ?s = "OatDexMethodProcessor_new w off"
  have sh: "shape_ok (dex_files w) (oat_classes (writer ?s))" and k0: "oat_class_index ?s = 0"
    using shape by (simp_all add: OatDexMethodProcessor_new_def)
  have P: "ProcessMethod InitCodeMethodProcessor_vtable = InitCode_ProcessMethod"
    "StartClass InitCodeMethodProcessor_vtable = OatDexMethodProcessor_StartClass"
    "EndClass InitCodeMethodProcessor_vtable = OatDexMethodProcessor_EndClass"
    by (simp_all add: InitCodeMethodProcessor_vtable_def)
  have a: "abs_init ?s = (off, w\<lparr> oat_classes := [] \<rparr>)"
    by (simp add: abs_init_def OatDexMethodProcessor_new_def)
  have ws: "writer ?s = w" by (simp add: OatDexMethodProcessor_new_def)
  note sim = sim_traversal[of InitCodeMethodProcessor_vtable init_code_step abs_init,
      unfolded P, OF simulates_init_code index_free_init refl refl sh k0, unfolded a ws]
  show ?thesis
  proof (cases "code_pass (compiler_driver w) (flat_methods (oat_classes w)) (flat_records (oat_classes w))
             (code_offsets w) off")
    case (Inl e)
    with sim show ?thesis
      by (simp add: steps_init_code InitOatCodeDexFiles_PROCESS_def)
  next
    case (Inr x)
    obtain rs' C' off' cs ws fxs where x: "x = (rs', C', off', cs, ws, fxs)" by (cases x)
    from sim Inr x obtain s' where
      p: "ProcessDexMethods InitCodeMethodProcessor_vtable (dex_files w) ?s = Inr (True, s')"
      and ab: "abs_init s' = (off', code_writer C' cs fxs (w\<lparr> oat_classes := [] \<rparr>))"
      and oc: "oat_classes (writer s') = set_records (oat_classes w) rs'"
      by (auto simp: steps_init_code)
    from ab have "offset s' = off'" and "(writer s')\<lparr> oat_classes := [] \<rparr> = code_writer C' cs fxs (w\<lparr> oat_classes := [] \<rparr>)"
      by (simp_all add: abs_init_def)
    from this(1) writer_rebuild[OF this(2) oc] show ?thesis
      using p Inr x by (simp add: InitOatCodeDexFiles_PROCESS_def)
  qed
qed

lemma InitMap_PROCESS:
  assumes shape: "shape_ok (dex_files w) (oat_classes w)"
  shows "InitOatCodeDexFiles_PROCESS (InitMapMethodProcessor_vtable (binder_of K)) (off, w) =
     (case map_pass K (compiler_driver w) (map snd (flat_methods (oat_classes w)))
             (flat_records (oat_classes w)) (dedupe_of K w) off of
        (rs', D', off', cs) \<Rightarrow>
          Inr (off', (add_checksum cs (put_dedupe K D' w))\<lparr> oat_classes := set_records (oat_classes w) rs' \<rparr>))"
proof -
  let ?s = "OatDexMethodProcessor_new w off"
  let ?P = "InitMapMethodProcessor_vtable (binder_of K)"
  have sh: "shape_ok (dex_files w) (oat_classes (writer ?s))" and k0: "oat_class_index ?s = 0"
    using shape by (simp_all add: OatDexMethodProcessor_new_def)
  have P: "ProcessMethod ?P = InitMap_ProcessMethod (binder_of K)"
    "StartClass ?P = OatDexMethodProcessor_StartClass"
    "EndClass ?P = OatDexMethodProcessor_EndClass"
    by (simp_all add: InitMapMethodProcessor_vtable_def)
  have a: "abs_init ?s = (off, w\<lparr> oat_classes := [] \<rparr>)"
    by (simp add: abs_init_def OatDexMethodProcessor_new_def)
  have ws: "writer ?s = w" by (simp add: OatDexMethodProcessor_new_def)
  have len: "length (flat_methods (oat_classes w)) \<le> length (flat_records (oat_classes w))"
    using shape_ok_flat_length[OF shape] by simp
  note sim = sim_traversal[of ?P "init_map_step K" abs_init,
      unfolded P, OF simulates_init_map index_free_init refl refl sh k0, unfolded a ws]
  obtain rs' D' off' cs where x: "map_pass K (compiler_driver w) (map snd (flat_methods (oat_classes w)))
             (flat_records (oat_classes w)) (dedupe_of K w) off = (rs', D', off', cs)"
    by (cases "map_pass K (compiler_driver w) (map snd (flat_methods (oat_classes w)))
             (flat_records (oat_classes w)) (dedupe_of K w) off") auto
  from sim x obtain s' where
    p: "ProcessDexMethods ?P (dex_files w) ?s = Inr (True, s')"
    and ab: "abs_init s' = (off', add_checksum cs (put_dedupe K D' (w\<lparr> oat_classes := [] \<rparr>)))"
    and oc: "oat_classes (writer s') = set_records (oat_classes w) rs'"
    by (auto simp: steps_init_map[OF len])
  from ab have "offset s' = off'" and "(writer s')\<lparr> oat_classes := [] \<rparr> = add_checksum cs (put_dedupe K D' (w\<lparr> oat_classes := [] \<rparr>))"
    by (simp_all add: abs_init_def)
  from this(1) writer_rebuild[OF this(2) oc] show ?thesis
    using p x by (simp add: InitOatCodeDexFiles_PROCESS_def put_dedupe_oat_classes)
qed

lemma sizes_simps [simp]:
  "sizes f [] = 0" "sizes f (x # xs) = f x + sizes f xs" "sizes f (xs @ ys) = sizes f xs + sizes f ys"
  by (simp_all add: sizes_def)

lemma InitOatDexFiles_loop_eq:
  "InitOatDexFiles_loop ds (off, w) =
     (off + sizes OatDexFile_SizeOf (new_oat_dex_files off ds),
      w\<lparr> oat_dex_files := oat_dex_files w @ new_oat_dex_files off ds \<rparr>)"
  by (induction ds arbitrary: off w) (simp_all add: Let_def add.assoc)

lemma InitDexFiles_loop_eq:
  "i + length ds = length (oat_dex_files w) \<Longrightarrow>
   InitDexFiles_loop ds i (off, w) =
     Inr (dex_files_end ds off,
          w\<lparr> oat_dex_files := take i (oat_dex_files w)
                 @ map2 (\<lambda>odf o1. odf\<lparr> dex_file_offset := u32 o1 \<rparr>)
                     (drop i (oat_dex_files w)) (dex_file_offsets ds off) \<rparr>)"
proof (induction ds arbitrary: i off w)
  case Nil
  then show ?case by simp
next
  case (Cons d ds)
  let ?odfs = "oat_dex_files w"
  let ?o1 = "RoundUp off 4"
  let ?w1 = "w\<lparr> oat_dex_files := ?odfs[i := (?odfs ! i)\<lparr> dex_file_offset := u32 ?o1 \<rparr>] \<rparr>"
  have i: "i < length ?odfs" using Cons.prems by simp
  have l: "Suc i + length ds = length (oat_dex_files ?w1)" using Cons.prems by simp
  have t: "take (Suc i) (?odfs[i := (?odfs ! i)\<lparr> dex_file_offset := u32 ?o1 \<rparr>])
             = take i ?odfs @ [(?odfs ! i)\<lparr> dex_file_offset := u32 ?o1 \<rparr>]"
    using i by (simp add: take_Suc_conv_app_nth)
  have d: "drop (Suc i) (oat_dex_files ?w1) = drop (Suc i) ?odfs" by simp
  have c: "drop i ?odfs = ?odfs ! i # drop (Suc i) ?odfs"
    using i by (simp add: Cons_nth_drop_Suc)
  show ?case
    using i by (simp add: Let_def Cons.IH[OF l] t d c)
qed

lemma InitOatClasses_run:
  "\<exists>s'. run InitOatClassesMethodProcessor_vtable (classes_run cl) s = Inr (True, s')
     \<and> writer s' = (writer s)\<lparr> oat_classes := oat_classes (writer s)
                        @ new_classes (compiler_driver (writer s)) (offset s) cl \<rparr>
     \<and> offset s' = offset s + sizes OatClass_SizeOf (new_classes (compiler_driver (writer s)) (offset s) cl)"
proof (induction cl arbitrary: s)
  case Nil
  then show ?case by (simp add: classes_run_def)
next
  case (Cons c cl)
  obtain d k cd where c: "c = (d, k, cd)" by (cases c)
  let ?s1 = "s\<lparr> dex_file := Some d, class_def_index := k,
                    proc_compiled_methods := class_compiled_methods (compiler_driver (writer s)) d cd,
                    num_non_null_compiled_methods := num_compiled (class_compiled_methods (compiler_driver (writer s)) d cd),
                    writer := (writer s)\<lparr> oat_classes := oat_classes (writer s) @
                                [new_class (compiler_driver (writer s)) (offset s) d k cd] \<rparr>,
                    offset := offset s + OatClass_SizeOf (new_class (compiler_driver (writer s)) (offset s) d k cd) \<rparr>"
  from Cons.IH[of ?s1] obtain s' where
    r: "run InitOatClassesMethodProcessor_vtable (classes_run cl) ?s1 = Inr (True, s')"
    and w: "writer s' = (writer ?s1)\<lparr> oat_classes := oat_classes (writer ?s1)
                        @ new_classes (compiler_driver (writer ?s1)) (offset ?s1) cl \<rparr>"
    and o: "offset s' = offset ?s1 + sizes OatClass_SizeOf (new_classes (compiler_driver (writer ?s1)) (offset ?s1) cl)"
    by blast
  have "run InitOatClassesMethodProcessor_vtable (classes_run (c # cl)) s = Inr (True, s')"
    using r by (simp add: classes_run_def c run_append InitOatClasses_class)
  then show ?case using w o by (simp add: c add.assoc)
qed

lemma InitOatClasses_update_eq:
  "sizes (\<lambda>odf. length (methods_offsets odf)) odfs \<le> length cs \<Longrightarrow>
   InitOatClasses_update odfs cs h =
     Inr (set_methods_offsets odfs cs,
          drop (sizes (\<lambda>odf. length (methods_offsets odf)) odfs) cs,
          h\<lparr> checksum_data := checksum_data h @ concat (map odf_chunks (set_methods_offsets odfs cs)) \<rparr>)"
proof (induction odfs arbitrary: cs h)
  case Nil
  then show ?case by simp
next
  case (Cons odf rest)
  let ?n = "length (methods_offsets odf)"
  have l: "sizes (\<lambda>odf. length (methods_offsets odf)) rest \<le> length (drop ?n cs)"
    using Cons.prems by simp
  have n: "\<not> length cs < ?n" using Cons.prems by simp
  show ?case
    using n
    by (simp add: Let_def Cons.IH[OF l] OatDexFile_UpdateChecksum_def UpdateChecksum_def
        odf_chunks_def add.commute)
qed

lemma InitOatClasses_eq:
  "InitOatClasses off w =
     (let ocs = oat_classes w @ new_classes (compiler_driver w) off (all_classes (dex_files w)) in
      case InitOatClasses_update (oat_dex_files w) ocs (oat_header w) of
        Inl e \<Rightarrow> Inl e
      | Inr (odfs, remaining, h) \<Rightarrow>
          if remaining \<noteq> [] then Inl CheckFailed
          else Inr (off + sizes OatClass_SizeOf (new_classes (compiler_driver w) off (all_classes (dex_files w))),
                    w\<lparr> oat_classes := ocs, oat_dex_files := odfs, oat_header := h \<rparr>))"
proof -
  let ?s = "\<lparr> writer = w, offset = off, dex_file = None, class_def_index = 0,
               proc_compiled_methods = [], num_non_null_compiled_methods = 0 \<rparr>"
  from InitOatClasses_run[of "all_classes (dex_files w)" ?s] obtain s' where
    r: "ProcessDexMethods InitOatClassesMethodProcessor_vtable (dex_files w) ?s = Inr (True, s')"
    and w: "writer s' = w\<lparr> oat_classes := oat_classes w
                        @ new_classes (compiler_driver w) off (all_classes (dex_files w)) \<rparr>"
    and o: "offset s' = off + sizes OatClass_SizeOf (new_classes (compiler_driver w) off (all_classes (dex_files w)))"
    by (auto simp: ProcessDexMethods_run traversal_events_all_classes)
  show ?thesis
    by (simp add: InitOatClasses_def r w o Let_def split: sum.split prod.split)
qed

lemma vtable_binders:
  "InitMapMethodProcessor_vtable GcMapBinder = InitMapMethodProcessor_vtable (binder_of GcMap)"
  "InitMapMethodProcessor_vtable MappingTableBinder = InitMapMethodProcessor_vtable (binder_of MappingTable)"
  "InitMapMethodProcessor_vtable VmapTableBinder = InitMapMethodProcessor_vtable (binder_of VmapTable)"
  "WriteMapMethodProcessor_vtable GcMapBinder = WriteMapMethodProcessor_vtable (binder_of GcMap)"
  "WriteMapMethodProcessor_vtable MappingTableBinder = WriteMapMethodProcessor_vtable (binder_of MappingTable)"
  "WriteMapMethodProcessor_vtable VmapTableBinder = WriteMapMethodProcessor_vtable (binder_of VmapTable)"
  by simp_all

lemma code_writer_fields [simp]:
  "dex_files (code_writer C cs fxs w) = dex_files w"
  "oat_classes (code_writer C cs fxs w) = oat_classes w"
  "gc_map_offsets (code_writer C cs fxs w) = gc_map_offsets w"
  "mapping_table_offsets (code_writer C cs fxs w) = mapping_table_offsets w"
  "vmap_table_offsets (code_writer C cs fxs w) = vmap_table_offsets w"
  by (simp_all add: code_writer_def add_checksum_def)

lemma add_checksum_fields [simp]:
  "dex_files (add_checksum cs w) = dex_files w"
  "gc_map_offsets (add_checksum cs w) = gc_map_offsets w"
  "mapping_table_offsets (add_checksum cs w) = mapping_table_offsets w"
  "vmap_table_offsets (add_checksum cs w) = vmap_table_offsets w"
  by (simp_all add: add_checksum_def)

lemma dedupe_of_put_other: "K' \<noteq> K \<Longrightarrow> dedupe_of K' (put_dedupe K D w) = dedupe_of K' w"
  by (cases K; cases K'; simp)

lemma InitOatCodeDexFiles_eq:
  assumes shape: "shape_ok (dex_files w) (oat_classes w)"
  shows "InitOatCodeDexFiles off w =
     (case layout_methods (compiler_driver w) (oat_classes w) (code_offsets w) (\<lambda>K. dedupe_of K w) off of
        Inl e \<Rightarrow> Inl e
      | Inr L \<Rightarrow>
          Inr (map_end L VmapTable,
               w\<lparr> oat_classes := set_records (oat_classes w) (map_records L VmapTable),
                  code_offsets := code_map L,
                  gc_map_offsets := map_dedupe L GcMap,
                  mapping_table_offsets := map_dedupe L MappingTable,
                  vmap_table_offsets := map_dedupe L VmapTable,
                  oatdata_offsets := oatdata_offsets w @ code_fixups L,
                  oat_header := (oat_header w)\<lparr> checksum_data := checksum_data (oat_header w)
                     @ code_chunks L @ map_chunks L GcMap @ map_chunks L MappingTable
                     @ map_chunks L VmapTable \<rparr> \<rparr>))"
proof (cases "code_pass (compiler_driver w) (flat_methods (oat_classes w)) (flat_records (oat_classes w))
             (code_offsets w) off")
  case (Inl e)
  then show ?thesis
    by (simp add: InitOatCodeDexFiles_def InitCode_PROCESS[OF shape] layout_methods_def)
next
  case (Inr x)
  let ?drv = "compiler_driver w" and ?ocs = "oat_classes w"
  let ?ms = "flat_methods ?ocs"
  obtain rs1 C1 o1 cs1 ws1 fx1 where x: "x = (rs1, C1, o1, cs1, ws1, fx1)" by (cases x)
  note cp = Inr[unfolded x]
  have n: "length ?ms = length (flat_records ?ocs)" by (rule shape_ok_flat_length[OF shape])
  have l1: "length rs1 = length (flat_records ?ocs)" using code_pass_mono[OF cp] n by simp
  let ?w1 = "(code_writer C1 cs1 fx1 w)\<lparr> oat_classes := set_records ?ocs rs1 \<rparr>"
  have s1: "shape_ok (dex_files ?w1) (oat_classes ?w1)"
    using shape_ok_set_records[OF shape l1] by simp
  obtain rs2 D2 o2 cs2 where m2: "map_pass GcMap ?drv (map snd ?ms) rs1 (gc_map_offsets w) o1 = (rs2, D2, o2, cs2)"
    by (cases "map_pass GcMap ?drv (map snd ?ms) rs1 (gc_map_offsets w) o1") auto
  have l2: "length rs2 = length (flat_records ?ocs)"
    using map_pass_length[OF _ m2] n l1 by simp
  let ?w2 = "(add_checksum cs2 (put_dedupe GcMap D2 ?w1))\<lparr> oat_classes := set_records ?ocs rs2 \<rparr>"
  have s2: "shape_ok (dex_files ?w2) (oat_classes ?w2)"
    using shape_ok_set_records[OF shape l2] by simp
  obtain rs3 D3 o3 cs3 where m3: "map_pass MappingTable ?drv (map snd ?ms) rs2 (mapping_table_offsets w) o2 = (rs3, D3, o3, cs3)"
    by (cases "map_pass MappingTable ?drv (map snd ?ms) rs2 (mapping_table_offsets w) o2") auto
  have l3: "length rs3 = length (flat_records ?ocs)"
    using map_pass_length[OF _ m3] n l2 by simp
  let ?w3 = "(add_checksum cs3 (put_dedupe MappingTable D3 ?w2))\<lparr> oat_classes := set_records ?ocs rs3 \<rparr>"
  have s3: "shape_ok (dex_files ?w3) (oat_classes ?w3)"
    using shape_ok_set_records[OF shape l3] by simp
  obtain rs4 D4 o4 cs4 where m4: "map_pass VmapTable ?drv (map snd ?ms) rs3 (vmap_table_offsets w) o3 = (rs4, D4, o4, cs4)"
    by (cases "map_pass VmapTable ?drv (map snd ?ms) rs3 (vmap_table_offsets w) o3") auto
  have p1: "InitOatCodeDexFiles_PROCESS InitCodeMethodProcessor_vtable (off, w) = Inr (o1, ?w1)"
    by (simp add: InitCode_PROCESS[OF shape] cp)
  have p2: "InitOatCodeDexFiles_PROCESS (InitMapMethodProcessor_vtable GcMapBinder) (o1, ?w1) = Inr (o2, ?w2)"
    using InitMap_PROCESS[OF s1, of GcMap o1] m2
    by (simp add: flat_records_set_records[OF l1] set_records_twice[OF l1])
  have p3: "InitOatCodeDexFiles_PROCESS (InitMapMethodProcessor_vtable MappingTableBinder) (o2, ?w2) = Inr (o3, ?w3)"
    using InitMap_PROCESS[OF s2, of MappingTable o2] m3
    by (simp add: flat_records_set_records[OF l2] set_records_twice[OF l2])
  have p4: "InitOatCodeDexFiles_PROCESS (InitMapMethodProcessor_vtable VmapTableBinder) (o3, ?w3)
      = Inr (o4, (add_checksum cs4 (put_dedupe VmapTable D4 ?w3))\<lparr> oat_classes := set_records ?ocs rs4 \<rparr>)"
    using InitMap_PROCESS[OF s3, of VmapTable o3] m4
    by (simp add: flat_records_set_records[OF l3] set_records_twice[OF l3])
  have e: "InitOatCodeDexFiles off w
      = Inr (o4, (add_checksum cs4 (put_dedupe VmapTable D4 ?w3))\<lparr> oat_classes := set_records ?ocs rs4 \<rparr>)"
    unfolding InitOatCodeDexFiles_def by (simp only: p1 p2 p3 p4 sum.case)
  show ?thesis
    unfolding e
    by (simp add: layout_methods_def cp m2 m3 m4 code_writer_def add_checksum_def)
qed

lemma length_new_classes [simp]: "length (new_classes drv off cl) = length cl"
  by (induction cl arbitrary: off) auto

lemma length_new_oat_dex_files [simp]: "length (new_oat_dex_files off ds) = length ds"
  by (induction ds arbitrary: off) auto

lemma length_dex_file_offsets [simp]: "length (dex_file_offsets ds off) = length ds"
  by (induction ds arbitrary: off) auto

lemma length_all_classes: "length (all_classes dfs) = sizes (\<lambda>d. length (class_defs d)) dfs"
  by (induction dfs) (simp_all add: all_classes_def)

lemma methods_offsets_new_oat_dex_files:
  "sizes (\<lambda>odf. length (methods_offsets odf))
     (map2 (\<lambda>odf o1. odf\<lparr> dex_file_offset := u32 o1 \<rparr>) (new_oat_dex_files off ds) (dex_file_offsets ds off'))
   = sizes (\<lambda>d. length (class_defs d)) ds"
  by (induction ds arbitrary: off off') (simp_all add: OatDexFile_new_def)

lemma new_class_props:
  "class_offset (new_class drv off d k cd) = off"
  "compiled_methods (new_class drv off d k cd) = class_compiled_methods drv d cd"
  "length (method_offsets (new_class drv off d k cd)) = num_compiled (class_compiled_methods drv d cd)"
  using OatClass_new_ok[of "num_compiled (class_compiled_methods drv d cd)" "class_compiled_methods drv d cd" off "class_status drv d k"]
    new_class_eq[of off drv d cd k]
  by (auto simp: num_compiled_def)

lemma class_fits_new_class: "class_fits (d, k, cd) (new_class drv off d k cd)"
  by (simp add: class_fits_def new_class_props class_compiled_methods_def)

lemma list_all2_new_classes: "list_all2 class_fits cl (new_classes drv off cl)"
  by (induction cl arbitrary: off) (auto simp: class_fits_new_class)

lemma shape_ok_layout_classes: "shape_ok dfs (layout_classes dfs loc drv)"
  by (simp add: shape_ok_def layout_classes_def list_all2_new_classes)

lemma InitOatCode_trampolines_eq:
  "case trampolines_end ts isa (compiler_driver w) off of
     Inl e \<Rightarrow> InitOatCode_trampolines ts isa (off, w) = Inl e
   | Inr off' \<Rightarrow>
       (\<exists>h tr. InitOatCode_trampolines ts isa (off, w) = Inr (off', w\<lparr> oat_header := h, trampolines := tr \<rparr>)
          \<and> executable_offset h = executable_offset (oat_header w)
          \<and> checksum_data h = checksum_data (oat_header w)
          \<and> (\<forall>t. tr t = (if t \<in> set ts then Some (CreateTrampoline (compiler_driver w) t)
                          else trampolines w t)))"
proof (induction ts arbitrary: off w)
  case Nil
  show ?case by (auto intro!: exI[of _ "oat_header w"] exI[of _ "trampolines w"])
next
  case (Cons t ts)
  show ?case
  proof (cases "AlignCode off isa")
    case (Inl e)
    then show ?thesis by simp
  next
    case (Inr off1)
    let ?w1 = "w\<lparr> oat_header := SetTrampolineOffset t off1 (oat_header w),
                   trampolines := (trampolines w)(t \<mapsto> CreateTrampoline (compiler_driver w) t) \<rparr>"
    let ?o1 = "off1 + length (CreateTrampoline (compiler_driver w) t)"
    note IH = Cons.IH[of ?o1 ?w1]
    show ?thesis
    proof (cases "trampolines_end ts isa (compiler_driver w) ?o1")
      case (Inl e)
      with IH Inr show ?thesis by (simp add: Let_def)
    next
      case (Inr off')
      with IH obtain h tr where
        r: "InitOatCode_trampolines ts isa (?o1, ?w1) = Inr (off', ?w1\<lparr> oat_header := h, trampolines := tr \<rparr>)"
        and h: "executable_offset h = executable_offset (oat_header w)"
          "checksum_data h = checksum_data (oat_header w)"
        and tr: "\<forall>t'. tr t' = (if t' \<in> set ts then Some (CreateTrampoline (compiler_driver w) t')
                          else trampolines ?w1 t')"
        by (auto simp: SetTrampolineOffset_def)
      show ?thesis
        using \<open>AlignCode off isa = Inr off1\<close> Inr r h tr
        by (auto simp: Let_def intro!: exI[of _ h] exI[of _ tr])
    qed
  qed
qed

lemma InitOatCode_eq:
  "case (if IsImage (compiler_driver w)
         then trampolines_end all_trampolines (driver_GetInstructionSet (compiler_driver w))
                (compiler_driver w) (RoundUp off kPageSize)
         else Inr (RoundUp off kPageSize)) of
     Inl e \<Rightarrow> InitOatCode off w = Inl e
   | Inr off' \<Rightarrow>
       (\<exists>h tr. InitOatCode off w
            = Inr (off', w\<lparr> oat_header := h, trampolines := tr,
                           size_executable_offset_alignment := RoundUp off kPageSize - off \<rparr>)
          \<and> executable_offset h = u32 (RoundUp off kPageSize)
          \<and> checksum_data h = checksum_data (oat_header w)
          \<and> (IsImage (compiler_driver w) \<longrightarrow>
                (\<forall>t \<in> set all_trampolines. tr t = Some (CreateTrampoline (compiler_driver w) t))))"
proof (cases "IsImage (compiler_driver w)")
  case False
  then show ?thesis
    by (auto simp: InitOatCode_def Let_def SetExecutableOffset_def
        intro!: exI[of _ "clear_trampoline_offsets all_trampolines ((oat_header w)\<lparr> executable_offset := u32 (RoundUp off kPageSize) \<rparr>)"]
                exI[of _ "trampolines w"])
next
  case True
  let ?w1 = "w\<lparr> oat_header := SetExecutableOffset (RoundUp off kPageSize) (oat_header w),
                 size_executable_offset_alignment := RoundUp off kPageSize - off \<rparr>"
  note T = InitOatCode_trampolines_eq[where ts = all_trampolines
      and isa = "driver_GetInstructionSet (compiler_driver w)" and w = ?w1
      and off = "RoundUp off kPageSize"]
  show ?thesis
  proof (cases "trampolines_end all_trampolines (driver_GetInstructionSet (compiler_driver w))
                (compiler_driver w) (RoundUp off kPageSize)")
    case (Inl e)
    with T True show ?thesis by (simp add: InitOatCode_def Let_def)
  next
    case (Inr off')
    with T obtain h tr where
      r: "InitOatCode_trampolines all_trampolines (driver_GetInstructionSet (compiler_driver w))
            (RoundUp off kPageSize, ?w1) = Inr (off', ?w1\<lparr> oat_header := h, trampolines := tr \<rparr>)"
      and h: "executable_offset h = u32 (RoundUp off kPageSize)"
        "checksum_data h = checksum_data (oat_header w)"
      and tr: "\<forall>t. tr t = (if t \<in> set all_trampolines then Some (CreateTrampoline (compiler_driver w) t)
                          else trampolines ?w1 t)"
      by (auto simp: SetExecutableOffset_def)
    show ?thesis
      using True Inr r h tr
      by (auto simp: InitOatCode_def Let_def intro!: exI[of _ h] exI[of _ tr])
  qed
qed

lemma length_set_methods_offsets: "length (set_methods_offsets odfs cs) = length odfs"
  by (induction odfs arbitrary: cs) auto

lemma OatWriter_new_eq:
  "case code_start dfs loc drv of
     Inl e \<Rightarrow> OatWriter_new dfs loc drv = Inl e
   | Inr off5 \<Rightarrow>
      (case layout_methods drv (layout_classes dfs loc drv) Map.empty (\<lambda>K. Map.empty) off5 of
         Inl e \<Rightarrow> OatWriter_new dfs loc drv = Inl e
       | Inr L \<Rightarrow>
           if (loc = []) \<noteq> IsImage drv then OatWriter_new dfs loc drv = Inl CheckFailed
           else \<exists>w. OatWriter_new dfs loc drv = Inr w \<and> laid_out dfs loc drv L w)"
proof -
  let ?w0 = "\<lparr> compiler_driver = drv, dex_files = dfs, image_file_location = loc,
                 oat_header = OatHeader_new, oat_dex_files = [], oat_classes = [],
                 code_offsets = Map.empty, gc_map_offsets = Map.empty,
                 mapping_table_offsets = Map.empty, vmap_table_offsets = Map.empty,
                 trampolines = Map.empty, oatdata_offsets = [],
                 size_executable_offset_alignment = 0, oat_size = 0 \<rparr>"
  let ?off1 = "header_end loc" and ?off2 = "oat_dex_files_end dfs loc" and ?off3 = "dex_end dfs loc"
  let ?off4 = "classes_end dfs loc drv"
  let ?ocs = "layout_classes dfs loc drv" and ?odfs = "layout_oat_dex_files dfs loc drv"
  let ?odfs3 = "map2 (\<lambda>odf o1. odf\<lparr> dex_file_offset := u32 o1 \<rparr>)
          (new_oat_dex_files ?off1 dfs) (dex_file_offsets dfs ?off2)"
  let ?w2 = "?w0\<lparr> oat_dex_files := new_oat_dex_files ?off1 dfs \<rparr>"
  let ?w3 = "?w0\<lparr> oat_dex_files := ?odfs3 \<rparr>"
  let ?h4 = "OatHeader_new\<lparr> checksum_data := concat (map odf_chunks ?odfs) \<rparr>"
  let ?w4 = "?w0\<lparr> oat_dex_files := ?odfs, oat_classes := ?ocs, oat_header := ?h4 \<rparr>"
  have e1: "InitOatHeader ?w0 = (?off1, ?w0)"
    by (simp add: InitOatHeader_def header_end_def)
  have e2: "InitOatDexFiles ?off1 ?w0 = (?off2, ?w2)"
    by (simp add: InitOatDexFiles_def InitOatDexFiles_loop_eq oat_dex_files_end_def)
  have e3: "InitDexFiles ?off2 ?w2 = Inr (?off3, ?w3)"
    by (simp add: InitDexFiles_def InitDexFiles_loop_eq dex_end_def)
  have n: "sizes (\<lambda>odf. length (methods_offsets odf)) ?odfs3 = length ?ocs"
    by (simp add: methods_offsets_new_oat_dex_files layout_classes_def length_all_classes)
  have e4: "InitOatClasses ?off3 ?w3 = Inr (?off4, ?w4)"
    using n
    by (simp add: InitOatClasses_eq Let_def InitOatClasses_update_eq layout_classes_def[symmetric]
        layout_oat_dex_files_def[symmetric] classes_end_def OatHeader_new_def)
  define w4 where "w4 = ?w4"
  have e4': "InitOatClasses ?off3 ?w3 = Inr (?off4, w4)" unfolding w4_def by (rule e4)
  have st: "code_start dfs loc drv =
       (if IsImage (compiler_driver w4)
         then trampolines_end all_trampolines (driver_GetInstructionSet (compiler_driver w4))
                (compiler_driver w4) (RoundUp ?off4 kPageSize)
         else Inr (RoundUp ?off4 kPageSize))"
    by (simp add: code_start_def w4_def)
  note e5 = InitOatCode_eq[where w = w4 and off = ?off4, folded st]
  have new: "OatWriter_new dfs loc drv =
      (case InitOatCode ?off4 w4 of
           Inl e \<Rightarrow> Inl e
         | Inr (off5, w5) \<Rightarrow>
        (case InitOatCodeDexFiles off5 w5 of
           Inl e \<Rightarrow> Inl e
         | Inr (off6, w6) \<Rightarrow>
             if length (dex_files w6) \<noteq> length (oat_dex_files w6) then Inl CheckFailed
             else if (loc = []) \<noteq> IsImage drv then Inl CheckFailed
             else Inr (w6\<lparr> oat_size := off6 \<rparr>)))"
    unfolding OatWriter_new_def Let_def e1 prod.case e2 e3 sum.case e4' ..
  show ?thesis
  proof (cases "code_start dfs loc drv")
    case (Inl e)
    with e5 show ?thesis by (simp add: new)
  next
    case (Inr off5)
    with e5 obtain h tr where
      i5: "InitOatCode ?off4 w4
            = Inr (off5, w4\<lparr> oat_header := h, trampolines := tr,
                           size_executable_offset_alignment := RoundUp ?off4 kPageSize - ?off4 \<rparr>)"
      and h: "executable_offset h = u32 (RoundUp ?off4 kPageSize)"
        "checksum_data h = concat (map odf_chunks ?odfs)"
      and tr: "IsImage drv \<longrightarrow> (\<forall>t \<in> set all_trampolines. tr t = Some (CreateTrampoline drv t))"
      by (auto simp: w4_def)
    define w5 where "w5 = w4\<lparr> oat_header := h, trampolines := tr,
                           size_executable_offset_alignment := RoundUp ?off4 kPageSize - ?off4 \<rparr>"
    have i5': "InitOatCode ?off4 w4 = Inr (off5, w5)" unfolding w5_def by (rule i5)
    have sh: "shape_ok (dex_files w5) (oat_classes w5)"
      by (simp add: shape_ok_layout_classes w5_def w4_def)
    have lm: "layout_methods (compiler_driver w5) (oat_classes w5) (code_offsets w5) (\<lambda>K. dedupe_of K w5) off5
        = layout_methods drv ?ocs Map.empty (\<lambda>K. Map.empty) off5"
    proof -
      have "(\<lambda>K. dedupe_of K w5) = (\<lambda>K. Map.empty)"
        by (rule ext) (case_tac K; simp add: w5_def w4_def)
      then show ?thesis by (simp add: w5_def w4_def)
    qed
    note e6 = InitOatCodeDexFiles_eq[OF sh, where off = off5, unfolded lm]
    show ?thesis
    proof (cases "layout_methods drv ?ocs Map.empty (\<lambda>K. Map.empty) off5")
      case (Inl e)
      then show ?thesis using Inr by (simp add: new i5' e6)
    next
      case L: (Inr L)
      have len: "length (oat_dex_files w5) = length (dex_files w5)"
        by (simp add: layout_oat_dex_files_def length_set_methods_offsets w5_def w4_def)
      show ?thesis
      proof (cases "(loc = []) \<noteq> IsImage drv")
        case True
        then show ?thesis using Inr L len by (simp add: new i5' e6)
      next
        case False
        have "laid_out dfs loc drv L
           ((w5\<lparr> oat_classes := set_records (oat_classes w5) (map_records L VmapTable),
                  code_offsets := code_map L,
                  gc_map_offsets := map_dedupe L GcMap,
                  mapping_table_offsets := map_dedupe L MappingTable,
                  vmap_table_offsets := map_dedupe L VmapTable,
                  oatdata_offsets := oatdata_offsets w5 @ code_fixups L,
                  oat_header := (oat_header w5)\<lparr> checksum_data := checksum_data (oat_header w5)
                     @ code_chunks L @ map_chunks L GcMap @ map_chunks L MappingTable
                     @ map_chunks L VmapTable \<rparr> \<rparr>)\<lparr> oat_size := map_end L VmapTable \<rparr>)"
          unfolding laid_out_def using h tr
          apply (simp add: w5_def w4_def)
          apply (rule allI, case_tac K; simp)
          done
        then show ?thesis using Inr L len False by (simp add: new i5' e6)
      qed
    qed
  qed
qed

section \<open>The layout of the example\<close>

lemma GetSizeOf_BitVector_new_2: "GetSizeOf (BitVector_new 2) = 4"
  by (simp add: GetSizeOf_def BitVector_new_def)

lemma BitVector_new_SS: "BitVector_new (Suc (Suc 0)) = BitVector_new 2"
  by (simp add: numeral_2_eq_2)

lemma ex_layout_classes:
  "layout_classes [ex_dex] ''boot.art'' ex_driver = [ex_oat_class [OatMethodOffsets_default]]"
  by (simp add: layout_classes_def dex_end_def oat_dex_files_end_def header_end_def all_classes_def
      ex_dex_def[unfolded ex_class_def] new_class_def OatClass_new_def class_compiled_methods_def
      class_data_methods_def num_compiled_def class_status_def ex_driver_def kStatusNotReady_def
      BitVector_new_SS GetSizeOf_BitVector_new_2 ex_oat_class_def ex_bitmap_def Let_def
      OatDexFile_new_def OatDexFile_SizeOf_def RoundUp_def u32_def enumerate_eq_zip
      sizeof_OatHeader_def sizeof_uint32_def sizeof_type_def sizeof_status_def)

lemma ex_layout_oat_dex_files:
  "layout_oat_dex_files [ex_dex] ''boot.art'' ex_driver = [ex_oat_dex_file]"
  unfolding layout_oat_dex_files_def ex_layout_classes
  by (simp add: oat_dex_files_end_def header_end_def
      ex_dex_def OatDexFile_new_def OatDexFile_SizeOf_def RoundUp_def u32_def
      ex_oat_class_def ex_oat_dex_file_def sizeof_OatHeader_def sizeof_uint32_def)

lemma ex_classes_end: "classes_end [ex_dex] ''boot.art'' ex_driver = 157"
  unfolding classes_end_def ex_layout_classes
  by (simp add: dex_end_def oat_dex_files_end_def header_end_def
      ex_dex_def OatDexFile_new_def OatDexFile_SizeOf_def OatClass_SizeOf_def RoundUp_def u32_def
      ex_oat_class_def sizeof_OatHeader_def sizeof_uint32_def sizeof_type_def sizeof_status_def
      sizeof_OatMethodOffsets_def)

lemma ex_code_start: "code_start [ex_dex] ''boot.art'' ex_driver = Inr 4096"
  unfolding code_start_def ex_classes_end
  by (simp add: ex_driver_def RoundUp_def kPageSize_def)

lemma ex_layout_methods:
  "\<exists>L. layout_methods ex_driver (layout_classes [ex_dex] ''boot.art'' ex_driver)
            Map.empty (\<lambda>K. Map.empty) 4096 = Inr L
       \<and> map_records L VmapTable = [ex_record] \<and> map_end L VmapTable = 4106"
  unfolding layout_methods_def ex_layout_classes
  by (simp add: flat_methods_def flat_records_def class_flat_def
      ex_oat_class_def code_offset_step_def ex_method_def ex_driver_def ex_memory_def
      kX86Alignment_def RoundUp_def u32_def new_record_def sizeof_OatMethodHeader_def
      ex_record_def OatMethodOffsets_default_def Let_def)

lemma ex_writer:
  "\<exists>w. OatWriter_new [ex_dex] ''boot.art'' ex_driver = Inr w
      \<and> compiler_driver w = ex_driver \<and> dex_files w = [ex_dex]
      \<and> image_file_location w = ''boot.art''
      \<and> oat_dex_files w = [ex_oat_dex_file]
      \<and> oat_classes w = [ex_oat_class [ex_record]]
      \<and> executable_offset (oat_header w) = 4096
      \<and> size_executable_offset_alignment w = 3939
      \<and> oat_size w = 4106"
proof -
  from ex_layout_methods obtain L where
    L: "layout_methods ex_driver (layout_classes [ex_dex] ''boot.art'' ex_driver)
            Map.empty (\<lambda>K. Map.empty) 4096 = Inr L"
    and r: "map_records L VmapTable = [ex_record]" and e: "map_end L VmapTable = 4106"
    by blast
  have img: "\<not> IsImage ex_driver" by (simp add: ex_driver_def)
  from OatWriter_new_eq[of "[ex_dex]" "''boot.art''" ex_driver] obtain w where
    w: "OatWriter_new [ex_dex] ''boot.art'' ex_driver = Inr w"
    and lo: "laid_out [ex_dex] ''boot.art'' ex_driver L w"
    unfolding ex_code_start using L img by auto
  show ?thesis
    using w lo[unfolded laid_out_def ex_layout_oat_dex_files ex_layout_classes ex_classes_end r e]
    by (simp add: ex_oat_class_def RoundUp_def kPageSize_def u32_def)
qed


section \<open>The write pass emits the layout\<close>

lemma chunks_size_simps [simp]:
  "chunks_size [] = 0" "chunks_size (c # cs) = chunk_size c + chunks_size cs"
  "chunks_size (cs @ ds) = chunks_size cs + chunks_size ds"
  by (simp_all add: chunks_size_def)












lemma chunks_size_odf_chunks:
  "dex_file_location_size odf \<le> length (dex_file_location_data odf) \<Longrightarrow>
   chunks_size (odf_chunks odf) = OatDexFile_SizeOf odf"
  by (simp add: odf_chunks_def OatDexFile_SizeOf_def)





































section \<open>The output for the example\<close>


section \<open>Alignment of the layout\<close>

lemma AlignCode_RoundUp:
  "AlignCode off isa = Inr a \<Longrightarrow> a = RoundUp off (code_alignment isa)"
  by (cases isa) auto
















section \<open>Claim C5: what the traversal visits\<close>

lemma recorder_run: "run recorder es log = Inr (True, log @ es)"
proof (induction es arbitrary: log)
  case Nil
  then show ?case by simp
next
  case (Cons e es)
  have "callback recorder e log = Inr (True, log @ [e])"
    by (cases e) (simp_all add: recorder_def)
  then show ?case by (simp add: Cons.IH del: callback.simps)
qed

text \<open>
  Claim C5, as the code has it. The traversal makes exactly the callbacks of
  \<open>traversal_events\<close>, in that order, up to the first that fails: for every dex file in
  order and every class in declaration order, first all directly-dispatched and then all
  virtually-dispatched method entries in declared order, each with its ordinal in the
  class. No entry is skipped: an entry that repeats a method index reaches
  \<^verbatim>\<open>ProcessMethod\<close> like any other, under the next ordinal. The recording processor
  therefore receives every event of the sequence.
\<close>

theorem ProcessDexMethods_visits_every_entry:
  "ProcessDexMethods P dfs s = run P (traversal_events dfs) s
   \<and> ProcessDexMethods recorder dfs log = Inr (True, log @ traversal_events dfs)"
  by (simp add: ProcessDexMethods_run recorder_run)

text \<open>
  Claim C5 as stated fails: in a class whose method list names index 7 twice, the second
  entry is passed to \<^verbatim>\<open>ProcessMethod\<close> too, with ordinal 1.
\<close>

theorem duplicate_index_is_processed:
  "ProcessDexMethods recorder [dup_dex] [] =
     Inr (True, [EvStartClass dup_dex 0, EvProcessMethod 0 dup_method,
                 EvProcessMethod 1 dup_method, EvEndClass])
   \<and> GetMemberIndex dup_method = 7"
  by (simp add: dup_dex_def dup_method_def recorder_def class_methods_def)

section \<open>Claim C4: the compiled-state tag of a class\<close>

text \<open>
  Claim C4. For every class the traversal of \<^verbatim>\<open>InitOatClasses\<close> visits, the processor
  appends one class descriptor. Its compiled-state tag is a function of the number of the
  class's methods and of the number of them that have a compiled method: no method gives
  \<open>kOatClassNoneCompiled\<close>; all of \<open>N > 0\<close> compiled gives \<open>kOatClassAllCompiled\<close>;
  some but not all compiled gives \<open>kOatClassSomeCompiled\<close>, and then the bitmap is
  present and its population count is the number of per-method offset records, which is
  the number of compiled methods. With the other two tags no bitmap is present.
\<close>

theorem class_descriptor_classification:
  "\<exists>s' c. class_loop InitOatClassesMethodProcessor_vtable d [cd] k s = Inr (True, s')
     \<and> oat_classes (writer s') = oat_classes (writer s) @ [c]
     \<and> compiled_methods c = class_compiled_methods (compiler_driver (writer s)) d cd
     \<and> length (method_offsets c) = num_compiled (compiled_methods c)
     \<and> oat_type c = OatClass_tag (length (compiled_methods c)) (num_compiled (compiled_methods c))
     \<and> (length (compiled_methods c) = 0 \<longrightarrow> oat_type c = kOatClassNoneCompiled)
     \<and> (0 < length (compiled_methods c) \<and> num_compiled (compiled_methods c) = length (compiled_methods c)
          \<longrightarrow> oat_type c = kOatClassAllCompiled)
     \<and> (0 < num_compiled (compiled_methods c) \<and> num_compiled (compiled_methods c) < length (compiled_methods c)
          \<longrightarrow> oat_type c = kOatClassSomeCompiled
              \<and> (\<exists>bv. method_bitmap c = Some bv \<and> NumSetBits bv = length (method_offsets c)))
     \<and> (oat_type c \<noteq> kOatClassSomeCompiled \<longrightarrow> method_bitmap c = None \<and> method_bitmap_size c = 0)"
proof -
  let ?drv = "compiler_driver (writer s)"
  let ?cms = "class_compiled_methods ?drv d cd"
  let ?c = "new_class ?drv (offset s) d k cd"
  have ev: "classes_events d k [cd] = class_events d k cd"
    by (simp add: classes_events_def)
  have run: "class_loop InitOatClassesMethodProcessor_vtable d [cd] k s =
      run InitOatClassesMethodProcessor_vtable (class_events d k cd) s"
    by (simp only: class_loop_run ev)
  obtain c where c: "OatClass_new (offset s) ?cms (num_compiled ?cms) (class_status ?drv d k) = Inr c"
    and props: "compiled_methods c = ?cms" "oat_type c = OatClass_tag (length ?cms) (num_compiled ?cms)"
      "length (method_offsets c) = num_compiled ?cms"
      "oat_type c \<noteq> kOatClassSomeCompiled \<longrightarrow> method_bitmap c = None \<and> method_bitmap_size c = 0"
      "oat_type c = kOatClassSomeCompiled \<longrightarrow>
           (\<exists>bv. method_bitmap c = Some bv \<and> NumSetBits bv = length (method_offsets c))"
    using OatClass_new_ok[of "num_compiled ?cms" ?cms "offset s" "class_status ?drv d k"]
    by (auto simp: num_compiled_def)
  have eq: "?c = c" using c new_class_eq[of "offset s" ?drv d cd k] by simp
  have le: "num_compiled ?cms \<le> length ?cms" by (simp add: num_compiled_def)
  show ?thesis
    apply (simp only: run InitOatClasses_class eq)
    apply (rule exI, rule exI[of _ c])
    apply (rule conjI, rule refl)
    using props le by (auto simp: OatClass_tag_def)
qed

text \<open>The class of two methods of which one is compiled: \<open>kOatClassSomeCompiled\<close>, a
  bitmap with one bit set, one per-method offset record.\<close>

theorem class_descriptor_classification_witness:
  "\<exists>s' c. class_loop InitOatClassesMethodProcessor_vtable ex_dex [Some ex_class] 0 ex_init_classes = Inr (True, s')
     \<and> oat_classes (writer s') = [c]
     \<and> length (compiled_methods c) = 2
     \<and> oat_type c = kOatClassSomeCompiled
     \<and> (\<exists>bv. method_bitmap c = Some bv \<and> NumSetBits bv = 1)
     \<and> length (method_offsets c) = 1"
proof -
  have cms: "class_compiled_methods (compiler_driver (writer ex_init_classes)) ex_dex (Some ex_class)
      = [Some ex_method, None]"
    by (simp add: class_compiled_methods_def class_data_methods_def ex_class_def ex_init_classes_def
        ex_writer0_def ex_driver_def ex_dex_def)
  have ocs: "oat_classes (writer ex_init_classes) = []"
    by (simp add: ex_init_classes_def ex_writer0_def)
  from class_descriptor_classification[of ex_dex "Some ex_class" 0 ex_init_classes]
  show ?thesis
    unfolding cms ocs by (auto simp: num_compiled_def)
qed

section \<open>Claim C10: portable code\<close>

text \<open>
  Claim C10. For a compiled method \<open>cm\<close> met by the two code processors: a method with
  both a portable and a quick representation ends both passes at a \<^verbatim>\<open>CHECK\<close>, and one with
  neither ends the layout pass, so the two are mutually exclusive wherever a pass goes on.
  For a method with portable code, a layout step that returns has left the running
  offset, the checksum and the code deduplication map as they were and has recorded the
  code offset 0; for a method without quick code the write step only moves on to the next
  record: the stream and the offset are as before.
\<close>

theorem portable_code_is_not_laid_out:
  fixes s :: OatDexMethodProcessor and t :: WriteMethodProcessor
  assumes "oat_class_index s < length (oat_classes (writer s))"
    and "i < length (compiled_methods (oat_classes (writer s) ! oat_class_index s))"
    and "compiled_methods (oat_classes (writer s) ! oat_class_index s) ! i = Some cm"
    and "oat_class_index t < length (oat_classes (writer t))"
    and "j < length (compiled_methods (oat_classes (writer t) ! oat_class_index t))"
    and "compiled_methods (oat_classes (writer t) ! oat_class_index t) ! j = Some cm"
  shows "(GetPortableCode cm \<noteq> None \<and> GetQuickCode cm \<noteq> None \<longrightarrow>
            InitCode_ProcessMethod i it s = Inl CheckFailed
            \<and> WriteCode_ProcessMethod j it t = Inl CheckFailed)
       \<and> (GetPortableCode cm = None \<and> GetQuickCode cm = None \<longrightarrow>
            InitCode_ProcessMethod i it s = Inl CheckFailed)
       \<and> (GetPortableCode cm \<noteq> None \<longrightarrow>
            (\<forall>ok s'. InitCode_ProcessMethod i it s = Inr (ok, s') \<longrightarrow>
               ok \<and> offset s' = offset s
               \<and> oat_header (writer s') = oat_header (writer s)
               \<and> code_offsets (writer s') = code_offsets (writer s)
               \<and> code_offset (method_offsets (oat_classes (writer s') ! oat_class_index s)
                                ! method_offsets_index s) = 0))
       \<and> (GetQuickCode cm = None \<longrightarrow>
            WriteCode_ProcessMethod j it t
              = Inr (True, t\<lparr> method_offsets_index := Suc (method_offsets_index t) \<rparr>))"
proof (cases "GetPortableCode cm")
  case None
  note p = this
  show ?thesis
  proof (cases "GetQuickCode cm")
    case None
    with p assms show ?thesis
      by (simp add: InitCode_ProcessMethod_def InitCode_quick_code_offset_def
          WriteCode_ProcessMethod_def)
  next
    case (Some qc)
    with p show ?thesis by simp
  qed
next
  case (Some pc)
  note p = this
  show ?thesis
  proof (cases "GetQuickCode cm")
    case None
    with p assms show ?thesis
      by (cases "GetOatMethodOffsetsOffsetFromOatHeader (oat_classes (writer s) ! oat_class_index s) i")
         (auto simp: InitCode_ProcessMethod_def InitCode_quick_code_offset_def
          WriteCode_ProcessMethod_def Let_def)
  next
    case (Some qc)
    with p assms show ?thesis
      by (simp add: InitCode_ProcessMethod_def InitCode_quick_code_offset_def
          WriteCode_ProcessMethod_def)
  qed
qed

text \<open>The two processors on the portable method: the layout records the code offset 0 (and
  the frame size) and reports the record to be patched; the write pass writes nothing.\<close>

theorem portable_code_is_not_laid_out_witness:
  "InitCode_ProcessMethod 0 dup_method portable_init
     = Inr (True, portable_init
         \<lparr> writer := (writer portable_init)
              \<lparr> oatdata_offsets := [124],
                oat_classes := [portable_class\<lparr> method_offsets :=
                   [OatMethodOffsets_default\<lparr> frame_size_in_bytes := 16 \<rparr>] \<rparr>] \<rparr>,
           method_offsets_index := 1 \<rparr>)
   \<and> WriteCode_ProcessMethod 0 dup_method portable_write
     = Inr (True, portable_write\<lparr> method_offsets_index := 1 \<rparr>)"
proof -
  have a: "oat_class_index portable_init < length (oat_classes (writer portable_init))"
    "0 < length (compiled_methods (oat_classes (writer portable_init) ! oat_class_index portable_init))"
    "compiled_methods (oat_classes (writer portable_init) ! oat_class_index portable_init) ! 0 = Some portable_method"
    "oat_class_index portable_write < length (oat_classes (writer portable_write))"
    "0 < length (compiled_methods (oat_classes (writer portable_write) ! oat_class_index portable_write))"
    "compiled_methods (oat_classes (writer portable_write) ! oat_class_index portable_write) ! 0 = Some portable_method"
    by (simp_all add: portable_init_def portable_write_def OatDexMethodProcessor_new_def
        WriteMethodProcessor_new_def portable_class_def)
  have i: "InitCode_ProcessMethod 0 dup_method portable_init
     = Inr (True, portable_init
         \<lparr> writer := (writer portable_init)
              \<lparr> oatdata_offsets := [124],
                oat_classes := [portable_class\<lparr> method_offsets :=
                   [OatMethodOffsets_default\<lparr> frame_size_in_bytes := 16 \<rparr>] \<rparr>] \<rparr>,
           method_offsets_index := 1 \<rparr>)"
    by (simp add: InitCode_ProcessMethod_def InitCode_quick_code_offset_def portable_init_def
        OatDexMethodProcessor_new_def portable_class_def portable_method_def ex_writer0_def
        GetOatMethodOffsetsOffsetFromOatHeader_def GetOatMethodOffsetsOffsetFromOatClass_def
        OatMethodOffsets_default_def offsetof_code_offset_def u32_def Let_def)
  from portable_code_is_not_laid_out[OF a, of dup_method] i
  show ?thesis
    by (simp add: portable_method_def portable_write_def WriteMethodProcessor_new_def)
qed

section \<open>Claim C7: no dex files\<close>

text \<open>
  Claim C7, as the code has it, for a writer that is not building an image. With no dex
  file the constructor returns a writer with no module descriptor and no class descriptor
  and an empty checksum input; its total size is the size of the header and the image
  location rounded up to the page size, which is also the executable offset. \<^verbatim>\<open>Write\<close> on a
  stream with room for the header and the location returns \<^verbatim>\<open>true\<close>: it has written the
  header and the location, nothing else, and has moved the position by the total size.
\<close>

theorem no_dex_files_layout:
  assumes img: "\<not> IsImage drv" and loc: "loc \<noteq> []"
    and bound: "position os + RoundUp (sizeof_OatHeader + length loc) kPageSize < 2 ^ 32"
    and cap: "position os + sizeof_OatHeader + length loc \<le> capacity os"
  shows "\<exists>w. OatWriter_new [] loc drv = Inr w
           \<and> oat_dex_files w = [] \<and> oat_classes w = []
           \<and> checksum_data (oat_header w) = []
           \<and> executable_offset (oat_header w) = RoundUp (sizeof_OatHeader + length loc) kPageSize
           \<and> oat_size w = RoundUp (sizeof_OatHeader + length loc) kPageSize
           \<and> Write w os = Inr (True,
                os\<lparr> written := written os @ [(position os, HeaderChunk),
                                              (position os + sizeof_OatHeader, Chars loc)],
                    position := position os + oat_size w \<rparr>)"
proof -
  let ?n = "sizeof_OatHeader + length loc"
  from OatWriter_new_empty[OF img loc] obtain w where new: "OatWriter_new [] loc drv = Inr w"
    and f: "compiler_driver w = drv" "dex_files w = []" "image_file_location w = loc"
      "oat_dex_files w = []" "oat_classes w = []" "checksum_data (oat_header w) = []"
      "executable_offset (oat_header w) = u32 (RoundUp ?n kPageSize)"
      "size_executable_offset_alignment w = RoundUp ?n kPageSize - ?n"
      "oat_size w = RoundUp ?n kPageSize"
    by blast
  have ge: "?n \<le> RoundUp ?n kPageSize" by (rule RoundUp_page_ge)
  have r32: "u32 (RoundUp ?n kPageSize) = RoundUp ?n kPageSize"
    using bound by (simp add: u32_id)
  have pos: "0 < RoundUp ?n kPageSize" using ge by (simp add: sizeof_OatHeader_def)
  have wr: "Write w os = Inr (True,
                os\<lparr> written := written os @ [(position os, HeaderChunk),
                                              (position os + sizeof_OatHeader, Chars loc)],
                    position := position os + oat_size w \<rparr>)"
    using cap ge bound pos img
    by (simp add: Write_def Write_steps_def WriteFully_def WriteTables_empty
        WriteCodeDexFiles_empty WriteCode_def f r32 u32_id add.assoc Let_def)
  show ?thesis
    using new wr f r32 by auto
qed

text \<open>The example driver with the location \<open>boot.art\<close>: 88 bytes written, total size 4096.\<close>

theorem no_dex_files_layout_witness:
  "\<exists>w. OatWriter_new [] ''boot.art'' ex_driver = Inr w
           \<and> oat_dex_files w = [] \<and> oat_classes w = []
           \<and> checksum_data (oat_header w) = []
           \<and> executable_offset (oat_header w) = 4096
           \<and> oat_size w = 4096
           \<and> Write w \<lparr> position = 0, written = [], capacity = 8192 \<rparr> = Inr (True,
                \<lparr> position = 4096, written = [(0, HeaderChunk), (80, Chars ''boot.art'')],
                  capacity = 8192 \<rparr>)"
proof -
  have r: "RoundUp (sizeof_OatHeader + length ''boot.art'') kPageSize = 4096"
    by (simp add: RoundUp_def sizeof_OatHeader_def kPageSize_def)
  from no_dex_files_layout[of ex_driver "''boot.art''" "\<lparr> position = 0, written = [], capacity = 8192 \<rparr>"]
  show ?thesis
    unfolding r by (auto simp: ex_driver_def sizeof_OatHeader_def)
qed

text \<open>
  Claim C7 as stated fails: the total size is not the size of the header and the location,
  here 88, but the next multiple of the page size.
\<close>

theorem no_dex_files_size_is_not_header_size:
  "\<exists>w. OatWriter_new [] ''boot.art'' ex_driver = Inr w
      \<and> oat_size w = 4096
      \<and> sizeof_OatHeader + length ''boot.art'' = 88
      \<and> oat_size w \<noteq> sizeof_OatHeader + length ''boot.art''"
  by (simp add: OatWriter_new_def InitOatHeader_def InitOatDexFiles_def InitDexFiles_def
        InitOatClasses_def ProcessDexMethods_run traversal_events_def InitOatCode_def
        InitOatCodeDexFiles_def InitOatCodeDexFiles_PROCESS_def OatDexMethodProcessor_new_def
        Let_def ex_driver_def RoundUp_def sizeof_OatHeader_def kPageSize_def)

section \<open>Claim C9: a failing callback\<close>

text \<open>
  Claim C9. For any processor \<open>P\<close> and any list of dex files: if the callbacks before some
  event of the traversal all return \<^verbatim>\<open>true\<close> and the callback of that event, whichever of
  \<^verbatim>\<open>StartClass\<close>, \<^verbatim>\<open>ProcessMethod\<close> and \<^verbatim>\<open>EndClass\<close> it is, returns \<^verbatim>\<open>false\<close>, then
  \<^verbatim>\<open>ProcessDexMethods\<close> returns \<^verbatim>\<open>false\<close> in the state that callback left: no later
  callback is made. And let \<^verbatim>\<open>Write\<close> have written the header, the location and the tables
  and have reached one of the four traversals of \<^verbatim>\<open>WriteCodeDexFiles\<close>, the earlier ones
  having returned a non-zero offset: if a callback of that traversal returns \<^verbatim>\<open>false\<close>
  after the ones before it returned \<^verbatim>\<open>true\<close>, the traversal returns \<^verbatim>\<open>false\<close>,
  \<^verbatim>\<open>WriteCodeDexFiles\<close> returns 0 and \<^verbatim>\<open>Write\<close> returns \<^verbatim>\<open>false\<close>, with the stream as that
  callback left it.
\<close>

theorem failing_callback_fails_the_write:
  fixes P :: "'s DexMethodProcessor_vtable"
    and Q :: "WriteMethodProcessor DexMethodProcessor_vtable"
  assumes ev: "traversal_events dfs = pre @ e # post"
    and pre: "run P pre s = Inr (True, s1)"
    and fail: "callback P e s1 = Inr (False, s2)"
    and prefix: "WriteFully HeaderChunk os = (True, os1)"
      "WriteFully (Chars (image_file_location w)) os1 = (True, os2)"
      "WriteTables w os2 (position os) = Inr (True, os3)"
      "WriteCode w os3 (position os) = Inr (r, os4)" "r \<noteq> 0"
    and before: "write_processors = Ps @ Q # Qs"
      "process_all Ps w (position os) (r, os4) = Inr (r', os')" "r' \<noteq> 0"
    and evq: "traversal_events (dex_files w) = preq @ eq # postq"
    and preq: "run Q preq (WriteMethodProcessor_new w os' (position os) r') = Inr (True, t1)"
    and failq: "callback Q eq t1 = Inr (False, t2)"
  shows "ProcessDexMethods P dfs s = Inr (False, s2)
       \<and> ProcessDexMethods Q (dex_files w) (WriteMethodProcessor_new w os' (position os) r')
           = Inr (False, t2)
       \<and> WriteCodeDexFiles w os4 (position os) r = Inr (0, out t2)
       \<and> Write w os = Inr (False, out t2)"
proof -
  have g: "ProcessDexMethods P dfs s = Inr (False, s2)"
    unfolding ProcessDexMethods_run ev by (rule run_stops[OF pre fail])
  have p: "ProcessDexMethods Q (dex_files w) (WriteMethodProcessor_new w os' (position os) r')
           = Inr (False, t2)"
    unfolding ProcessDexMethods_run evq by (rule run_stops[OF preq failq])
  then have q: "WriteCodeDexFiles_PROCESS Q w (position os) (r', os') = Inr (0, out t2)"
    by (simp add: WriteCodeDexFiles_PROCESS_def)
  have c: "WriteCodeDexFiles w os4 (position os) r = Inr (0, out t2)"
    unfolding WriteCodeDexFiles_process_all before(1)
    using before(2,3) q by (simp add: process_all_append)
  have "Write_steps w os = Inr (False, 0, out t2)"
    using prefix c by (simp add: Write_steps_def)
  then show ?thesis using g p c by (simp add: Write_def)
qed

text \<open>On the example dex file, the counting processor that fails at its first callback
  (\<^verbatim>\<open>StartClass\<close>) has received one callback, the one that fails at its second (the first
  \<^verbatim>\<open>ProcessMethod\<close>) two, and the one that fails at its fourth (\<^verbatim>\<open>EndClass\<close>) four. On
  the writer that the constructor builds for the example, with a stream that ends two
  bytes into the first method header, the first \<^verbatim>\<open>ProcessMethod\<close> of the code traversal
  fails and \<^verbatim>\<open>Write\<close> returns \<^verbatim>\<open>false\<close> with nothing written after the tables.\<close>

theorem failing_callback_fails_the_write_witness:
  "ProcessDexMethods (counting 0) [ex_dex] 0 = Inr (False, 1)
   \<and> ProcessDexMethods (counting 1) [ex_dex] 0 = Inr (False, 2)
   \<and> ProcessDexMethods (counting 3) [ex_dex] 0 = Inr (False, 4)
   \<and> (\<exists>w. OatWriter_new [ex_dex] ''boot.art'' ex_driver = Inr w
         \<and> Write w ff_stream = Inr (False, ff_stream\<lparr> position := 4096, written := ex_tables \<rparr>))"
proof -
  from ex_writer obtain w where w: "OatWriter_new [ex_dex] ''boot.art'' ex_driver = Inr w"
    and f: "compiler_driver w = ex_driver" "dex_files w = [ex_dex]"
      "image_file_location w = ''boot.art''" "oat_dex_files w = [ex_oat_dex_file]"
      "oat_classes w = [ex_oat_class [ex_record]]" "executable_offset (oat_header w) = 4096"
      "size_executable_offset_alignment w = 3939" "oat_size w = 4106"
    by blast
  let ?m1 = "\<lparr> GetMemberIndex = 1, GetMemberAccessFlags = 0 \<rparr>"
  let ?m2 = "\<lparr> GetMemberIndex = 2, GetMemberAccessFlags = 0 \<rparr>"
  let ?os4 = "ff_stream\<lparr> position := 4096, written := ex_tables \<rparr>"
  let ?t0 = "WriteMethodProcessor_new w ?os4 (position ff_stream) 4096"
  let ?t1 = "?t0\<lparr> dex_file := Some ex_dex \<rparr>"
  have 1: "WriteFully HeaderChunk ff_stream
             = (True, ff_stream\<lparr> position := 80, written := [(0, HeaderChunk)] \<rparr>)"
    by (simp add: WriteFully_def ff_stream_def sizeof_OatHeader_def)
  have 2: "WriteFully (Chars (image_file_location w))
               (ff_stream\<lparr> position := 80, written := [(0, HeaderChunk)] \<rparr>)
             = (True, ff_stream\<lparr> position := 88,
                        written := [(0, HeaderChunk), (80, Chars ''boot.art'')] \<rparr>)"
    by (simp add: WriteFully_def ff_stream_def f)
  have 3: "WriteTables w (ff_stream\<lparr> position := 88,
                        written := [(0, HeaderChunk), (80, Chars ''boot.art'')] \<rparr>)
               (position ff_stream)
             = Inr (True, ff_stream\<lparr> position := 157, written := ex_tables \<rparr>)"
    by (simp add: WriteTables_def f ex_oat_dex_file_def ex_oat_class_def OatDexFile_Write_def
        OatClass_Write_def then_write_def WriteFully_def ff_stream_def ex_tables_def ex_dex_def
        u32_def sizeof_status_def sizeof_type_def sizeof_uint32_def sizeof_OatMethodOffsets_def
        Let_def)
  have 4: "WriteCode w (ff_stream\<lparr> position := 157, written := ex_tables \<rparr>)
               (position ff_stream) = Inr (4096, ?os4)"
    by (simp add: WriteCode_def f ex_driver_def ff_stream_def u32_def Let_def)
  have 5: "write_processors = [] @ WriteCodeMethodProcessor_vtable #
             [WriteMapMethodProcessor_vtable GcMapBinder,
              WriteMapMethodProcessor_vtable MappingTableBinder,
              WriteMapMethodProcessor_vtable VmapTableBinder]"
    by (simp add: write_processors_def)
  have 6: "process_all [] w (position ff_stream) (4096, ?os4) = Inr (4096, ?os4)"
    by simp
  have ev: "traversal_events [ex_dex]
             = [EvStartClass ex_dex 0, EvProcessMethod 0 ?m1, EvProcessMethod 1 ?m2, EvEndClass]"
    by (simp add: traversal_events_def classes_events_def class_events_def method_events_def
        class_data_methods_def ex_dex_def ex_class_def enumerate_eq_zip upt_rec)
  have 7: "traversal_events (dex_files w)
             = [EvStartClass ex_dex 0] @ EvProcessMethod 0 ?m1 # [EvProcessMethod 1 ?m2, EvEndClass]"
    by (simp add: f ev)
  have 8: "run WriteCodeMethodProcessor_vtable [EvStartClass ex_dex 0] ?t0 = Inr (True, ?t1)"
    by (simp add: WriteCodeMethodProcessor_vtable_def OatDexMethodProcessor_StartClass_def
        DexMethodProcessor_StartClass_def WriteMethodProcessor_new_def ff_stream_def)
  have 9: "callback WriteCodeMethodProcessor_vtable (EvProcessMethod 0 ?m1) ?t1 = Inr (False, ?t1)"
    by (simp add: WriteCodeMethodProcessor_vtable_def WriteCode_ProcessMethod_def
        WriteMethodProcessor_new_def f ex_oat_class_def ex_method_def ex_record_def
        ex_driver_def ex_memory_def kX86Alignment_def RoundUp_def u32_def WriteCode_padding_def
        WriteCode_header_and_code_def WriteFully_def ff_stream_def sizeof_OatMethodHeader_def
        Let_def)
  have a0: "traversal_events [ex_dex]
             = [] @ EvStartClass ex_dex 0 # [EvProcessMethod 0 ?m1, EvProcessMethod 1 ?m2, EvEndClass]"
    "run (counting 0) [] 0 = Inr (True, 0)"
    "callback (counting 0) (EvStartClass ex_dex 0) 0 = Inr (False, 1)"
    by (simp_all add: ev counting_def)
  have a1: "traversal_events [ex_dex]
             = [EvStartClass ex_dex 0] @ EvProcessMethod 0 ?m1 # [EvProcessMethod 1 ?m2, EvEndClass]"
    "run (counting 1) [EvStartClass ex_dex 0] 0 = Inr (True, 1)"
    "callback (counting 1) (EvProcessMethod 0 ?m1) 1 = Inr (False, 2)"
    by (simp_all add: ev counting_def)
  have a3: "traversal_events [ex_dex]
             = [EvStartClass ex_dex 0, EvProcessMethod 0 ?m1, EvProcessMethod 1 ?m2] @ EvEndClass # []"
    "run (counting 3) [EvStartClass ex_dex 0, EvProcessMethod 0 ?m1, EvProcessMethod 1 ?m2] 0 = Inr (True, 3)"
    "callback (counting 3) EvEndClass 3 = Inr (False, 4)"
    by (simp_all add: ev counting_def)
  note T0 = failing_callback_fails_the_write[OF a0 1 2 3 4 _ 5 6 _ 7 8 9]
  note T1 = failing_callback_fails_the_write[OF a1 1 2 3 4 _ 5 6 _ 7 8 9]
  note T3 = failing_callback_fails_the_write[OF a3 1 2 3 4 _ 5 6 _ 7 8 9]
  have "Write w ff_stream = Inr (False, ?os4)"
    using T0 by (simp add: WriteMethodProcessor_new_def)
  then show ?thesis using T0 T1 T3 w by simp
qed

section \<open>Claim C1: the total size is what the write pass emits\<close>



section \<open>Claim C8: what the checksum covers\<close>




section \<open>Claim C6: alignment\<close>




end
